theory Spec2Isabelle
  imports Complex_Main
begin

section \<open>JavaScript values\<close>

text \<open>
  The adapters handle untyped records (\<open>Record<string, unknown>\<close>).  A value is one of
  the JavaScript shapes the code distinguishes; an object is an association list in
  insertion order, as \<open>Object.entries\<close> enumerates it.  Numbers are the integers
  (\<open>NaN\<close>, infinities and fractions are outside the model); an instant produced by
  \<open>new Date()\<close> is \<open>VDate\<close> of a clock reading.
\<close>

datatype jsval =
    VUndef
  | VNull
  | VBool bool
  | VNum int
  | VStr string
  | VDate nat
  | VArr "jsval list"
  | VObj "(string \<times> jsval) list"

type_synonym obj = "(string \<times> jsval) list"

text \<open>Truthiness, as \<open>if (v)\<close> and \<open>v && ...\<close> test it.\<close>

fun truthy :: "jsval \<Rightarrow> bool" where
  "truthy VUndef = False"
| "truthy VNull = False"
| "truthy (VBool b) = b"
| "truthy (VNum n) = (n \<noteq> 0)"
| "truthy (VStr s) = (s \<noteq> [])"
| "truthy (VDate _) = True"
| "truthy (VArr _) = True"
| "truthy (VObj _) = True"

text \<open>\<open>a || b\<close> on numbers: the left operand unless it is \<open>0\<close>.\<close>

definition num_or :: "int \<Rightarrow> int \<Rightarrow> int" where
  "num_or a b = (if a = 0 then b else a)"

text \<open>
  Setting one key of an object: an existing key keeps its position and takes the new
  value, a new key is appended.  The spread \<open>{...a, ...b}\<close> sets the entries of
  \<open>b\<close>, in order, on a copy of \<open>a\<close>.
\<close>

fun set_key :: "string \<Rightarrow> jsval \<Rightarrow> obj \<Rightarrow> obj" where
  "set_key k v [] = [(k, v)]"
| "set_key k v ((k', v') # rest) =
     (if k' = k then (k, v) # rest else (k', v') # set_key k v rest)"

fun spread :: "obj \<Rightarrow> obj \<Rightarrow> obj" where
  "spread a [] = a"
| "spread a ((k, v) # rest) = spread (set_key k v a) rest"

section \<open>Pagination shaper\<close>

record 'a PageResult =
  pr_data :: "'a list"
  pr_page :: int
  pr_limit :: int
  pr_total :: int
  pr_pages :: int

text \<open>
  \<open>shapePage\<close> of both adapters:
  \<open>pages = Math.max(1, Math.ceil((total || 0) / (limit || 1)))\<close>.
\<close>

definition shapePage :: "'a list \<Rightarrow> int \<Rightarrow> int \<Rightarrow> int \<Rightarrow> 'a PageResult" where
  "shapePage data page limit total_n =
     (let pages = max 1 \<lceil>real_of_int (num_or total_n 0) / real_of_int (num_or limit 1)\<rceil>
      in \<lparr>pr_data = data, pr_page = page, pr_limit = limit, pr_total = total_n,
          pr_pages = pages\<rparr>)"

section \<open>Transaction coordinator\<close>

text \<open>
  \<open>withTransaction\<close> of the two adapters.  What the coordinator does to the outside
  world is recorded as a list of events, in order: the driver calls that open, commit,
  abort and release a transaction, the invocations of the user callback and the
  back-off sleeps.  The user callback and the driver's commit are the environment: their
  outcome at the attempt with a given index is given by \<open>cb_outcome\<close> and
  \<open>commit_outcome\<close>.  The adapter is taken to be connected.
\<close>

datatype isolation = ReadUncommitted | ReadCommitted | RepeatableRead | Serializable

text \<open>
  A thrown value is \<open>unknown\<close> to the \<open>catch\<close> block: it may be \<open>undefined\<close>,
  \<open>null\<close>, another primitive (a string, a number, a boolean) or an object.  A relational
  error object carries an optional \<open>code\<close> string; a document store error object
  carries an optional \<open>hasErrorLabel\<close> method and an optional numeric \<open>code\<close>.  The
  last field is the message.  \<open>PgTypeError\<close> and \<open>MgTypeError\<close> are the \<open>TypeError\<close>
  objects that the engine raises when a property of \<open>null\<close> or \<open>undefined\<close> is read:
  error objects with neither code nor label.
\<close>

datatype pg_thrown =
    PgUndefined
  | PgNull
  | PgPrimitive
  | PgErrorObj "string option" string
  | PgTypeError

datatype mongo_thrown =
    MgUndefined
  | MgNull
  | MgPrimitive
  | MgErrorObj "(string \<Rightarrow> bool) option" "int option" string
  | MgTypeError

datatype tx_event =
    KxBegin isolation
  | KxRaw nat
  | KxCommit
  | KxRollback
  | MgConnect
  | MgStartSession
  | MgStartTransaction nat
  | MgCommit
  | MgAbort
  | MgEndSession
  | RunCallback nat
  | Sleep nat

record ('e, 'r) tx_env =
  cb_outcome :: "nat \<Rightarrow> 'e + 'r"
  commit_outcome :: "nat \<Rightarrow> 'e option"

record TransactionOptions =
  isolationLevel :: "isolation option"
  timeout :: "nat option"
  retries :: "int option"

definition DEFAULT_TRANSACTION_TIMEOUT :: nat where
  "DEFAULT_TRANSACTION_TIMEOUT = 30000"

definition pg_retryableCodes :: "string list" where
  "pg_retryableCodes = [''40001'', ''40P01'', ''55P03'', ''57P01'', ''57014'']"

fun isRetryableError :: "pg_thrown \<Rightarrow> bool" where
  "isRetryableError (PgErrorObj code msg) =
     (case code of None \<Rightarrow> False | Some c \<Rightarrow> c \<noteq> [] \<and> c \<in> set pg_retryableCodes)"
| "isRetryableError _ = False"

definition mongo_retryableCodes :: "int list" where
  "mongo_retryableCodes = [11600, 11602, 10107, 13435, 13436, 189, 91]"

fun isTransientError :: "mongo_thrown \<Rightarrow> bool" where
  "isTransientError (MgErrorObj hasErrorLabel code msg) =
     (if (case hasErrorLabel of None \<Rightarrow> False | Some f \<Rightarrow> f ''TransientTransactionError'')
      then True
      else (case code of None \<Rightarrow> False | Some c \<Rightarrow> c \<noteq> 0 \<and> c \<in> set mongo_retryableCodes))"
| "isTransientError _ = False"

text \<open>
  The \<open>catch\<close> block of both adapters logs \<open>lastError.message\<close> before it classifies
  the error.  Reading the property of \<open>null\<close> or \<open>undefined\<close> raises a \<open>TypeError\<close>
  inside the block, and that error leaves \<open>withTransaction\<close> in place of the thrown
  value; of any other value the property is read (it may be \<open>undefined\<close>).
\<close>

fun pg_nullish :: "pg_thrown \<Rightarrow> bool" where
  "pg_nullish PgUndefined = True"
| "pg_nullish PgNull = True"
| "pg_nullish _ = False"

fun mongo_nullish :: "mongo_thrown \<Rightarrow> bool" where
  "mongo_nullish MgUndefined = True"
| "mongo_nullish MgNull = True"
| "mongo_nullish _ = False"

definition backoffMs :: "nat \<Rightarrow> nat" where
  "backoffMs attempt = min (100 * 2 ^ attempt) 3000"

text \<open>
  \<open>kx.transaction(handler, {isolationLevel})\<close> with the handler of
  \<open>withTransaction\<close>: the driver begins a transaction, the handler sets the statement
  timeout and awaits the callback; the driver commits when the handler resolves and
  rolls back when it rejects.  After the rollback the driver rejects with the handler's
  error, unless that is \<open>undefined\<close>: then the promise of \<open>kx.transaction\<close> resolves,
  with \<open>undefined\<close> (the driver's \<open>doNotRejectOnRollback\<close>, on by default).  A commit
  that fails rejects with the driver's error, an \<open>Error\<close> made by the driver when the
  failure carries none.  The callback resolves with a JavaScript value.
\<close>

definition knex_transaction ::
  "(pg_thrown, jsval) tx_env \<Rightarrow> isolation \<Rightarrow> nat \<Rightarrow> nat
     \<Rightarrow> tx_event list \<times> (pg_thrown + jsval)" where
  "knex_transaction env isoLevel tmo attempt =
     (case cb_outcome env attempt of
        Inl e \<Rightarrow>
          ([KxBegin isoLevel, KxRaw tmo, RunCallback attempt, KxRollback],
           if e = PgUndefined then Inr VUndef else Inl e)
      | Inr r \<Rightarrow>
          (case commit_outcome env attempt of
             None \<Rightarrow> ([KxBegin isoLevel, KxRaw tmo, RunCallback attempt, KxCommit], Inr r)
           | Some e \<Rightarrow>
               ([KxBegin isoLevel, KxRaw tmo, RunCallback attempt, KxCommit],
                Inl (if e = PgUndefined
                     then PgErrorObj None ''Transaction rejected with non-error: undefined''
                     else e))))"

function pg_attempts ::
  "(pg_thrown, jsval) tx_env \<Rightarrow> isolation \<Rightarrow> nat \<Rightarrow> int \<Rightarrow> nat \<Rightarrow> pg_thrown option
     \<Rightarrow> tx_event list \<times> (pg_thrown + jsval)" where
  "pg_attempts env isoLevel tmo n attempt lastError =
     (if int attempt \<le> n then
        (case knex_transaction env isoLevel tmo attempt of
           (evs, Inr result) \<Rightarrow> (evs, Inr result)
         | (evs, Inl error) \<Rightarrow>
             (if pg_nullish error then (evs, Inl PgTypeError)
              else if \<not> isRetryableError error \<or> int attempt \<ge> n then (evs, Inl error)
              else (case pg_attempts env isoLevel tmo n (attempt + 1) (Some error) of
                      (evs', r) \<Rightarrow> (evs @ [Sleep (backoffMs attempt)] @ evs', r))))
      else ([], Inl (case lastError of Some e \<Rightarrow> e
                                   | None \<Rightarrow> PgErrorObj None ''Transaction failed'')))"
  by pat_completeness auto
termination
  by (relation "measure (\<lambda>(env, isoLevel, tmo, n, attempt, lastError). nat (n + 1 - int attempt))") auto

declare pg_attempts.simps [simp del]

definition pg_withTransaction ::
  "(pg_thrown, jsval) tx_env \<Rightarrow> TransactionOptions \<Rightarrow> tx_event list \<times> (pg_thrown + jsval)" where
  "pg_withTransaction env options =
     (let isoLevel = (case isolationLevel options of None \<Rightarrow> ReadCommitted | Some l \<Rightarrow> l);
          n = (case retries options of None \<Rightarrow> 0 | Some k \<Rightarrow> k);
          tmo = (case timeout options of None \<Rightarrow> DEFAULT_TRANSACTION_TIMEOUT | Some t \<Rightarrow> t)
      in pg_attempts env isoLevel tmo n 0 None)"

text \<open>
  The \<open>try\<close> block of the document adapter: \<open>startTransaction\<close>, the callback,
  \<open>commitTransaction\<close>.  \<open>mongo_attempts\<close> wraps it in the session, the
  \<open>catch\<close> block (abort, read the message, classify, rethrow or sleep) and the
  \<open>finally\<close> block (\<open>endSession\<close>).
\<close>

definition mongo_try ::
  "(mongo_thrown, 'r) tx_env \<Rightarrow> nat \<Rightarrow> nat \<Rightarrow> tx_event list \<times> (mongo_thrown + 'r)" where
  "mongo_try env tmo attempt =
     (case cb_outcome env attempt of
        Inl e \<Rightarrow> ([MgStartTransaction tmo, RunCallback attempt], Inl e)
      | Inr r \<Rightarrow>
          (case commit_outcome env attempt of
             None \<Rightarrow> ([MgStartTransaction tmo, RunCallback attempt, MgCommit], Inr r)
           | Some e \<Rightarrow> ([MgStartTransaction tmo, RunCallback attempt, MgCommit], Inl e)))"

function mongo_attempts ::
  "(mongo_thrown, 'r) tx_env \<Rightarrow> nat \<Rightarrow> int \<Rightarrow> nat \<Rightarrow> mongo_thrown option
     \<Rightarrow> tx_event list \<times> (mongo_thrown + 'r)" where
  "mongo_attempts env tmo n attempt lastError =
     (if int attempt \<le> n then
        (case mongo_try env tmo attempt of
           (evs, Inr result) \<Rightarrow> (MgStartSession # evs @ [MgEndSession], Inr result)
         | (evs, Inl error) \<Rightarrow>
             (if mongo_nullish error
              then (MgStartSession # evs @ [MgAbort, MgEndSession], Inl MgTypeError)
              else if \<not> isTransientError error \<or> int attempt \<ge> n
              then (MgStartSession # evs @ [MgAbort, MgEndSession], Inl error)
              else (case mongo_attempts env tmo n (attempt + 1) (Some error) of
                      (evs', r) \<Rightarrow>
                        (MgStartSession # evs
                           @ [MgAbort, Sleep (backoffMs attempt), MgEndSession] @ evs', r))))
      else ([], Inl (case lastError of Some e \<Rightarrow> e
                                   | None \<Rightarrow> MgErrorObj None None ''Transaction failed'')))"
  by pat_completeness auto
termination
  by (relation "measure (\<lambda>(env, tmo, n, attempt, lastError). nat (n + 1 - int attempt))") auto

declare mongo_attempts.simps [simp del]

definition mongo_withTransaction ::
  "(mongo_thrown, 'r) tx_env \<Rightarrow> TransactionOptions \<Rightarrow> tx_event list \<times> (mongo_thrown + 'r)" where
  "mongo_withTransaction env options =
     (let n = (case retries options of None \<Rightarrow> 0 | Some k \<Rightarrow> k);
          tmo = (case timeout options of None \<Rightarrow> DEFAULT_TRANSACTION_TIMEOUT | Some t \<Rightarrow> t)
      in (case mongo_attempts env tmo n 0 None of (evs, r) \<Rightarrow> (MgConnect # evs, r)))"

text \<open>
  Observations on an event list: every session that is started is ended before the next
  one starts and before the call returns; the attempt indices of the callback
  invocations; the sleeps; the number of transactions or sessions opened.
\<close>

fun sessions_released :: "bool \<Rightarrow> tx_event list \<Rightarrow> bool" where
  "sessions_released opened [] = (\<not> opened)"
| "sessions_released opened (MgStartSession # es) = (\<not> opened \<and> sessions_released True es)"
| "sessions_released opened (MgEndSession # es) = (opened \<and> sessions_released False es)"
| "sessions_released opened (_ # es) = sessions_released opened es"

fun callbacks_run :: "tx_event list \<Rightarrow> nat list" where
  "callbacks_run [] = []"
| "callbacks_run (RunCallback i # es) = i # callbacks_run es"
| "callbacks_run (_ # es) = callbacks_run es"

fun sleeps :: "tx_event list \<Rightarrow> nat list" where
  "sleeps [] = []"
| "sleeps (Sleep ms # es) = ms # sleeps es"
| "sleeps (_ # es) = sleeps es"

fun opens :: "tx_event list \<Rightarrow> nat" where
  "opens [] = 0"
| "opens (KxBegin _ # es) = Suc (opens es)"
| "opens (MgStartSession # es) = Suc (opens es)"
| "opens (_ # es) = opens es"


text \<open>The events of one failed attempt with a retryable error, out of \<open>n\<close> retries.\<close>

definition pg_failed_attempt :: "isolation \<Rightarrow> nat \<Rightarrow> int \<Rightarrow> nat \<Rightarrow> tx_event list" where
  "pg_failed_attempt isoLevel tmo n i =
     [KxBegin isoLevel, KxRaw tmo, RunCallback i, KxRollback]
       @ (if int i < n then [Sleep (backoffMs i)] else [])"

definition mongo_failed_attempt :: "nat \<Rightarrow> int \<Rightarrow> nat \<Rightarrow> tx_event list" where
  "mongo_failed_attempt tmo n i =
     [MgStartSession, MgStartTransaction tmo, RunCallback i, MgAbort]
       @ (if int i < n then [Sleep (backoffMs i)] else []) @ [MgEndSession]"

text \<open>Concrete environments and options used to instantiate the theorems.\<close>

definition always_40001 :: "(pg_thrown, jsval) tx_env" where
  "always_40001 = \<lparr>cb_outcome = (\<lambda>i. Inl (PgErrorObj (Some ''40001'') ''serialization_failure'')),
                    commit_outcome = (\<lambda>i. None)\<rparr>"

definition always_labelled :: "(mongo_thrown, nat) tx_env" where
  "always_labelled = \<lparr>cb_outcome = (\<lambda>i. Inl (MgErrorObj
                          (Some (\<lambda>l. l = ''TransientTransactionError'')) None ''write conflict'')),
                       commit_outcome = (\<lambda>i. None)\<rparr>"

definition two_retries :: TransactionOptions where
  "two_retries = \<lparr>isolationLevel = None, timeout = None, retries = Some 2\<rparr>"






section \<open>Repositories\<close>

text \<open>
  \<open>createRepository\<close> of the two adapters.  A repository operation runs against a
  world: the rows of the entity's table (or the documents of its collection), the
  clock that \<open>new Date()\<close> reads, and the list of calls made so far to the backend
  driver and to the configured hooks.  An operation returns its result, or the error it
  throws, and the new world.  Hooks and driver calls are taken to return normally; the
  errors of the model are the ones the adapters raise themselves.
\<close>

datatype repo_error = FieldNotAllowed string string

datatype row_id = IdString string | IdNumber int

fun id_val :: "row_id \<Rightarrow> jsval" where
  "id_val (IdString s) = VStr s"
| "id_val (IdNumber n) = VNum n"

datatype direction = Asc | Desc

datatype sort_spec = SortString string | SortObject obj

datatype clause =
    Where string jsval
  | WhereNot string jsval
  | WhereOp string string jsval
  | WhereIn string jsval
  | WhereNotIn string jsval
  | WhereILike string jsval
  | WhereNull string
  | WhereNotNull string

text \<open>
  A statement built on \<open>kx(table)\<close> and awaited.  \<open>Update\<close> and \<open>Delete\<close> carry
  whether \<open>returning('*')\<close> was asked; \<open>Insert\<close> always asks it.
\<close>

datatype stmt =
    Select "string list" "clause list" "(string \<times> direction) list" "(int \<times> int) option"
  | SelectFirst "string list" "clause list"
  | CountAll "clause list"
  | SelectDistinct string "clause list"
  | Insert "obj list"
  | Update "clause list" obj bool
  | Delete "clause list"

text \<open>Calls on the Mongoose model.\<close>

datatype model_call =
    ModelCreate obj
  | ModelFindOne obj "string option"
  | ModelFind obj "(int \<times> int) option" "sort_spec option" "obj option"
  | ModelCountDocuments obj
  | ModelExists obj
  | ModelFindOneAndUpdate obj obj bool
  | ModelUpdateOne obj obj
  | ModelUpdateMany obj obj
  | ModelFindByIdAndDelete row_id
  | ModelDeleteMany obj
  | ModelInsertMany "obj list"
  | ModelDistinct string obj

text \<open>What a driver answers: rows (documents), or a number of rows counted or affected.\<close>

datatype response = Rows "obj list" | Affected int

fun rows_of :: "response \<Rightarrow> obj list" where
  "rows_of (Rows rs) = rs"
| "rows_of (Affected n) = []"

fun number_of :: "response \<Rightarrow> int" where
  "number_of (Affected n) = n"
| "number_of (Rows rs) = int (length rs)"

definition first_row :: "response \<Rightarrow> obj option" where
  "first_row resp = (case rows_of resp of [] \<Rightarrow> None | r # _ \<Rightarrow> Some r)"

record HookContext =
  hc_data :: obj
  hc_operation :: string
  hc_isBulk :: bool

text \<open>
  The hooks bundle.  \<open>beforeCreate\<close> and \<open>beforeUpdate\<close> return a payload or nothing;
  the other four are observers, of which the model records whether they are configured.
\<close>

record RepositoryHooks =
  beforeCreate :: "(HookContext \<Rightarrow> obj option) option"
  afterCreate :: bool
  beforeUpdate :: "(HookContext \<Rightarrow> obj option) option"
  afterUpdate :: bool
  beforeDelete :: bool
  afterDelete :: bool

datatype hook_call =
    BeforeCreate HookContext
  | AfterCreate "obj option"
  | BeforeUpdate HookContext
  | AfterUpdate "obj option"
  | BeforeDelete row_id
  | AfterDelete bool

datatype event =
    Driver string stmt
  | Model bool model_call
  | Hook hook_call

record world =
  store :: "obj list"
  clock :: nat
  events :: "event list"

type_synonym kx_driver = "stmt \<Rightarrow> obj list \<Rightarrow> response \<times> obj list"

type_synonym model_driver = "model_call \<Rightarrow> obj list \<Rightarrow> response \<times> obj list"

definition kx_run :: "kx_driver \<Rightarrow> string \<Rightarrow> stmt \<Rightarrow> world \<Rightarrow> response \<times> world" where
  "kx_run kx tbl s w =
     (case kx s (store w) of
        (resp, st') \<Rightarrow> (resp, w\<lparr>store := st', events := events w @ [Driver tbl s]\<rparr>))"

definition model_run :: "model_driver \<Rightarrow> bool \<Rightarrow> model_call \<Rightarrow> world \<Rightarrow> response \<times> world" where
  "model_run model session c w =
     (case model c (store w) of
        (resp, st') \<Rightarrow> (resp, w\<lparr>store := st', events := events w @ [Model session c]\<rparr>))"

definition hook_run :: "hook_call \<Rightarrow> world \<Rightarrow> world" where
  "hook_run h w = w\<lparr>events := events w @ [Hook h]\<rparr>"

text \<open>Property access \<open>o.k\<close>: \<open>undefined\<close> when the key is absent.\<close>

definition get_prop :: "obj \<Rightarrow> string \<Rightarrow> jsval" where
  "get_prop ob k = (case map_of ob k of None \<Rightarrow> VUndef | Some v \<Rightarrow> v)"

subsection \<open>Relational adapter\<close>

record PostgresEntityConfig =
  cfg_table :: string
  cfg_primaryKey :: "string option"
  cfg_columns :: "string list option"
  cfg_defaultFilter :: "obj option"
  cfg_softDelete :: "bool option"
  cfg_softDeleteField :: "string option"
  cfg_timestamps :: "bool option"
  cfg_createdAtField :: "string option"
  cfg_updatedAtField :: "string option"
  cfg_hooks :: "RepositoryHooks option"

definition pg_pk :: "PostgresEntityConfig \<Rightarrow> string" where
  "pg_pk cfg = (case cfg_primaryKey cfg of None \<Rightarrow> ''id'' | Some s \<Rightarrow> if s = [] then ''id'' else s)"

definition pg_allowed :: "PostgresEntityConfig \<Rightarrow> string list" where
  "pg_allowed cfg = (case cfg_columns cfg of None \<Rightarrow> [] | Some cs \<Rightarrow> cs)"

definition pg_baseFilter :: "PostgresEntityConfig \<Rightarrow> obj" where
  "pg_baseFilter cfg = (case cfg_defaultFilter cfg of None \<Rightarrow> [] | Some f \<Rightarrow> f)"

definition pg_softDeleteEnabled :: "PostgresEntityConfig \<Rightarrow> bool" where
  "pg_softDeleteEnabled cfg = (case cfg_softDelete cfg of None \<Rightarrow> False | Some b \<Rightarrow> b)"

definition pg_softDeleteField :: "PostgresEntityConfig \<Rightarrow> string" where
  "pg_softDeleteField cfg = (case cfg_softDeleteField cfg of None \<Rightarrow> ''deleted_at'' | Some s \<Rightarrow> s)"

definition pg_timestampsEnabled :: "PostgresEntityConfig \<Rightarrow> bool" where
  "pg_timestampsEnabled cfg = (case cfg_timestamps cfg of None \<Rightarrow> False | Some b \<Rightarrow> b)"

definition pg_createdAtField :: "PostgresEntityConfig \<Rightarrow> string" where
  "pg_createdAtField cfg = (case cfg_createdAtField cfg of None \<Rightarrow> ''created_at'' | Some s \<Rightarrow> s)"

definition pg_updatedAtField :: "PostgresEntityConfig \<Rightarrow> string" where
  "pg_updatedAtField cfg = (case cfg_updatedAtField cfg of None \<Rightarrow> ''updated_at'' | Some s \<Rightarrow> s)"

definition pg_notDeletedFilter :: "PostgresEntityConfig \<Rightarrow> obj" where
  "pg_notDeletedFilter cfg =
     (if pg_softDeleteEnabled cfg
      then [(pg_softDeleteField cfg, VObj [(''isNull'', VBool True)])]
      else [])"

definition pg_deletedFilter :: "PostgresEntityConfig \<Rightarrow> obj" where
  "pg_deletedFilter cfg = [(pg_softDeleteField cfg, VObj [(''isNotNull'', VBool True)])]"

definition pg_addCreatedAt :: "PostgresEntityConfig \<Rightarrow> nat \<Rightarrow> obj \<Rightarrow> obj" where
  "pg_addCreatedAt cfg now data =
     (if pg_timestampsEnabled cfg then spread data [(pg_createdAtField cfg, VDate now)] else data)"

definition pg_addUpdatedAt :: "PostgresEntityConfig \<Rightarrow> nat \<Rightarrow> obj \<Rightarrow> obj" where
  "pg_addUpdatedAt cfg now data =
     (if pg_timestampsEnabled cfg then spread data [(pg_updatedAtField cfg, VDate now)] else data)"

definition runBeforeCreate :: "PostgresEntityConfig \<Rightarrow> obj \<Rightarrow> world \<Rightarrow> obj \<times> world" where
  "runBeforeCreate cfg data w =
     (case cfg_hooks cfg of
        None \<Rightarrow> (data, w)
      | Some hooks \<Rightarrow>
          (case beforeCreate hooks of
             None \<Rightarrow> (data, w)
           | Some hook \<Rightarrow>
               (let ctx = \<lparr>hc_data = data, hc_operation = ''create'', hc_isBulk = False\<rparr>
                in (case hook ctx of None \<Rightarrow> data | Some result \<Rightarrow> result,
                    hook_run (BeforeCreate ctx) w))))"

definition runAfterCreate :: "PostgresEntityConfig \<Rightarrow> obj option \<Rightarrow> world \<Rightarrow> world" where
  "runAfterCreate cfg entity w =
     (case cfg_hooks cfg of
        None \<Rightarrow> w
      | Some hooks \<Rightarrow> if afterCreate hooks then hook_run (AfterCreate entity) w else w)"

definition runBeforeUpdate :: "PostgresEntityConfig \<Rightarrow> obj \<Rightarrow> world \<Rightarrow> obj \<times> world" where
  "runBeforeUpdate cfg data w =
     (case cfg_hooks cfg of
        None \<Rightarrow> (data, w)
      | Some hooks \<Rightarrow>
          (case beforeUpdate hooks of
             None \<Rightarrow> (data, w)
           | Some hook \<Rightarrow>
               (let ctx = \<lparr>hc_data = data, hc_operation = ''update'', hc_isBulk = False\<rparr>
                in (case hook ctx of None \<Rightarrow> data | Some result \<Rightarrow> result,
                    hook_run (BeforeUpdate ctx) w))))"

definition runAfterUpdate :: "PostgresEntityConfig \<Rightarrow> obj option \<Rightarrow> world \<Rightarrow> world" where
  "runAfterUpdate cfg entity w =
     (case cfg_hooks cfg of
        None \<Rightarrow> w
      | Some hooks \<Rightarrow> if afterUpdate hooks then hook_run (AfterUpdate entity) w else w)"

definition runBeforeDelete :: "PostgresEntityConfig \<Rightarrow> row_id \<Rightarrow> world \<Rightarrow> world" where
  "runBeforeDelete cfg ident w =
     (case cfg_hooks cfg of
        None \<Rightarrow> w
      | Some hooks \<Rightarrow> if beforeDelete hooks then hook_run (BeforeDelete ident) w else w)"

definition runAfterDelete :: "PostgresEntityConfig \<Rightarrow> bool \<Rightarrow> world \<Rightarrow> world" where
  "runAfterDelete cfg success w =
     (case cfg_hooks cfg of
        None \<Rightarrow> w
      | Some hooks \<Rightarrow> if afterDelete hooks then hook_run (AfterDelete success) w else w)"

definition assertFieldAllowed :: "PostgresEntityConfig \<Rightarrow> string \<Rightarrow> repo_error + unit" where
  "assertFieldAllowed cfg field =
     (if pg_allowed cfg \<noteq> [] \<and> field \<notin> set (pg_allowed cfg)
      then Inl (FieldNotAllowed field (cfg_table cfg))
      else Inr ())"

text \<open>
  The where-clauses \<open>applyFilter\<close> adds for one entry.  A value that is truthy, of type
  object and not an array is read as an operator object (a \<open>Date\<close> is such an object,
  with none of the operator keys); any other value is an equality.
\<close>

fun operators :: "jsval \<Rightarrow> obj option" where
  "operators (VObj ops) = Some ops"
| "operators (VDate _) = Some []"
| "operators _ = None"

definition entry_clauses :: "string \<Rightarrow> jsval \<Rightarrow> clause list" where
  "entry_clauses key val =
     (case operators val of
        Some ops \<Rightarrow>
          (if get_prop ops ''eq'' \<noteq> VUndef then [Where key (get_prop ops ''eq'')] else [])
          @ (if get_prop ops ''ne'' \<noteq> VUndef then [WhereNot key (get_prop ops ''ne'')] else [])
          @ (if get_prop ops ''gt'' \<noteq> VUndef then [WhereOp key ''>'' (get_prop ops ''gt'')] else [])
          @ (if get_prop ops ''gte'' \<noteq> VUndef then [WhereOp key ''>='' (get_prop ops ''gte'')] else [])
          @ (if get_prop ops ''lt'' \<noteq> VUndef then [WhereOp key ''<'' (get_prop ops ''lt'')] else [])
          @ (if get_prop ops ''lte'' \<noteq> VUndef then [WhereOp key ''<='' (get_prop ops ''lte'')] else [])
          @ (if truthy (get_prop ops ''in'') then [WhereIn key (get_prop ops ''in'')] else [])
          @ (if truthy (get_prop ops ''nin'') then [WhereNotIn key (get_prop ops ''nin'')] else [])
          @ (if truthy (get_prop ops ''like'') then [WhereILike key (get_prop ops ''like'')] else [])
          @ (if get_prop ops ''isNull'' = VBool True then [WhereNull key] else [])
          @ (if get_prop ops ''isNotNull'' = VBool True then [WhereNotNull key] else [])
      | None \<Rightarrow> [Where key val])"

fun applyFilter :: "PostgresEntityConfig \<Rightarrow> obj \<Rightarrow> repo_error + clause list" where
  "applyFilter cfg [] = Inr []"
| "applyFilter cfg ((key, val) # rest) =
     (case assertFieldAllowed cfg key of
        Inl e \<Rightarrow> Inl e
      | Inr _ \<Rightarrow>
          (case applyFilter cfg rest of
             Inl e \<Rightarrow> Inl e
           | Inr cs \<Rightarrow> Inr (entry_clauses key val @ cs)))"

text \<open>\<open>String.prototype.split(',')\<close>, \<open>toLowerCase\<close> on ASCII letters.\<close>

fun split_comma :: "string \<Rightarrow> string list" where
  "split_comma [] = [[]]"
| "split_comma (c # cs) =
     (if c = CHR '','' then [] # split_comma cs
      else (case split_comma cs of
              [] \<Rightarrow> [[c]]
            | p # ps \<Rightarrow> (c # p) # ps))"

definition lower_char :: "char \<Rightarrow> char" where
  "lower_char c =
     (let n = (of_char c :: nat) in if 65 \<le> n \<and> n \<le> 90 then char_of (n + 32) else c)"

fun says_desc :: "jsval \<Rightarrow> bool" where
  "says_desc (VStr s) = (map lower_char s = ''desc'')"
| "says_desc (VArr [v]) = says_desc v"
| "says_desc _ = False"

fun sort_parts :: "PostgresEntityConfig \<Rightarrow> string list \<Rightarrow> repo_error + (string \<times> direction) list" where
  "sort_parts cfg [] = Inr []"
| "sort_parts cfg (p # parts) =
     (let dir = (if take 1 p = ''-'' then Desc else Asc);
          col = (if take 1 p = ''-'' \<or> take 1 p = ''+'' then drop 1 p else p)
      in case assertFieldAllowed cfg col of
           Inl e \<Rightarrow> Inl e
         | Inr _ \<Rightarrow>
             (case sort_parts cfg parts of
                Inl e \<Rightarrow> Inl e
              | Inr os \<Rightarrow> Inr ((col, dir) # os)))"

fun sort_entries :: "PostgresEntityConfig \<Rightarrow> obj \<Rightarrow> repo_error + (string \<times> direction) list" where
  "sort_entries cfg [] = Inr []"
| "sort_entries cfg ((col, dir) # rest) =
     (case assertFieldAllowed cfg col of
        Inl e \<Rightarrow> Inl e
      | Inr _ \<Rightarrow>
          (let direction = (if dir = VNum (- 1) \<or> says_desc dir then Desc else Asc)
           in case sort_entries cfg rest of
                Inl e \<Rightarrow> Inl e
              | Inr os \<Rightarrow> Inr ((col, direction) # os)))"

definition applySort ::
  "PostgresEntityConfig \<Rightarrow> sort_spec option \<Rightarrow> repo_error + (string \<times> direction) list" where
  "applySort cfg sortOpt =
     (case sortOpt of
        None \<Rightarrow> Inr []
      | Some (SortString s) \<Rightarrow> if s = [] then Inr [] else sort_parts cfg (split_comma s)
      | Some (SortObject ob) \<Rightarrow> sort_entries cfg ob)"

record PageOptions =
  po_filter :: "obj option"
  po_page :: "int option"
  po_limit :: "int option"
  po_sort :: "sort_spec option"

text \<open>
  The operations of the relational repository, in the order of the source.  Each merges
  its filters, compiles them with \<open>applyFilter\<close> (which may throw) and only then awaits
  the statement.
\<close>

definition pg_create :: "kx_driver \<Rightarrow> PostgresEntityConfig \<Rightarrow> obj \<Rightarrow> world
    \<Rightarrow> (repo_error + obj option) \<times> world" where
  "pg_create kx cfg data w =
     (case runBeforeCreate cfg data w of
        (hooked, w1) \<Rightarrow>
          (let processedData = pg_addCreatedAt cfg (clock w1) hooked
           in case kx_run kx (cfg_table cfg) (Insert [processedData]) w1 of
                (resp, w2) \<Rightarrow>
                  (let entity = first_row resp
                   in (Inr entity, runAfterCreate cfg entity w2))))"

definition pg_findById :: "kx_driver \<Rightarrow> PostgresEntityConfig \<Rightarrow> row_id \<Rightarrow> world
    \<Rightarrow> (repo_error + obj option) \<times> world" where
  "pg_findById kx cfg ident w =
     (let mergedFilter = spread (pg_baseFilter cfg) (pg_notDeletedFilter cfg)
      in case applyFilter cfg mergedFilter of
           Inl e \<Rightarrow> (Inl e, w)
         | Inr cs \<Rightarrow>
             (case kx_run kx (cfg_table cfg)
                     (SelectFirst [''*''] (Where (pg_pk cfg) (id_val ident) # cs)) w of
                (resp, w') \<Rightarrow> (Inr (first_row resp), w')))"

definition pg_findAll :: "kx_driver \<Rightarrow> PostgresEntityConfig \<Rightarrow> obj \<Rightarrow> world
    \<Rightarrow> (repo_error + obj list) \<times> world" where
  "pg_findAll kx cfg filter_arg w =
     (let mergedFilter = spread (spread (pg_baseFilter cfg) (pg_notDeletedFilter cfg)) filter_arg
      in case applyFilter cfg mergedFilter of
           Inl e \<Rightarrow> (Inl e, w)
         | Inr cs \<Rightarrow>
             (case kx_run kx (cfg_table cfg) (Select [''*''] cs [] None) w of
                (resp, w') \<Rightarrow> (Inr (rows_of resp), w')))"

definition pg_findOne :: "kx_driver \<Rightarrow> PostgresEntityConfig \<Rightarrow> obj \<Rightarrow> world
    \<Rightarrow> (repo_error + obj option) \<times> world" where
  "pg_findOne kx cfg filter_arg w =
     (let mergedFilter = spread (spread (pg_baseFilter cfg) (pg_notDeletedFilter cfg)) filter_arg
      in case applyFilter cfg mergedFilter of
           Inl e \<Rightarrow> (Inl e, w)
         | Inr cs \<Rightarrow>
             (case kx_run kx (cfg_table cfg) (SelectFirst [''*''] cs) w of
                (resp, w') \<Rightarrow> (Inr (first_row resp), w')))"

definition pg_findPage :: "kx_driver \<Rightarrow> PostgresEntityConfig \<Rightarrow> PageOptions \<Rightarrow> world
    \<Rightarrow> (repo_error + obj PageResult) \<times> world" where
  "pg_findPage kx cfg options w =
     (let filter_arg = (case po_filter options of None \<Rightarrow> [] | Some f \<Rightarrow> f);
          page = (case po_page options of None \<Rightarrow> 1 | Some p \<Rightarrow> p);
          limit = (case po_limit options of None \<Rightarrow> 10 | Some l \<Rightarrow> l);
          mergedFilter = spread (spread (pg_baseFilter cfg) (pg_notDeletedFilter cfg)) filter_arg;
          offset = max 0 ((page - 1) * limit)
      in case applyFilter cfg mergedFilter of
           Inl e \<Rightarrow> (Inl e, w)
         | Inr cs \<Rightarrow>
             (case applySort cfg (po_sort options) of
                Inl e \<Rightarrow> (Inl e, w)
              | Inr order \<Rightarrow>
                  (case kx_run kx (cfg_table cfg)
                          (Select [''*''] cs order (Some (limit, offset))) w of
                     (resp, w1) \<Rightarrow>
                       (case applyFilter cfg mergedFilter of
                          Inl e \<Rightarrow> (Inl e, w1)
                        | Inr cs' \<Rightarrow>
                            (case kx_run kx (cfg_table cfg) (CountAll cs') w1 of
                               (countRow, w2) \<Rightarrow>
                                 (Inr (shapePage (rows_of resp) page limit (number_of countRow)),
                                  w2))))))"

definition pg_updateById :: "kx_driver \<Rightarrow> PostgresEntityConfig \<Rightarrow> row_id \<Rightarrow> obj \<Rightarrow> world
    \<Rightarrow> (repo_error + obj option) \<times> world" where
  "pg_updateById kx cfg ident update w =
     (case runBeforeUpdate cfg update w of
        (hooked, w1) \<Rightarrow>
          (let processedUpdate = pg_addUpdatedAt cfg (clock w1) hooked;
               mergedFilter = spread (pg_baseFilter cfg) (pg_notDeletedFilter cfg)
           in case applyFilter cfg mergedFilter of
                Inl e \<Rightarrow> (Inl e, w1)
              | Inr cs \<Rightarrow>
                  (case kx_run kx (cfg_table cfg)
                          (Update (Where (pg_pk cfg) (id_val ident) # cs) processedUpdate True) w1 of
                     (resp, w2) \<Rightarrow>
                       (let entity = first_row resp
                        in (Inr entity, runAfterUpdate cfg entity w2)))))"

definition pg_deleteById :: "kx_driver \<Rightarrow> PostgresEntityConfig \<Rightarrow> row_id \<Rightarrow> world
    \<Rightarrow> (repo_error + bool) \<times> world" where
  "pg_deleteById kx cfg ident w =
     (let w1 = runBeforeDelete cfg ident w;
          mergedFilter = spread (pg_baseFilter cfg) (pg_notDeletedFilter cfg)
      in case applyFilter cfg mergedFilter of
           Inl e \<Rightarrow> (Inl e, w1)
         | Inr cs \<Rightarrow>
             (case kx_run kx (cfg_table cfg)
                     (if pg_softDeleteEnabled cfg
                      then Update (Where (pg_pk cfg) (id_val ident) # cs)
                             [(pg_softDeleteField cfg, VDate (clock w1))] False
                      else Delete (Where (pg_pk cfg) (id_val ident) # cs)) w1 of
                (affectedRows, w2) \<Rightarrow>
                  (let success = (number_of affectedRows > 0)
                   in (Inr success, runAfterDelete cfg success w2))))"

definition pg_count :: "kx_driver \<Rightarrow> PostgresEntityConfig \<Rightarrow> obj \<Rightarrow> world
    \<Rightarrow> (repo_error + int) \<times> world" where
  "pg_count kx cfg filter_arg w =
     (let mergedFilter = spread (spread (pg_baseFilter cfg) (pg_notDeletedFilter cfg)) filter_arg
      in case applyFilter cfg mergedFilter of
           Inl e \<Rightarrow> (Inl e, w)
         | Inr cs \<Rightarrow>
             (case kx_run kx (cfg_table cfg) (CountAll cs) w of
                (resp, w') \<Rightarrow> (Inr (number_of resp), w')))"

definition pg_exists :: "kx_driver \<Rightarrow> PostgresEntityConfig \<Rightarrow> obj \<Rightarrow> world
    \<Rightarrow> (repo_error + bool) \<times> world" where
  "pg_exists kx cfg filter_arg w =
     (let mergedFilter = spread (spread (pg_baseFilter cfg) (pg_notDeletedFilter cfg)) filter_arg
      in case applyFilter cfg mergedFilter of
           Inl e \<Rightarrow> (Inl e, w)
         | Inr cs \<Rightarrow>
             (case kx_run kx (cfg_table cfg) (SelectFirst [pg_pk cfg] cs) w of
                (resp, w') \<Rightarrow> (Inr (first_row resp \<noteq> None), w')))"

definition pg_insertMany :: "kx_driver \<Rightarrow> PostgresEntityConfig \<Rightarrow> obj list \<Rightarrow> world
    \<Rightarrow> (repo_error + obj list) \<times> world" where
  "pg_insertMany kx cfg data w =
     (if length data = 0 then (Inr [], w)
      else (let timestampedData = map (pg_addCreatedAt cfg (clock w)) data
            in case kx_run kx (cfg_table cfg) (Insert timestampedData) w of
                 (resp, w') \<Rightarrow> (Inr (rows_of resp), w')))"

definition pg_updateMany :: "kx_driver \<Rightarrow> PostgresEntityConfig \<Rightarrow> obj \<Rightarrow> obj \<Rightarrow> world
    \<Rightarrow> (repo_error + int) \<times> world" where
  "pg_updateMany kx cfg filter_arg update w =
     (let mergedFilter = spread (spread (pg_baseFilter cfg) (pg_notDeletedFilter cfg)) filter_arg;
          timestampedUpdate = pg_addUpdatedAt cfg (clock w) update
      in case applyFilter cfg mergedFilter of
           Inl e \<Rightarrow> (Inl e, w)
         | Inr cs \<Rightarrow>
             (case kx_run kx (cfg_table cfg) (Update cs timestampedUpdate False) w of
                (affectedRows, w') \<Rightarrow> (Inr (number_of affectedRows), w')))"

definition pg_deleteMany :: "kx_driver \<Rightarrow> PostgresEntityConfig \<Rightarrow> obj \<Rightarrow> world
    \<Rightarrow> (repo_error + int) \<times> world" where
  "pg_deleteMany kx cfg filter_arg w =
     (let mergedFilter = spread (spread (pg_baseFilter cfg) (pg_notDeletedFilter cfg)) filter_arg
      in case applyFilter cfg mergedFilter of
           Inl e \<Rightarrow> (Inl e, w)
         | Inr cs \<Rightarrow>
             (case kx_run kx (cfg_table cfg)
                     (if pg_softDeleteEnabled cfg
                      then Update cs [(pg_softDeleteField cfg, VDate (clock w))] False
                      else Delete cs) w of
                (affectedRows, w') \<Rightarrow> (Inr (number_of affectedRows), w')))"

definition pg_upsert :: "kx_driver \<Rightarrow> PostgresEntityConfig \<Rightarrow> obj \<Rightarrow> obj \<Rightarrow> world
    \<Rightarrow> (repo_error + obj option) \<times> world" where
  "pg_upsert kx cfg filter_arg data w =
     (let mergedFilter = spread (spread (pg_baseFilter cfg) (pg_notDeletedFilter cfg)) filter_arg
      in case applyFilter cfg mergedFilter of
           Inl e \<Rightarrow> (Inl e, w)
         | Inr cs \<Rightarrow>
             (case kx_run kx (cfg_table cfg) (SelectFirst [''*''] cs) w of
                (resp, w1) \<Rightarrow>
                  (case first_row resp of
                     Some existing \<Rightarrow>
                       (let timestampedUpdate = pg_addUpdatedAt cfg (clock w1) data
                        in case kx_run kx (cfg_table cfg)
                                  (Update [Where (pg_pk cfg) (get_prop existing (pg_pk cfg))]
                                     timestampedUpdate True) w1 of
                             (resp', w2) \<Rightarrow> (Inr (first_row resp'), w2))
                   | None \<Rightarrow>
                       (let timestampedData = pg_addCreatedAt cfg (clock w1) (spread filter_arg data)
                        in case kx_run kx (cfg_table cfg) (Insert [timestampedData]) w1 of
                             (resp', w2) \<Rightarrow> (Inr (first_row resp'), w2)))))"

definition pg_distinct :: "kx_driver \<Rightarrow> PostgresEntityConfig \<Rightarrow> string \<Rightarrow> obj \<Rightarrow> world
    \<Rightarrow> (repo_error + jsval list) \<times> world" where
  "pg_distinct kx cfg field filter_arg w =
     (let mergedFilter = spread (spread (pg_baseFilter cfg) (pg_notDeletedFilter cfg)) filter_arg
      in case applyFilter cfg mergedFilter of
           Inl e \<Rightarrow> (Inl e, w)
         | Inr cs \<Rightarrow>
             (case kx_run kx (cfg_table cfg) (SelectDistinct field cs) w of
                (resp, w') \<Rightarrow> (Inr (map (\<lambda>row. get_prop row field) (rows_of resp)), w')))"

definition pg_select :: "kx_driver \<Rightarrow> PostgresEntityConfig \<Rightarrow> obj \<Rightarrow> string list \<Rightarrow> world
    \<Rightarrow> (repo_error + obj list) \<times> world" where
  "pg_select kx cfg filter_arg field_names w =
     (let mergedFilter = spread (spread (pg_baseFilter cfg) (pg_notDeletedFilter cfg)) filter_arg
      in case applyFilter cfg mergedFilter of
           Inl e \<Rightarrow> (Inl e, w)
         | Inr cs \<Rightarrow>
             (case kx_run kx (cfg_table cfg) (Select field_names cs [] None) w of
                (resp, w') \<Rightarrow> (Inr (rows_of resp), w')))"

definition pg_softDelete :: "kx_driver \<Rightarrow> PostgresEntityConfig \<Rightarrow> row_id \<Rightarrow> world
    \<Rightarrow> (repo_error + bool) \<times> world" where
  "pg_softDelete kx cfg ident w =
     (let mergedFilter = spread (pg_baseFilter cfg) (pg_notDeletedFilter cfg)
      in case applyFilter cfg mergedFilter of
           Inl e \<Rightarrow> (Inl e, w)
         | Inr cs \<Rightarrow>
             (case kx_run kx (cfg_table cfg)
                     (Update (Where (pg_pk cfg) (id_val ident) # cs)
                        [(pg_softDeleteField cfg, VDate (clock w))] False) w of
                (affectedRows, w') \<Rightarrow> (Inr (number_of affectedRows > 0), w')))"

definition pg_softDeleteMany :: "kx_driver \<Rightarrow> PostgresEntityConfig \<Rightarrow> obj \<Rightarrow> world
    \<Rightarrow> (repo_error + int) \<times> world" where
  "pg_softDeleteMany kx cfg filter_arg w =
     (let mergedFilter = spread (spread (pg_baseFilter cfg) (pg_notDeletedFilter cfg)) filter_arg
      in case applyFilter cfg mergedFilter of
           Inl e \<Rightarrow> (Inl e, w)
         | Inr cs \<Rightarrow>
             (case kx_run kx (cfg_table cfg)
                     (Update cs [(pg_softDeleteField cfg, VDate (clock w))] False) w of
                (affectedRows, w') \<Rightarrow> (Inr (number_of affectedRows), w')))"

definition pg_restore :: "kx_driver \<Rightarrow> PostgresEntityConfig \<Rightarrow> row_id \<Rightarrow> world
    \<Rightarrow> (repo_error + obj option) \<times> world" where
  "pg_restore kx cfg ident w =
     (let mergedFilter = spread (pg_baseFilter cfg) (pg_deletedFilter cfg)
      in case applyFilter cfg mergedFilter of
           Inl e \<Rightarrow> (Inl e, w)
         | Inr cs \<Rightarrow>
             (case kx_run kx (cfg_table cfg)
                     (Update (Where (pg_pk cfg) (id_val ident) # cs)
                        [(pg_softDeleteField cfg, VNull)] True) w of
                (resp, w') \<Rightarrow> (Inr (first_row resp), w')))"

definition pg_restoreMany :: "kx_driver \<Rightarrow> PostgresEntityConfig \<Rightarrow> obj \<Rightarrow> world
    \<Rightarrow> (repo_error + int) \<times> world" where
  "pg_restoreMany kx cfg filter_arg w =
     (let mergedFilter = spread (spread (pg_baseFilter cfg) (pg_deletedFilter cfg)) filter_arg
      in case applyFilter cfg mergedFilter of
           Inl e \<Rightarrow> (Inl e, w)
         | Inr cs \<Rightarrow>
             (case kx_run kx (cfg_table cfg)
                     (Update cs [(pg_softDeleteField cfg, VNull)] False) w of
                (affectedRows, w') \<Rightarrow> (Inr (number_of affectedRows), w')))"

definition pg_findAllWithDeleted :: "kx_driver \<Rightarrow> PostgresEntityConfig \<Rightarrow> obj \<Rightarrow> world
    \<Rightarrow> (repo_error + obj list) \<times> world" where
  "pg_findAllWithDeleted kx cfg filter_arg w =
     (let mergedFilter = spread (pg_baseFilter cfg) filter_arg
      in case applyFilter cfg mergedFilter of
           Inl e \<Rightarrow> (Inl e, w)
         | Inr cs \<Rightarrow>
             (case kx_run kx (cfg_table cfg) (Select [''*''] cs [] None) w of
                (resp, w') \<Rightarrow> (Inr (rows_of resp), w')))"

definition pg_findDeleted :: "kx_driver \<Rightarrow> PostgresEntityConfig \<Rightarrow> obj \<Rightarrow> world
    \<Rightarrow> (repo_error + obj list) \<times> world" where
  "pg_findDeleted kx cfg filter_arg w =
     (let mergedFilter = spread (spread (pg_baseFilter cfg) (pg_deletedFilter cfg)) filter_arg
      in case applyFilter cfg mergedFilter of
           Inl e \<Rightarrow> (Inl e, w)
         | Inr cs \<Rightarrow>
             (case kx_run kx (cfg_table cfg) (Select [''*''] cs [] None) w of
                (resp, w') \<Rightarrow> (Inr (rows_of resp), w')))"

text \<open>
  The repository object.  The six soft-delete members are optional: the adapters set
  them to a function or to \<open>undefined\<close>.
\<close>

record Repository =
  r_create :: "obj \<Rightarrow> world \<Rightarrow> (repo_error + obj option) \<times> world"
  r_findById :: "row_id \<Rightarrow> world \<Rightarrow> (repo_error + obj option) \<times> world"
  r_findAll :: "obj \<Rightarrow> world \<Rightarrow> (repo_error + obj list) \<times> world"
  r_findOne :: "obj \<Rightarrow> world \<Rightarrow> (repo_error + obj option) \<times> world"
  r_findPage :: "PageOptions \<Rightarrow> world \<Rightarrow> (repo_error + obj PageResult) \<times> world"
  r_updateById :: "row_id \<Rightarrow> obj \<Rightarrow> world \<Rightarrow> (repo_error + obj option) \<times> world"
  r_deleteById :: "row_id \<Rightarrow> world \<Rightarrow> (repo_error + bool) \<times> world"
  r_count :: "obj \<Rightarrow> world \<Rightarrow> (repo_error + int) \<times> world"
  r_exists :: "obj \<Rightarrow> world \<Rightarrow> (repo_error + bool) \<times> world"
  r_insertMany :: "obj list \<Rightarrow> world \<Rightarrow> (repo_error + obj list) \<times> world"
  r_updateMany :: "obj \<Rightarrow> obj \<Rightarrow> world \<Rightarrow> (repo_error + int) \<times> world"
  r_deleteMany :: "obj \<Rightarrow> world \<Rightarrow> (repo_error + int) \<times> world"
  r_upsert :: "obj \<Rightarrow> obj \<Rightarrow> world \<Rightarrow> (repo_error + obj option) \<times> world"
  r_distinct :: "string \<Rightarrow> obj \<Rightarrow> world \<Rightarrow> (repo_error + jsval list) \<times> world"
  r_select :: "obj \<Rightarrow> string list \<Rightarrow> world \<Rightarrow> (repo_error + obj list) \<times> world"
  r_softDelete :: "(row_id \<Rightarrow> world \<Rightarrow> (repo_error + bool) \<times> world) option"
  r_softDeleteMany :: "(obj \<Rightarrow> world \<Rightarrow> (repo_error + int) \<times> world) option"
  r_restore :: "(row_id \<Rightarrow> world \<Rightarrow> (repo_error + obj option) \<times> world) option"
  r_restoreMany :: "(obj \<Rightarrow> world \<Rightarrow> (repo_error + int) \<times> world) option"
  r_findAllWithDeleted :: "(obj \<Rightarrow> world \<Rightarrow> (repo_error + obj list) \<times> world) option"
  r_findDeleted :: "(obj \<Rightarrow> world \<Rightarrow> (repo_error + obj list) \<times> world) option"

definition pg_createRepository :: "kx_driver \<Rightarrow> PostgresEntityConfig \<Rightarrow> Repository" where
  "pg_createRepository kx cfg =
     \<lparr>r_create = pg_create kx cfg,
      r_findById = pg_findById kx cfg,
      r_findAll = pg_findAll kx cfg,
      r_findOne = pg_findOne kx cfg,
      r_findPage = pg_findPage kx cfg,
      r_updateById = pg_updateById kx cfg,
      r_deleteById = pg_deleteById kx cfg,
      r_count = pg_count kx cfg,
      r_exists = pg_exists kx cfg,
      r_insertMany = pg_insertMany kx cfg,
      r_updateMany = pg_updateMany kx cfg,
      r_deleteMany = pg_deleteMany kx cfg,
      r_upsert = pg_upsert kx cfg,
      r_distinct = pg_distinct kx cfg,
      r_select = pg_select kx cfg,
      r_softDelete = (if pg_softDeleteEnabled cfg then Some (pg_softDelete kx cfg) else None),
      r_softDeleteMany =
        (if pg_softDeleteEnabled cfg then Some (pg_softDeleteMany kx cfg) else None),
      r_restore = (if pg_softDeleteEnabled cfg then Some (pg_restore kx cfg) else None),
      r_restoreMany = (if pg_softDeleteEnabled cfg then Some (pg_restoreMany kx cfg) else None),
      r_findAllWithDeleted =
        (if pg_softDeleteEnabled cfg then Some (pg_findAllWithDeleted kx cfg) else None),
      r_findDeleted = (if pg_softDeleteEnabled cfg then Some (pg_findDeleted kx cfg) else None)\<rparr>"

subsection \<open>Document adapter\<close>

text \<open>
  The options of a document repository.  The adapter reads the soft-delete and timestamp
  options; it has no default filter, no column whitelist and runs no hook.  The
  Mongoose model is the driver handle; \<open>session\<close> tells whether the repository is bound
  to a client session.
\<close>

record MongoRepositoryOptions =
  opts_softDelete :: "bool option"
  opts_softDeleteField :: "string option"
  opts_timestamps :: "bool option"
  opts_createdAtField :: "string option"
  opts_updatedAtField :: "string option"
  opts_hooks :: "RepositoryHooks option"

definition mg_softDeleteEnabled :: "MongoRepositoryOptions \<Rightarrow> bool" where
  "mg_softDeleteEnabled opts = (case opts_softDelete opts of None \<Rightarrow> False | Some b \<Rightarrow> b)"

definition mg_softDeleteField :: "MongoRepositoryOptions \<Rightarrow> string" where
  "mg_softDeleteField opts = (case opts_softDeleteField opts of None \<Rightarrow> ''deletedAt'' | Some s \<Rightarrow> s)"

definition mg_timestampsEnabled :: "MongoRepositoryOptions \<Rightarrow> bool" where
  "mg_timestampsEnabled opts = (case opts_timestamps opts of None \<Rightarrow> False | Some b \<Rightarrow> b)"

definition mg_createdAtField :: "MongoRepositoryOptions \<Rightarrow> string" where
  "mg_createdAtField opts = (case opts_createdAtField opts of None \<Rightarrow> ''createdAt'' | Some s \<Rightarrow> s)"

definition mg_updatedAtField :: "MongoRepositoryOptions \<Rightarrow> string" where
  "mg_updatedAtField opts = (case opts_updatedAtField opts of None \<Rightarrow> ''updatedAt'' | Some s \<Rightarrow> s)"

definition mg_notDeletedFilter :: "MongoRepositoryOptions \<Rightarrow> obj" where
  "mg_notDeletedFilter opts =
     (if mg_softDeleteEnabled opts
      then [(mg_softDeleteField opts, VObj [(''$eq'', VNull)])]
      else [])"

definition mg_addCreatedAt :: "MongoRepositoryOptions \<Rightarrow> nat \<Rightarrow> obj \<Rightarrow> obj" where
  "mg_addCreatedAt opts now data =
     (if mg_timestampsEnabled opts then spread data [(mg_createdAtField opts, VDate now)] else data)"

definition mg_addUpdatedAt :: "MongoRepositoryOptions \<Rightarrow> nat \<Rightarrow> obj \<Rightarrow> obj" where
  "mg_addUpdatedAt opts now data =
     (if mg_timestampsEnabled opts then spread data [(mg_updatedAtField opts, VDate now)] else data)"

definition mg_create :: "model_driver \<Rightarrow> bool \<Rightarrow> MongoRepositoryOptions \<Rightarrow> obj \<Rightarrow> world
    \<Rightarrow> (repo_error + obj option) \<times> world" where
  "mg_create model session opts data w =
     (let timestampedData = mg_addCreatedAt opts (clock w) data
      in case model_run model session (ModelCreate timestampedData) w of
           (resp, w') \<Rightarrow> (Inr (first_row resp), w'))"

definition mg_findById :: "model_driver \<Rightarrow> bool \<Rightarrow> MongoRepositoryOptions \<Rightarrow> row_id \<Rightarrow> world
    \<Rightarrow> (repo_error + obj option) \<times> world" where
  "mg_findById model session opts ident w =
     (let mergedFilter = spread [(''_id'', id_val ident)] (mg_notDeletedFilter opts)
      in case model_run model session (ModelFindOne mergedFilter None) w of
           (resp, w') \<Rightarrow> (Inr (first_row resp), w'))"

definition mg_findAll :: "model_driver \<Rightarrow> bool \<Rightarrow> MongoRepositoryOptions \<Rightarrow> obj \<Rightarrow> world
    \<Rightarrow> (repo_error + obj list) \<times> world" where
  "mg_findAll model session opts filter_arg w =
     (let mergedFilter = spread filter_arg (mg_notDeletedFilter opts)
      in case model_run model session (ModelFind mergedFilter None None None) w of
           (resp, w') \<Rightarrow> (Inr (rows_of resp), w'))"

definition mg_findOne :: "model_driver \<Rightarrow> bool \<Rightarrow> MongoRepositoryOptions \<Rightarrow> obj \<Rightarrow> world
    \<Rightarrow> (repo_error + obj option) \<times> world" where
  "mg_findOne model session opts filter_arg w =
     (let mergedFilter = spread filter_arg (mg_notDeletedFilter opts)
      in case model_run model session (ModelFindOne mergedFilter None) w of
           (resp, w') \<Rightarrow> (Inr (first_row resp), w'))"

definition sort_given :: "sort_spec option \<Rightarrow> sort_spec option" where
  "sort_given sortOpt =
     (case sortOpt of
        Some (SortString s) \<Rightarrow> if s = [] then None else Some (SortString s)
      | other \<Rightarrow> other)"

definition mg_findPage :: "model_driver \<Rightarrow> bool \<Rightarrow> MongoRepositoryOptions \<Rightarrow> PageOptions \<Rightarrow> world
    \<Rightarrow> (repo_error + obj PageResult) \<times> world" where
  "mg_findPage model session opts options w =
     (let filter_arg = (case po_filter options of None \<Rightarrow> [] | Some f \<Rightarrow> f);
          page = (case po_page options of None \<Rightarrow> 1 | Some p \<Rightarrow> p);
          limit = (case po_limit options of None \<Rightarrow> 10 | Some l \<Rightarrow> l);
          mergedFilter = spread filter_arg (mg_notDeletedFilter opts);
          skip = max 0 ((page - 1) * limit)
      in case model_run model session
                (ModelFind mergedFilter (Some (skip, limit)) (sort_given (po_sort options)) None) w of
           (resp, w1) \<Rightarrow>
             (case model_run model session (ModelCountDocuments mergedFilter) w1 of
                (total_resp, w2) \<Rightarrow>
                  (Inr (shapePage (rows_of resp) page limit (number_of total_resp)), w2)))"

definition mg_updateById :: "model_driver \<Rightarrow> bool \<Rightarrow> MongoRepositoryOptions \<Rightarrow> row_id \<Rightarrow> obj
    \<Rightarrow> world \<Rightarrow> (repo_error + obj option) \<times> world" where
  "mg_updateById model session opts ident update w =
     (let mergedFilter = spread [(''_id'', id_val ident)] (mg_notDeletedFilter opts);
          timestampedUpdate = mg_addUpdatedAt opts (clock w) update
      in case model_run model session
                (ModelFindOneAndUpdate mergedFilter timestampedUpdate False) w of
           (resp, w') \<Rightarrow> (Inr (first_row resp), w'))"

definition mg_deleteById :: "model_driver \<Rightarrow> bool \<Rightarrow> MongoRepositoryOptions \<Rightarrow> row_id \<Rightarrow> world
    \<Rightarrow> (repo_error + bool) \<times> world" where
  "mg_deleteById model session opts ident w =
     (if mg_softDeleteEnabled opts
      then (let mergedFilter = spread [(''_id'', id_val ident)] (mg_notDeletedFilter opts)
            in case model_run model session
                      (ModelUpdateOne mergedFilter [(mg_softDeleteField opts, VDate (clock w))]) w of
                 (result, w') \<Rightarrow> (Inr (number_of result > 0), w'))
      else (case model_run model session (ModelFindByIdAndDelete ident) w of
              (res, w') \<Rightarrow> (Inr (first_row res \<noteq> None), w')))"

definition mg_count :: "model_driver \<Rightarrow> bool \<Rightarrow> MongoRepositoryOptions \<Rightarrow> obj \<Rightarrow> world
    \<Rightarrow> (repo_error + int) \<times> world" where
  "mg_count model session opts filter_arg w =
     (let mergedFilter = spread filter_arg (mg_notDeletedFilter opts)
      in case model_run model session (ModelCountDocuments mergedFilter) w of
           (resp, w') \<Rightarrow> (Inr (number_of resp), w'))"

definition mg_exists :: "model_driver \<Rightarrow> bool \<Rightarrow> MongoRepositoryOptions \<Rightarrow> obj \<Rightarrow> world
    \<Rightarrow> (repo_error + bool) \<times> world" where
  "mg_exists model session opts filter_arg w =
     (let mergedFilter = spread filter_arg (mg_notDeletedFilter opts)
      in if session
         then (case model_run model session (ModelFindOne mergedFilter (Some ''_id'')) w of
                 (doc, w') \<Rightarrow> (Inr (first_row doc \<noteq> None), w'))
         else (case model_run model session (ModelExists mergedFilter) w of
                 (res, w') \<Rightarrow> (Inr (first_row res \<noteq> None), w')))"

definition mg_insertMany :: "model_driver \<Rightarrow> bool \<Rightarrow> MongoRepositoryOptions \<Rightarrow> obj list \<Rightarrow> world
    \<Rightarrow> (repo_error + obj list) \<times> world" where
  "mg_insertMany model session opts data w =
     (if length data = 0 then (Inr [], w)
      else (let timestampedData = map (mg_addCreatedAt opts (clock w)) data
            in case model_run model session (ModelInsertMany timestampedData) w of
                 (docs, w') \<Rightarrow> (Inr (rows_of docs), w')))"

definition mg_updateMany :: "model_driver \<Rightarrow> bool \<Rightarrow> MongoRepositoryOptions \<Rightarrow> obj \<Rightarrow> obj
    \<Rightarrow> world \<Rightarrow> (repo_error + int) \<times> world" where
  "mg_updateMany model session opts filter_arg update w =
     (let mergedFilter = spread filter_arg (mg_notDeletedFilter opts);
          timestampedUpdate = mg_addUpdatedAt opts (clock w) update
      in case model_run model session (ModelUpdateMany mergedFilter timestampedUpdate) w of
           (result, w') \<Rightarrow> (Inr (number_of result), w'))"

definition mg_deleteMany :: "model_driver \<Rightarrow> bool \<Rightarrow> MongoRepositoryOptions \<Rightarrow> obj \<Rightarrow> world
    \<Rightarrow> (repo_error + int) \<times> world" where
  "mg_deleteMany model session opts filter_arg w =
     (let mergedFilter = spread filter_arg (mg_notDeletedFilter opts)
      in if mg_softDeleteEnabled opts
         then (case model_run model session
                      (ModelUpdateMany mergedFilter [(mg_softDeleteField opts, VDate (clock w))]) w of
                 (result, w') \<Rightarrow> (Inr (number_of result), w'))
         else (case model_run model session (ModelDeleteMany mergedFilter) w of
                 (result, w') \<Rightarrow> (Inr (number_of result), w')))"

definition mg_upsert :: "model_driver \<Rightarrow> bool \<Rightarrow> MongoRepositoryOptions \<Rightarrow> obj \<Rightarrow> obj
    \<Rightarrow> world \<Rightarrow> (repo_error + obj option) \<times> world" where
  "mg_upsert model session opts filter_arg data w =
     (let mergedFilter = spread filter_arg (mg_notDeletedFilter opts);
          timestampedData =
            (if mg_timestampsEnabled opts
             then spread data [(mg_updatedAtField opts, VDate (clock w))]
             else data);
          update =
            spread [(''$set'', VObj timestampedData)]
              (if mg_timestampsEnabled opts
               then [(''$setOnInsert'', VObj [(mg_createdAtField opts, VDate (clock w))])]
               else [])
      in case model_run model session (ModelFindOneAndUpdate mergedFilter update True) w of
           (resp, w') \<Rightarrow> (Inr (first_row resp), w'))"

definition mg_distinct :: "model_driver \<Rightarrow> bool \<Rightarrow> MongoRepositoryOptions \<Rightarrow> string \<Rightarrow> obj
    \<Rightarrow> world \<Rightarrow> (repo_error + jsval list) \<times> world" where
  "mg_distinct model session opts field filter_arg w =
     (let mergedFilter = spread filter_arg (mg_notDeletedFilter opts)
      in case model_run model session (ModelDistinct field mergedFilter) w of
           (resp, w') \<Rightarrow> (Inr (map (\<lambda>row. get_prop row field) (rows_of resp)), w'))"

definition mg_select :: "model_driver \<Rightarrow> bool \<Rightarrow> MongoRepositoryOptions \<Rightarrow> obj \<Rightarrow> string list
    \<Rightarrow> world \<Rightarrow> (repo_error + obj list) \<times> world" where
  "mg_select model session opts filter_arg field_names w =
     (let mergedFilter = spread filter_arg (mg_notDeletedFilter opts);
          projection = foldl (\<lambda>acc field. spread acc [(field, VNum 1)]) [] field_names
      in case model_run model session (ModelFind mergedFilter None None (Some projection)) w of
           (resp, w') \<Rightarrow> (Inr (rows_of resp), w'))"

definition mg_softDelete :: "model_driver \<Rightarrow> bool \<Rightarrow> MongoRepositoryOptions \<Rightarrow> row_id \<Rightarrow> world
    \<Rightarrow> (repo_error + bool) \<times> world" where
  "mg_softDelete model session opts ident w =
     (let mergedFilter = spread [(''_id'', id_val ident)] (mg_notDeletedFilter opts)
      in case model_run model session
                (ModelUpdateOne mergedFilter [(mg_softDeleteField opts, VDate (clock w))]) w of
           (result, w') \<Rightarrow> (Inr (number_of result > 0), w'))"

definition mg_softDeleteMany :: "model_driver \<Rightarrow> bool \<Rightarrow> MongoRepositoryOptions \<Rightarrow> obj \<Rightarrow> world
    \<Rightarrow> (repo_error + int) \<times> world" where
  "mg_softDeleteMany model session opts filter_arg w =
     (let mergedFilter = spread filter_arg (mg_notDeletedFilter opts)
      in case model_run model session
                (ModelUpdateMany mergedFilter [(mg_softDeleteField opts, VDate (clock w))]) w of
           (result, w') \<Rightarrow> (Inr (number_of result), w'))"

definition mg_restore :: "model_driver \<Rightarrow> bool \<Rightarrow> MongoRepositoryOptions \<Rightarrow> row_id \<Rightarrow> world
    \<Rightarrow> (repo_error + obj option) \<times> world" where
  "mg_restore model session opts ident w =
     (let deletedFilter =
            spread [(''_id'', id_val ident)] [(mg_softDeleteField opts, VObj [(''$ne'', VNull)])]
      in case model_run model session
                (ModelFindOneAndUpdate deletedFilter
                   [(''$unset'', VObj [(mg_softDeleteField opts, VNum 1)])] False) w of
           (resp, w') \<Rightarrow> (Inr (first_row resp), w'))"

definition mg_restoreMany :: "model_driver \<Rightarrow> bool \<Rightarrow> MongoRepositoryOptions \<Rightarrow> obj \<Rightarrow> world
    \<Rightarrow> (repo_error + int) \<times> world" where
  "mg_restoreMany model session opts filter_arg w =
     (let deletedFilter = spread filter_arg [(mg_softDeleteField opts, VObj [(''$ne'', VNull)])]
      in case model_run model session
                (ModelUpdateMany deletedFilter
                   [(''$unset'', VObj [(mg_softDeleteField opts, VNum 1)])]) w of
           (result, w') \<Rightarrow> (Inr (number_of result), w'))"

definition mg_findAllWithDeleted :: "model_driver \<Rightarrow> bool \<Rightarrow> MongoRepositoryOptions \<Rightarrow> obj
    \<Rightarrow> world \<Rightarrow> (repo_error + obj list) \<times> world" where
  "mg_findAllWithDeleted model session opts filter_arg w =
     (case model_run model session (ModelFind filter_arg None None None) w of
        (resp, w') \<Rightarrow> (Inr (rows_of resp), w'))"

definition mg_findDeleted :: "model_driver \<Rightarrow> bool \<Rightarrow> MongoRepositoryOptions \<Rightarrow> obj \<Rightarrow> world
    \<Rightarrow> (repo_error + obj list) \<times> world" where
  "mg_findDeleted model session opts filter_arg w =
     (let deletedFilter = spread filter_arg [(mg_softDeleteField opts, VObj [(''$ne'', VNull)])]
      in case model_run model session (ModelFind deletedFilter None None None) w of
           (resp, w') \<Rightarrow> (Inr (rows_of resp), w'))"

definition mg_createRepository ::
  "model_driver \<Rightarrow> bool \<Rightarrow> MongoRepositoryOptions \<Rightarrow> Repository" where
  "mg_createRepository model session opts =
     \<lparr>r_create = mg_create model session opts,
      r_findById = mg_findById model session opts,
      r_findAll = mg_findAll model session opts,
      r_findOne = mg_findOne model session opts,
      r_findPage = mg_findPage model session opts,
      r_updateById = mg_updateById model session opts,
      r_deleteById = mg_deleteById model session opts,
      r_count = mg_count model session opts,
      r_exists = mg_exists model session opts,
      r_insertMany = mg_insertMany model session opts,
      r_updateMany = mg_updateMany model session opts,
      r_deleteMany = mg_deleteMany model session opts,
      r_upsert = mg_upsert model session opts,
      r_distinct = mg_distinct model session opts,
      r_select = mg_select model session opts,
      r_softDelete =
        (if mg_softDeleteEnabled opts then Some (mg_softDelete model session opts) else None),
      r_softDeleteMany =
        (if mg_softDeleteEnabled opts then Some (mg_softDeleteMany model session opts) else None),
      r_restore =
        (if mg_softDeleteEnabled opts then Some (mg_restore model session opts) else None),
      r_restoreMany =
        (if mg_softDeleteEnabled opts then Some (mg_restoreMany model session opts) else None),
      r_findAllWithDeleted =
        (if mg_softDeleteEnabled opts
         then Some (mg_findAllWithDeleted model session opts) else None),
      r_findDeleted =
        (if mg_softDeleteEnabled opts then Some (mg_findDeleted model session opts) else None)\<rparr>"

text \<open>The calls that reached the driver, out of an event log: hook calls are left out.\<close>

fun driver_events :: "event list \<Rightarrow> event list" where
  "driver_events [] = []"
| "driver_events (Hook h # es) = driver_events es"
| "driver_events (e # es) = e # driver_events es"

subsection \<open>A relational driver\<close>

text \<open>
  The statements on a table of rows, as the relational driver is taken to run them.
  A column that a row does not list is \<open>NULL\<close>.  Equality and the two null tests are
  fixed; what the comparison, \<open>IN\<close> and \<open>ILIKE\<close> clauses decide on a column value,
  what the database stores for an inserted payload (generated keys, column defaults) and
  how it orders rows are parameters.
\<close>

record sql_semantics =
  holds_on :: "clause \<Rightarrow> jsval \<Rightarrow> bool"
  on_insert :: "obj \<Rightarrow> obj"
  ordered :: "(string \<times> direction) list \<Rightarrow> obj list \<Rightarrow> obj list"

definition column :: "obj \<Rightarrow> string \<Rightarrow> jsval" where
  "column row k = (case map_of row k of None \<Rightarrow> VNull | Some v \<Rightarrow> v)"

fun clause_column :: "clause \<Rightarrow> string" where
  "clause_column (Where k _) = k"
| "clause_column (WhereNot k _) = k"
| "clause_column (WhereOp k _ _) = k"
| "clause_column (WhereIn k _) = k"
| "clause_column (WhereNotIn k _) = k"
| "clause_column (WhereILike k _) = k"
| "clause_column (WhereNull k) = k"
| "clause_column (WhereNotNull k) = k"

fun clause_holds :: "sql_semantics \<Rightarrow> obj \<Rightarrow> clause \<Rightarrow> bool" where
  "clause_holds sem row (Where k v) = (column row k = v)"
| "clause_holds sem row (WhereNull k) = (column row k = VNull)"
| "clause_holds sem row (WhereNotNull k) = (column row k \<noteq> VNull)"
| "clause_holds sem row c = holds_on sem c (column row (clause_column c))"

definition matches :: "sql_semantics \<Rightarrow> clause list \<Rightarrow> obj \<Rightarrow> bool" where
  "matches sem cs row = list_all (clause_holds sem row) cs"

definition project :: "string list \<Rightarrow> obj \<Rightarrow> obj" where
  "project cols row = (if ''*'' \<in> set cols then row else filter (\<lambda>(k, v). k \<in> set cols) row)"

definition paginate :: "(int \<times> int) option \<Rightarrow> obj list \<Rightarrow> obj list" where
  "paginate window rows =
     (case window of None \<Rightarrow> rows | Some (limit, offset) \<Rightarrow> take (nat limit) (drop (nat offset) rows))"

fun sql_driver :: "sql_semantics \<Rightarrow> kx_driver" where
  "sql_driver sem (Select cols cs order window) st =
     (Rows (map (project cols)
        (paginate window
           (if order = [] then filter (matches sem cs) st
            else ordered sem order (filter (matches sem cs) st)))), st)"
| "sql_driver sem (SelectFirst cols cs) st =
     (Rows (map (project cols) (take 1 (filter (matches sem cs) st))), st)"
| "sql_driver sem (CountAll cs) st = (Affected (int (length (filter (matches sem cs) st))), st)"
| "sql_driver sem (SelectDistinct field cs) st =
     (Rows (remdups (map (\<lambda>row. [(field, column row field)]) (filter (matches sem cs) st))), st)"
| "sql_driver sem (Insert payloads) st =
     (Rows (map (on_insert sem) payloads), st @ map (on_insert sem) payloads)"
| "sql_driver sem (Update cs payload returning) st =
     (if returning then Rows (map (\<lambda>row. spread row payload) (filter (matches sem cs) st))
      else Affected (int (length (filter (matches sem cs) st))),
      map (\<lambda>row. if matches sem cs row then spread row payload else row) st)"
| "sql_driver sem (Delete cs) st =
     (Affected (int (length (filter (matches sem cs) st))),
      filter (\<lambda>row. \<not> matches sem cs row) st)"

subsection \<open>A document driver\<close>

text \<open>
  The model calls on a collection of documents, as the document driver is taken to run
  them.  A condition \<open>{$eq: null}\<close> holds of a field that is missing or null,
  \<open>{$ne: null}\<close> of any other; a string, number or boolean is an equality.  What any
  other condition decides, what is stored for a created payload (\<open>_id\<close>, schema
  defaults) and how documents are sorted are parameters.  An update document sets its
  fields; \<open>$set\<close>, \<open>$unset\<close> and \<open>$setOnInsert\<close> with an object value are operators.
\<close>

record mongo_semantics =
  cond_on :: "string \<Rightarrow> jsval \<Rightarrow> jsval option \<Rightarrow> bool"
  on_create :: "obj \<Rightarrow> obj"
  sorted_by :: "sort_spec \<Rightarrow> obj list \<Rightarrow> obj list"

definition nullish :: "jsval option \<Rightarrow> bool" where
  "nullish v = (v = None \<or> v = Some VNull)"

fun scalar :: "jsval \<Rightarrow> bool" where
  "scalar (VStr _) = True"
| "scalar (VNum _) = True"
| "scalar (VBool _) = True"
| "scalar _ = False"

definition cond_holds :: "mongo_semantics \<Rightarrow> obj \<Rightarrow> string \<times> jsval \<Rightarrow> bool" where
  "cond_holds sem doc entry =
     (case entry of
        (k, v) \<Rightarrow>
          if v = VObj [(''$eq'', VNull)] then nullish (map_of doc k)
          else if v = VObj [(''$ne'', VNull)] then \<not> nullish (map_of doc k)
          else if scalar v then map_of doc k = Some v
          else cond_on sem k v (map_of doc k))"

definition doc_matches :: "mongo_semantics \<Rightarrow> obj \<Rightarrow> obj \<Rightarrow> bool" where
  "doc_matches sem f doc = list_all (cond_holds sem doc) f"

definition unset_keys :: "obj \<Rightarrow> obj \<Rightarrow> obj" where
  "unset_keys u doc = filter (\<lambda>(k, v). k \<notin> fst ` set u) doc"

fun apply_update :: "obj \<Rightarrow> obj \<Rightarrow> obj" where
  "apply_update [] doc = doc"
| "apply_update ((k, v) # rest) doc =
     apply_update rest
       (case v of
          VObj body \<Rightarrow>
            (if k = ''$set'' then spread doc body
             else if k = ''$unset'' then unset_keys body doc
             else if k = ''$setOnInsert'' then doc
             else set_key k v doc)
        | _ \<Rightarrow> set_key k v doc)"

fun update_first :: "('a \<Rightarrow> bool) \<Rightarrow> ('a \<Rightarrow> 'a) \<Rightarrow> 'a list \<Rightarrow> 'a list" where
  "update_first P f [] = []"
| "update_first P f (x # xs) = (if P x then f x # xs else x # update_first P f xs)"

fun remove_first :: "('a \<Rightarrow> bool) \<Rightarrow> 'a list \<Rightarrow> 'a list" where
  "remove_first P [] = []"
| "remove_first P (x # xs) = (if P x then xs else x # remove_first P xs)"

definition inserted_by :: "obj \<Rightarrow> obj \<Rightarrow> obj" where
  "inserted_by f upd =
     (let seed = filter (\<lambda>(k, v). scalar v) f;
          sets = (case map_of upd ''$set'' of Some (VObj body) \<Rightarrow> body | _ \<Rightarrow> []);
          once = (case map_of upd ''$setOnInsert'' of Some (VObj body) \<Rightarrow> body | _ \<Rightarrow> [])
      in spread (spread seed sets) once)"

definition skip_limit :: "(int \<times> int) option \<Rightarrow> obj list \<Rightarrow> obj list" where
  "skip_limit window docs =
     (case window of
        None \<Rightarrow> docs
      | Some (skip, limit) \<Rightarrow>
          if limit = 0 then drop (nat skip) docs else take (nat \<bar>limit\<bar>) (drop (nat skip) docs))"

definition projected :: "obj option \<Rightarrow> obj \<Rightarrow> obj" where
  "projected projection doc =
     (case projection of
        None \<Rightarrow> doc
      | Some p \<Rightarrow> filter (\<lambda>(k, v). k = ''_id'' \<or> k \<in> fst ` set p) doc)"

fun mongo_driver :: "mongo_semantics \<Rightarrow> model_driver" where
  "mongo_driver sem (ModelCreate payload) st = (Rows [on_create sem payload], st @ [on_create sem payload])"
| "mongo_driver sem (ModelInsertMany payloads) st =
     (Rows (map (on_create sem) payloads), st @ map (on_create sem) payloads)"
| "mongo_driver sem (ModelFindOne f sel) st =
     (Rows (map (projected (map_option (\<lambda>k. [(k, VNum 1)]) sel))
        (take 1 (filter (doc_matches sem f) st))), st)"
| "mongo_driver sem (ModelFind f window sortOpt projection) st =
     (Rows (map (projected projection)
        (skip_limit window
           (case sortOpt of
              None \<Rightarrow> filter (doc_matches sem f) st
            | Some s \<Rightarrow> sorted_by sem s (filter (doc_matches sem f) st)))), st)"
| "mongo_driver sem (ModelCountDocuments f) st =
     (Affected (int (length (filter (doc_matches sem f) st))), st)"
| "mongo_driver sem (ModelExists f) st =
     (Rows (map (projected (Some [])) (take 1 (filter (doc_matches sem f) st))), st)"
| "mongo_driver sem (ModelFindOneAndUpdate f upd upsert) st =
     (case filter (doc_matches sem f) st of
        doc # _ \<Rightarrow> (Rows [apply_update upd doc], update_first (doc_matches sem f) (apply_update upd) st)
      | [] \<Rightarrow>
          if upsert
          then (Rows [on_create sem (inserted_by f upd)], st @ [on_create sem (inserted_by f upd)])
          else (Rows [], st))"
| "mongo_driver sem (ModelUpdateOne f upd) st =
     (Affected (int (length (filter (\<lambda>doc. apply_update upd doc \<noteq> doc)
        (take 1 (filter (doc_matches sem f) st))))),
      update_first (doc_matches sem f) (apply_update upd) st)"
| "mongo_driver sem (ModelUpdateMany f upd) st =
     (Affected (int (length (filter (\<lambda>doc. apply_update upd doc \<noteq> doc)
        (filter (doc_matches sem f) st)))),
      map (\<lambda>doc. if doc_matches sem f doc then apply_update upd doc else doc) st)"
| "mongo_driver sem (ModelFindByIdAndDelete ident) st =
     (Rows (take 1 (filter (\<lambda>doc. map_of doc ''_id'' = Some (id_val ident)) st)),
      remove_first (\<lambda>doc. map_of doc ''_id'' = Some (id_val ident)) st)"
| "mongo_driver sem (ModelDeleteMany f) st =
     (Affected (int (length (filter (doc_matches sem f) st))),
      filter (\<lambda>doc. \<not> doc_matches sem f doc) st)"
| "mongo_driver sem (ModelDistinct field f) st =
     (Rows (remdups (map (\<lambda>doc. [(field, get_prop doc field)]) (filter (doc_matches sem f) st))), st)"

text \<open>Every document of a collection has an \<open>_id\<close>, not null and unlike any other.\<close>

definition valid_collection :: "obj list \<Rightarrow> bool" where
  "valid_collection st =
     (distinct (map (\<lambda>doc. map_of doc ''_id'') st)
      \<and> list_all (\<lambda>doc. \<not> nullish (map_of doc ''_id'')) st)"

subsection \<open>Stores without a record\<close>

text \<open>
  The table without the rows of one id, and the collection without the documents of one
  id.  A record is invisible to a read when the read answers on the stored records what
  it answers on these.
\<close>

definition pg_without :: "PostgresEntityConfig \<Rightarrow> row_id \<Rightarrow> world \<Rightarrow> world" where
  "pg_without cfg ident w =
     w\<lparr>store := filter (\<lambda>row. column row (pg_pk cfg) \<noteq> id_val ident) (store w)\<rparr>"

definition mg_without :: "row_id \<Rightarrow> world \<Rightarrow> world" where
  "mg_without ident w =
     w\<lparr>store := filter (\<lambda>doc. map_of doc ''_id'' \<noteq> Some (id_val ident)) (store w)\<rparr>"

subsection \<open>Example configurations\<close>

text \<open>
  Concrete configurations, hooks, drivers and worlds used to instantiate the theorems.
  The two plain drivers store a payload as it is given, keep the stored order and let
  none of their parametric conditions hold.
\<close>

definition idle_kx :: kx_driver where
  "idle_kx = (\<lambda>s st. (Rows [], st))"

definition idle_model :: model_driver where
  "idle_model = (\<lambda>c st. (Rows [], st))"

definition empty_world :: world where
  "empty_world = \<lparr>store = [], clock = 42, events = []\<rparr>"

definition users_cfg :: PostgresEntityConfig where
  "users_cfg =
     \<lparr>cfg_table = ''users'', cfg_primaryKey = None, cfg_columns = Some [''id'', ''name''],
      cfg_defaultFilter = None, cfg_softDelete = Some True, cfg_softDeleteField = None,
      cfg_timestamps = Some True, cfg_createdAtField = None, cfg_updatedAtField = None,
      cfg_hooks = None\<rparr>"

definition users_opts :: MongoRepositoryOptions where
  "users_opts =
     \<lparr>opts_softDelete = Some True, opts_softDeleteField = None, opts_timestamps = Some True,
      opts_createdAtField = None, opts_updatedAtField = None, opts_hooks = None\<rparr>"

definition stamp_hook :: "HookContext \<Rightarrow> obj option" where
  "stamp_hook ctx = Some (spread (hc_data ctx) [(''name'', VStr ''ANN''), (''created_at'', VStr ''never'')])"

definition hooked_cfg :: PostgresEntityConfig where
  "hooked_cfg =
     users_cfg\<lparr>cfg_hooks := Some \<lparr>beforeCreate = Some stamp_hook, afterCreate = True,
                                   beforeUpdate = None, afterUpdate = False,
                                   beforeDelete = False, afterDelete = False\<rparr>\<rparr>"

definition only_deleted :: obj where
  "only_deleted = [(''deletedAt'', VObj [(''$ne'', VNull)])]"

definition plain_sql :: sql_semantics where
  "plain_sql = \<lparr>holds_on = (\<lambda>c v. False), on_insert = (\<lambda>payload. payload),
                ordered = (\<lambda>order rows. rows)\<rparr>"

definition open_cfg :: PostgresEntityConfig where
  "open_cfg = users_cfg\<lparr>cfg_columns := None, cfg_timestamps := None\<rparr>"

definition hard_cfg :: PostgresEntityConfig where
  "hard_cfg = users_cfg\<lparr>cfg_softDelete := None, cfg_timestamps := None\<rparr>"

definition self_filtered_cfg :: PostgresEntityConfig where
  "self_filtered_cfg =
     open_cfg\<lparr>cfg_defaultFilter := Some [(''deleted_at'', VObj [(''isNull'', VBool True)])]\<rparr>"

definition ann :: obj where
  "ann = [(''id'', VNum 1), (''name'', VStr ''Ann'')]"

definition deleted_ann_world :: world where
  "deleted_ann_world =
     \<lparr>store = [[(''id'', VNum 1), (''name'', VStr ''Ann''), (''deleted_at'', VDate 7)]],
      clock = 42, events = []\<rparr>"

definition ann_created :: world where
  "ann_created = snd (pg_create (sql_driver plain_sql) open_cfg ann empty_world)"

definition ann_deleted :: world where
  "ann_deleted = snd (pg_softDelete (sql_driver plain_sql) open_cfg (IdNumber 1) ann_created)"

definition ann_restored :: world where
  "ann_restored = snd (pg_restore (sql_driver plain_sql) open_cfg (IdNumber 1) ann_deleted)"

definition sf_created :: world where
  "sf_created = snd (pg_create (sql_driver plain_sql) self_filtered_cfg ann empty_world)"

definition sf_deleted :: world where
  "sf_deleted = snd (pg_softDelete (sql_driver plain_sql) self_filtered_cfg (IdNumber 1) sf_created)"

definition plain_mongo :: mongo_semantics where
  "plain_mongo = \<lparr>cond_on = (\<lambda>k v field. False), on_create = (\<lambda>payload. payload),
                  sorted_by = (\<lambda>s docs. docs)\<rparr>"

definition ann_doc :: obj where
  "ann_doc = [(''_id'', VStr ''a1''), (''name'', VStr ''Ann'')]"

definition soft_opts :: MongoRepositoryOptions where
  "soft_opts = users_opts\<lparr>opts_timestamps := None\<rparr>"

definition hard_opts :: MongoRepositoryOptions where
  "hard_opts = users_opts\<lparr>opts_softDelete := None, opts_timestamps := None\<rparr>"

definition hooked_opts :: MongoRepositoryOptions where
  "hooked_opts =
     users_opts\<lparr>opts_hooks := Some \<lparr>beforeCreate = Some stamp_hook, afterCreate = True,
                                     beforeUpdate = None, afterUpdate = False,
                                     beforeDelete = False, afterDelete = False\<rparr>\<rparr>"

definition doc_created :: world where
  "doc_created = snd (mg_create (mongo_driver plain_mongo) False soft_opts ann_doc empty_world)"

definition doc_deleted :: world where
  "doc_deleted = snd (mg_softDelete (mongo_driver plain_mongo) False soft_opts (IdString ''a1'') doc_created)"

definition doc_restored :: world where
  "doc_restored = snd (mg_restore (mongo_driver plain_mongo) False soft_opts (IdString ''a1'') doc_deleted)"

section \<open>Properties\<close>

subsection \<open>Pagination\<close>

text \<open>
  C4. For every data slice, page, limit and total, the page-result shaper returns the
  data, page, limit and total it was given, unmodified, together with
  \<open>pages = max(1, ceil(total / limit))\<close>, where a limit of \<open>0\<close> is replaced by the
  divisor \<open>1\<close>; so \<open>pages \<ge> 1\<close> always (also when \<open>total = 0\<close>), and
  \<open>limit = 0\<close> yields a result (\<open>max(1, total)\<close> pages) instead of a division by zero.
\<close>

theorem shapePage_envelope:
  "pr_data (shapePage data page limit total_n) = data
   \<and> pr_page (shapePage data page limit total_n) = page
   \<and> pr_limit (shapePage data page limit total_n) = limit
   \<and> pr_total (shapePage data page limit total_n) = total_n
   \<and> pr_pages (shapePage data page limit total_n)
       = max 1 \<lceil>real_of_int total_n / real_of_int (if limit = 0 then 1 else limit)\<rceil>
   \<and> 1 \<le> pr_pages (shapePage data page limit total_n)
   \<and> pr_pages (shapePage data page limit 0) = 1
   \<and> pr_pages (shapePage data page 0 total_n) = max 1 total_n"
  by (simp add: shapePage_def num_or_def Let_def)

theorem shapePage_envelope_witness:
  "pr_pages (shapePage [VNum 1, VNum 2] 2 10 25) = 3
   \<and> pr_page (shapePage [VNum 1, VNum 2] 2 10 25) = 2
   \<and> pr_limit (shapePage [VNum 1, VNum 2] 2 10 25) = 10"
  using shapePage_envelope [of "[VNum 1, VNum 2]" 2 10 25]
  by simp

subsection \<open>Transaction coordinator\<close>

lemma callbacks_run_append: "callbacks_run (xs @ ys) = callbacks_run xs @ callbacks_run ys"
  by (induction xs rule: callbacks_run.induct) simp_all

lemma sleeps_append: "sleeps (xs @ ys) = sleeps xs @ sleeps ys"
  by (induction xs rule: sleeps.induct) simp_all

lemma retryable_not_nullish: "isRetryableError e \<Longrightarrow> \<not> pg_nullish e \<and> e \<noteq> PgUndefined"
  by (cases e) simp_all

lemma transient_not_nullish: "isTransientError e \<Longrightarrow> \<not> mongo_nullish e"
  by (cases e) simp_all

lemma pg_attempts_failing:
  assumes tr: "\<And>i. \<exists>e. cb_outcome env i = Inl e \<and> isRetryableError e"
  shows "a \<le> N \<Longrightarrow>
    pg_attempts env isoLevel tmo (int N) a le
      = (concat (map (pg_failed_attempt isoLevel tmo (int N)) [a..<Suc N]),
         cb_outcome env N)"
proof (induction "N - a" arbitrary: a le)
  case 0
  then have "a = N" by simp
  obtain e where e: "cb_outcome env N = Inl e" "isRetryableError e" using tr by blast
  show ?case
    by (subst pg_attempts.simps)
       (simp add: \<open>a = N\<close> e retryable_not_nullish [OF e(2)] knex_transaction_def
          pg_failed_attempt_def)
next
  case (Suc k)
  then have lt: "a < N" and k: "k = N - Suc a" by simp_all
  obtain e where e: "cb_outcome env a = Inl e" "isRetryableError e" using tr by blast
  have ih: "pg_attempts env isoLevel tmo (int N) (Suc a) (Some e)
      = (concat (map (pg_failed_attempt isoLevel tmo (int N)) [Suc a..<Suc N]),
         cb_outcome env N)"
    using Suc.hyps(1) [OF k] lt by simp
  have upt: "concat (map (pg_failed_attempt isoLevel tmo (int N)) [a..<Suc N])
      = pg_failed_attempt isoLevel tmo (int N) a @ concat (map (pg_failed_attempt isoLevel tmo (int N)) [Suc a..<Suc N])"
    using lt by (simp add: upt_conv_Cons del: upt_Suc)
  show ?case
    by (subst pg_attempts.simps)
       (use lt in \<open>simp add: e retryable_not_nullish [OF e(2)] knex_transaction_def ih upt
          pg_failed_attempt_def del: upt_Suc\<close>)
qed

lemma mongo_attempts_failing:
  assumes tr: "\<And>i. \<exists>e. cb_outcome env i = Inl e \<and> isTransientError e"
  shows "a \<le> N \<Longrightarrow>
    mongo_attempts env tmo (int N) a le
      = (concat (map (mongo_failed_attempt tmo (int N)) [a..<Suc N]), cb_outcome env N)"
proof (induction "N - a" arbitrary: a le)
  case 0
  then have "a = N" by simp
  obtain e where e: "cb_outcome env N = Inl e" "isTransientError e" using tr by blast
  show ?case
    by (subst mongo_attempts.simps)
       (simp add: \<open>a = N\<close> e transient_not_nullish [OF e(2)] mongo_try_def
          mongo_failed_attempt_def)
next
  case (Suc k)
  then have lt: "a < N" and k: "k = N - Suc a" by simp_all
  obtain e where e: "cb_outcome env a = Inl e" "isTransientError e" using tr by blast
  have ih: "mongo_attempts env tmo (int N) (Suc a) (Some e)
      = (concat (map (mongo_failed_attempt tmo (int N)) [Suc a..<Suc N]), cb_outcome env N)"
    using Suc.hyps(1) [OF k] lt by simp
  have upt: "concat (map (mongo_failed_attempt tmo (int N)) [a..<Suc N])
      = mongo_failed_attempt tmo (int N) a @ concat (map (mongo_failed_attempt tmo (int N)) [Suc a..<Suc N])"
    using lt by (simp add: upt_conv_Cons del: upt_Suc)
  show ?case
    by (subst mongo_attempts.simps)
       (use lt in \<open>simp add: e transient_not_nullish [OF e(2)] mongo_try_def ih upt
          mongo_failed_attempt_def del: upt_Suc\<close>)
qed

lemma callbacks_run_pg_blocks:
  "callbacks_run (concat (map (pg_failed_attempt isoLevel tmo n) [a..<b])) = [a..<b]"
  by (induction b) (simp_all add: callbacks_run_append pg_failed_attempt_def)

lemma callbacks_run_mongo_blocks:
  "callbacks_run (concat (map (mongo_failed_attempt tmo n) [a..<b])) = [a..<b]"
  by (induction b) (simp_all add: callbacks_run_append mongo_failed_attempt_def)

lemma sleeps_pg_blocks:
  "b \<le> Suc N \<Longrightarrow> sleeps (concat (map (pg_failed_attempt isoLevel tmo (int N)) [a..<b]))
     = map backoffMs [a..<min b N]"
proof (induction b)
  case 0
  then show ?case by simp
next
  case (Suc b)
  then show ?case
    by (cases "b < N") (auto simp: sleeps_append pg_failed_attempt_def min_def)
qed

lemma sleeps_mongo_blocks:
  "b \<le> Suc N \<Longrightarrow> sleeps (concat (map (mongo_failed_attempt tmo (int N)) [a..<b]))
     = map backoffMs [a..<min b N]"
proof (induction b)
  case 0
  then show ?case by simp
next
  case (Suc b)
  then show ?case
    by (cases "b < N") (auto simp: sleeps_append mongo_failed_attempt_def min_def)
qed

lemma sessions_released_attempts:
  "sessions_released False (fst (mongo_attempts env tmo n a le))"
proof (induction env tmo n a le rule: mongo_attempts.induct)
  case (1 env tmo n attempt lastError)
  show ?case
    apply (subst mongo_attempts.simps)
    using 1
    apply (auto simp: mongo_try_def split: sum.splits option.splits prod.splits)
    done
qed

lemma opens_append: "opens (xs @ ys) = opens xs + opens ys"
  by (induction xs rule: opens.induct) simp_all

lemma opens_pg_blocks:
  "opens (concat (map (pg_failed_attempt isoLevel tmo n) [a..<b])) = b - a"
  by (induction b) (auto simp: opens_append pg_failed_attempt_def Suc_diff_le)

lemma opens_mongo_blocks:
  "opens (concat (map (mongo_failed_attempt tmo n) [a..<b])) = b - a"
  by (induction b) (auto simp: opens_append mongo_failed_attempt_def Suc_diff_le)

lemma sessions_released_withTransaction:
  "sessions_released False (fst (mongo_withTransaction env options))"
proof -
  obtain evs r where a: "mongo_attempts env
      (case timeout options of None \<Rightarrow> DEFAULT_TRANSACTION_TIMEOUT | Some t \<Rightarrow> t)
      (case retries options of None \<Rightarrow> 0 | Some k \<Rightarrow> k) 0 None = (evs, r)"
    by (cases "mongo_attempts env
      (case timeout options of None \<Rightarrow> DEFAULT_TRANSACTION_TIMEOUT | Some t \<Rightarrow> t)
      (case retries options of None \<Rightarrow> 0 | Some k \<Rightarrow> k) 0 None") blast
  have "sessions_released False evs"
    using sessions_released_attempts [of env
      "case timeout options of None \<Rightarrow> DEFAULT_TRANSACTION_TIMEOUT | Some t \<Rightarrow> t"
      "case retries options of None \<Rightarrow> 0 | Some k \<Rightarrow> k" 0 None]
    by (simp add: a)
  then show ?thesis
    by (simp add: mongo_withTransaction_def Let_def a)
qed

lemma pg_withTransaction_failing:
  assumes "\<And>i. \<exists>e. cb_outcome env i = Inl e \<and> isRetryableError e"
    and "retries options = Some (int N)"
  shows "pg_withTransaction env options
    = (concat (map (pg_failed_attempt
          (case isolationLevel options of None \<Rightarrow> ReadCommitted | Some l \<Rightarrow> l)
          (case timeout options of None \<Rightarrow> DEFAULT_TRANSACTION_TIMEOUT | Some t \<Rightarrow> t)
          (int N)) [0..<Suc N]),
       cb_outcome env N)"
  using pg_attempts_failing [OF assms(1), of 0 N] assms(2)
  by (simp add: pg_withTransaction_def Let_def del: upt_Suc)

lemma mongo_withTransaction_failing:
  assumes "\<And>i. \<exists>e. cb_outcome env i = Inl e \<and> isTransientError e"
    and "retries options = Some (int N)"
  shows "mongo_withTransaction env options
    = (MgConnect # concat (map (mongo_failed_attempt
          (case timeout options of None \<Rightarrow> DEFAULT_TRANSACTION_TIMEOUT | Some t \<Rightarrow> t)
          (int N)) [0..<Suc N]),
       cb_outcome env N)"
  using mongo_attempts_failing [OF assms(1), of 0 N] assms(2)
  by (simp add: mongo_withTransaction_def Let_def del: upt_Suc)

text \<open>
  C2. With \<open>retries = N \<ge> 0\<close> and a callback that throws a retryable (transient)
  error at every attempt, \<open>withTransaction\<close> runs the callback exactly \<open>N + 1\<close>
  times (attempts \<open>0, \<dots>, N\<close>), opens one native transaction (relational) or
  session (document) per attempt, sleeps \<open>min(100 * 2^attempt, 3000)\<close> milliseconds after
  each attempt but the last, and rethrows the error of the last attempt.  On the
  document backend every session started is ended before the next starts and before
  the call returns, for every callback, commit outcome and option (the last conjunct).
\<close>

theorem withTransaction_retry_budget:
  assumes pg: "\<forall>i. \<exists>e. cb_outcome envp i = Inl e \<and> isRetryableError e"
    and mg: "\<forall>i. \<exists>e. cb_outcome envm i = Inl e \<and> isTransientError e"
    and n: "retries options = Some (int N)"
  shows "callbacks_run (fst (pg_withTransaction envp options)) = [0..<N + 1]
    \<and> opens (fst (pg_withTransaction envp options)) = N + 1
    \<and> sleeps (fst (pg_withTransaction envp options))
        = map (\<lambda>attempt. min (100 * 2 ^ attempt) 3000) [0..<N]
    \<and> fst (pg_withTransaction envp options)
        = concat (map (pg_failed_attempt
            (case isolationLevel options of None \<Rightarrow> ReadCommitted | Some l \<Rightarrow> l)
            (case timeout options of None \<Rightarrow> DEFAULT_TRANSACTION_TIMEOUT | Some t \<Rightarrow> t)
            (int N)) [0..<N + 1])
    \<and> snd (pg_withTransaction envp options) = cb_outcome envp N
    \<and> isl (cb_outcome envp N)
    \<and> callbacks_run (fst (mongo_withTransaction envm options)) = [0..<N + 1]
    \<and> opens (fst (mongo_withTransaction envm options)) = N + 1
    \<and> sleeps (fst (mongo_withTransaction envm options))
        = map (\<lambda>attempt. min (100 * 2 ^ attempt) 3000) [0..<N]
    \<and> fst (mongo_withTransaction envm options)
        = MgConnect # concat (map (mongo_failed_attempt
            (case timeout options of None \<Rightarrow> DEFAULT_TRANSACTION_TIMEOUT | Some t \<Rightarrow> t)
            (int N)) [0..<N + 1])
    \<and> snd (mongo_withTransaction envm options) = cb_outcome envm N
    \<and> isl (cb_outcome envm N)
    \<and> sessions_released False (fst (mongo_withTransaction env' options'))"
proof -
  have p: "\<And>i. \<exists>e. cb_outcome envp i = Inl e \<and> isRetryableError e" using pg by blast
  have m: "\<And>i. \<exists>e. cb_outcome envm i = Inl e \<and> isTransientError e" using mg by blast
  have bo: "backoffMs = (\<lambda>attempt. min (100 * 2 ^ attempt) 3000)"
    by (rule ext) (simp add: backoffMs_def)
  have ip: "isl (cb_outcome envp N)" using p [of N] by auto
  have im: "isl (cb_outcome envm N)" using m [of N] by auto
  have sp: "sleeps (concat (map (pg_failed_attempt isoLevel tmo (int N)) [0..<Suc N]))
      = map backoffMs [0..<N]" for isoLevel tmo
    using sleeps_pg_blocks [of "Suc N" N isoLevel tmo 0] by (simp del: upt_Suc)
  have sm: "sleeps (concat (map (mongo_failed_attempt tmo (int N)) [0..<Suc N]))
      = map backoffMs [0..<N]" for tmo
    using sleeps_mongo_blocks [of "Suc N" N tmo 0] by (simp del: upt_Suc)
  show ?thesis
    unfolding pg_withTransaction_failing [OF p n] mongo_withTransaction_failing [OF m n]
    using ip im sessions_released_withTransaction [of env' options']
    by (simp add: callbacks_run_pg_blocks callbacks_run_mongo_blocks opens_pg_blocks
        opens_mongo_blocks sp sm bo [symmetric] del: upt_Suc)
qed

theorem withTransaction_retry_budget_witness:
  "(\<forall>i. \<exists>e. cb_outcome always_40001 i = Inl e \<and> isRetryableError e)
   \<and> (\<forall>i. \<exists>e. cb_outcome always_labelled i = Inl e \<and> isTransientError e)
   \<and> retries two_retries = Some (int 2)
   \<and> callbacks_run (fst (pg_withTransaction always_40001 two_retries)) = [0, 1, 2]
   \<and> sleeps (fst (pg_withTransaction always_40001 two_retries)) = [100, 200]
   \<and> callbacks_run (fst (mongo_withTransaction always_labelled two_retries)) = [0, 1, 2]
   \<and> opens (fst (mongo_withTransaction always_labelled two_retries)) = 3
   \<and> sleeps (fst (mongo_withTransaction always_labelled two_retries)) = [100, 200]"
proof -
  have h1: "\<forall>i. \<exists>e. cb_outcome always_40001 i = Inl e \<and> isRetryableError e"
    by (simp add: always_40001_def pg_retryableCodes_def)
  have h2: "\<forall>i. \<exists>e. cb_outcome always_labelled i = Inl e \<and> isTransientError e"
    by (simp add: always_labelled_def)
  have h3: "retries two_retries = Some (int 2)"
    by (simp add: two_retries_def)
  note t = withTransaction_retry_budget [OF h1 h2 h3, of always_labelled two_retries]
  have u: "[0..<2 + 1] = [0, 1, 2::nat]"
    by code_simp
  have b: "map (\<lambda>attempt. min (100 * 2 ^ attempt) 3000) [0..<2] = [100, 200::nat]"
    by code_simp
  have c1: "callbacks_run (fst (pg_withTransaction always_40001 two_retries)) = [0, 1, 2]"
    using t [THEN conjunct1] by (simp only: u)
  have c2: "sleeps (fst (pg_withTransaction always_40001 two_retries)) = [100, 200]"
    using t [THEN conjunct2, THEN conjunct2, THEN conjunct1] by (simp only: b)
  have c3: "callbacks_run (fst (mongo_withTransaction always_labelled two_retries)) = [0, 1, 2]"
    using t [THEN conjunct2, THEN conjunct2, THEN conjunct2, THEN conjunct2, THEN conjunct2, THEN conjunct2, THEN conjunct1] by (simp only: u)
  have c4: "opens (fst (mongo_withTransaction always_labelled two_retries)) = 3"
    using t [THEN conjunct2, THEN conjunct2, THEN conjunct2, THEN conjunct2, THEN conjunct2, THEN conjunct2, THEN conjunct2, THEN conjunct1] by simp
  have c5: "sleeps (fst (mongo_withTransaction always_labelled two_retries)) = [100, 200]"
    using t [THEN conjunct2, THEN conjunct2, THEN conjunct2, THEN conjunct2, THEN conjunct2, THEN conjunct2, THEN conjunct2, THEN conjunct2, THEN conjunct1] by (simp only: b)
  show ?thesis
    by (intro conjI h1 h2 h3 c1 c2 c3 c4 c5)
qed










subsection \<open>Repositories\<close>

lemma keys_set_key: "fst ` set (set_key k v a) = insert k (fst ` set a)"
  by (induction a) (force split: if_splits)+

lemma keys_spread: "fst ` set (spread a b) = fst ` set a \<union> fst ` set b"
proof (induction b arbitrary: a)
  case Nil
  then show ?case by simp
next
  case (Cons p b)
  obtain k v where p: "p = (k, v)" by (cases p)
  show ?case
    unfolding p spread.simps Cons.IH keys_set_key by auto
qed

lemma map_of_set_key: "map_of (set_key k v a) = (map_of a)(k \<mapsto> v)"
  by (induction a) (auto simp: fun_eq_iff)

lemma map_of_spread_notin: "k \<notin> fst ` set b \<Longrightarrow> map_of (spread a b) k = map_of a k"
  by (induction b arbitrary: a) (auto simp: map_of_set_key)

lemma map_of_spread_in:
  "distinct (map fst b) \<Longrightarrow> k \<in> fst ` set b \<Longrightarrow> map_of (spread a b) k = map_of b k"
proof (induction b arbitrary: a)
  case Nil
  then show ?case by simp
next
  case (Cons p b)
  obtain k' v' where p: "p = (k', v')" by (cases p)
  show ?case
  proof (cases "k = k'")
    case True
    then have "k \<notin> fst ` set b" using Cons.prems(1) p by auto
    then show ?thesis using True p by (simp add: map_of_spread_notin map_of_set_key)
  next
    case False
    then show ?thesis using Cons p by auto
  qed
qed

lemma applyFilter_disallowed:
  assumes "pg_allowed cfg \<noteq> []" and "k \<notin> set (pg_allowed cfg)"
  shows "k \<in> fst ` set f \<Longrightarrow>
    \<exists>field. field \<notin> set (pg_allowed cfg)
      \<and> applyFilter cfg f = Inl (FieldNotAllowed field (cfg_table cfg))"
proof (induction f)
  case Nil
  then show ?case by simp
next
  case (Cons p f)
  obtain k' v' where p: "p = (k', v')" by (cases p)
  show ?case
  proof (cases "k' \<in> set (pg_allowed cfg)")
    case False
    then show ?thesis using assms(1) p by (auto simp: assertFieldAllowed_def)
  next
    case True
    then have "k \<in> fst ` set f" using Cons.prems assms(2) p by auto
    then obtain field where "field \<notin> set (pg_allowed cfg)"
      "applyFilter cfg f = Inl (FieldNotAllowed field (cfg_table cfg))"
      using Cons.IH by blast
    then show ?thesis using True p by (auto simp: assertFieldAllowed_def)
  qed
qed

lemma softDeleteField_in_notDeleted:
  "pg_softDeleteEnabled cfg \<Longrightarrow> pg_softDeleteField cfg \<in> fst ` set (pg_notDeletedFilter cfg)"
  by (simp add: pg_notDeletedFilter_def)

lemma merged_rejected:
  assumes "pg_softDeleteEnabled cfg" and "pg_allowed cfg \<noteq> []"
    and "pg_softDeleteField cfg \<notin> set (pg_allowed cfg)"
  shows "\<exists>field. field \<notin> set (pg_allowed cfg)
      \<and> applyFilter cfg (spread (spread (pg_baseFilter cfg) (pg_notDeletedFilter cfg)) f)
          = Inl (FieldNotAllowed field (cfg_table cfg))"
    and "\<exists>field. field \<notin> set (pg_allowed cfg)
      \<and> applyFilter cfg (spread (pg_baseFilter cfg) (pg_notDeletedFilter cfg))
          = Inl (FieldNotAllowed field (cfg_table cfg))"
proof -
  have "pg_softDeleteField cfg
      \<in> fst ` set (spread (spread (pg_baseFilter cfg) (pg_notDeletedFilter cfg)) f)"
    using softDeleteField_in_notDeleted [OF assms(1)] unfolding keys_spread by blast
  then show "\<exists>field. field \<notin> set (pg_allowed cfg)
      \<and> applyFilter cfg (spread (spread (pg_baseFilter cfg) (pg_notDeletedFilter cfg)) f)
          = Inl (FieldNotAllowed field (cfg_table cfg))"
    by (rule applyFilter_disallowed [OF assms(2,3)])
  have "pg_softDeleteField cfg
      \<in> fst ` set (spread (pg_baseFilter cfg) (pg_notDeletedFilter cfg))"
    using softDeleteField_in_notDeleted [OF assms(1)] unfolding keys_spread by blast
  then show "\<exists>field. field \<notin> set (pg_allowed cfg)
      \<and> applyFilter cfg (spread (pg_baseFilter cfg) (pg_notDeletedFilter cfg))
          = Inl (FieldNotAllowed field (cfg_table cfg))"
    by (rule applyFilter_disallowed [OF assms(2,3)])
qed

lemma driver_events_append:
  "driver_events (xs @ ys) = driver_events xs @ driver_events ys"
  by (induction xs rule: driver_events.induct) simp_all

lemma hooks_keep_driver_events:
  "driver_events (events (snd (runBeforeUpdate cfg u w))) = driver_events (events w)"
  "store (snd (runBeforeUpdate cfg u w)) = store w"
  "driver_events (events (runBeforeDelete cfg i w)) = driver_events (events w)"
  "store (runBeforeDelete cfg i w) = store w"
  by (auto simp: runBeforeUpdate_def runBeforeDelete_def hook_run_def Let_def
      driver_events_append
      split: option.splits)

text \<open>
  C9. On the relational backend, when soft delete is enabled and the column whitelist is
  not empty and does not contain the soft-delete field, every operation that merges the
  injected not-deleted predicate throws the field-not-allowed error of
  \<open>assertFieldAllowed\<close> (for a field outside the whitelist) before any statement
  reaches the driver: the world is returned unchanged.  \<open>updateById\<close> and
  \<open>deleteById\<close> run their before-hook first, so there the world differs by that hook
  call only: same rows, same driver calls.
\<close>

theorem injected_key_whitelisted:
  assumes sd: "pg_softDeleteEnabled cfg"
    and ne: "pg_allowed cfg \<noteq> []"
    and nin: "pg_softDeleteField cfg \<notin> set (pg_allowed cfg)"
  shows "(\<exists>field. field \<notin> set (pg_allowed cfg)
        \<and> pg_findById kx cfg ident w = (Inl (FieldNotAllowed field (cfg_table cfg)), w))
   \<and> (\<exists>field. field \<notin> set (pg_allowed cfg)
        \<and> pg_findOne kx cfg f w = (Inl (FieldNotAllowed field (cfg_table cfg)), w))
   \<and> (\<exists>field. field \<notin> set (pg_allowed cfg)
        \<and> pg_findAll kx cfg f w = (Inl (FieldNotAllowed field (cfg_table cfg)), w))
   \<and> (\<exists>field. field \<notin> set (pg_allowed cfg)
        \<and> pg_findPage kx cfg options w = (Inl (FieldNotAllowed field (cfg_table cfg)), w))
   \<and> (\<exists>field. field \<notin> set (pg_allowed cfg)
        \<and> pg_count kx cfg f w = (Inl (FieldNotAllowed field (cfg_table cfg)), w))
   \<and> (\<exists>field. field \<notin> set (pg_allowed cfg)
        \<and> pg_exists kx cfg f w = (Inl (FieldNotAllowed field (cfg_table cfg)), w))
   \<and> (\<exists>field. field \<notin> set (pg_allowed cfg)
        \<and> pg_select kx cfg f field_names w = (Inl (FieldNotAllowed field (cfg_table cfg)), w))
   \<and> (\<exists>field. field \<notin> set (pg_allowed cfg)
        \<and> pg_distinct kx cfg field f w = (Inl (FieldNotAllowed field (cfg_table cfg)), w))
   \<and> (\<exists>field. field \<notin> set (pg_allowed cfg)
        \<and> pg_updateMany kx cfg f u w = (Inl (FieldNotAllowed field (cfg_table cfg)), w))
   \<and> (\<exists>field. field \<notin> set (pg_allowed cfg)
        \<and> pg_deleteMany kx cfg f w = (Inl (FieldNotAllowed field (cfg_table cfg)), w))
   \<and> (\<exists>field. field \<notin> set (pg_allowed cfg)
        \<and> pg_upsert kx cfg f u w = (Inl (FieldNotAllowed field (cfg_table cfg)), w))
   \<and> (\<exists>field. field \<notin> set (pg_allowed cfg)
        \<and> pg_softDelete kx cfg ident w = (Inl (FieldNotAllowed field (cfg_table cfg)), w))
   \<and> (\<exists>field. field \<notin> set (pg_allowed cfg)
        \<and> pg_softDeleteMany kx cfg f w = (Inl (FieldNotAllowed field (cfg_table cfg)), w))
   \<and> (\<exists>field. field \<notin> set (pg_allowed cfg)
        \<and> fst (pg_updateById kx cfg ident u w) = Inl (FieldNotAllowed field (cfg_table cfg)))
   \<and> store (snd (pg_updateById kx cfg ident u w)) = store w
   \<and> driver_events (events (snd (pg_updateById kx cfg ident u w))) = driver_events (events w)
   \<and> (\<exists>field. field \<notin> set (pg_allowed cfg)
        \<and> fst (pg_deleteById kx cfg ident w) = Inl (FieldNotAllowed field (cfg_table cfg)))
   \<and> store (snd (pg_deleteById kx cfg ident w)) = store w
   \<and> driver_events (events (snd (pg_deleteById kx cfg ident w))) = driver_events (events w)"
proof -
  note m1 = merged_rejected(1) [OF sd ne nin]
  note m2 = merged_rejected(2) [OF sd ne nin]
  have findById: "\<exists>field. field \<notin> set (pg_allowed cfg)
        \<and> pg_findById kx cfg ident w = (Inl (FieldNotAllowed field (cfg_table cfg)), w)"
    using m2 by (auto simp: pg_findById_def Let_def)
  have findOne: "\<exists>field. field \<notin> set (pg_allowed cfg)
        \<and> pg_findOne kx cfg f w = (Inl (FieldNotAllowed field (cfg_table cfg)), w)"
    using m1 [of f] by (auto simp: pg_findOne_def Let_def)
  have findAll: "\<exists>field. field \<notin> set (pg_allowed cfg)
        \<and> pg_findAll kx cfg f w = (Inl (FieldNotAllowed field (cfg_table cfg)), w)"
    using m1 [of f] by (auto simp: pg_findAll_def Let_def)
  have findPage: "\<exists>field. field \<notin> set (pg_allowed cfg)
        \<and> pg_findPage kx cfg options w = (Inl (FieldNotAllowed field (cfg_table cfg)), w)"
    using m1 [of "case po_filter options of None \<Rightarrow> [] | Some g \<Rightarrow> g"]
    by (auto simp: pg_findPage_def Let_def)
  have count: "\<exists>field. field \<notin> set (pg_allowed cfg)
        \<and> pg_count kx cfg f w = (Inl (FieldNotAllowed field (cfg_table cfg)), w)"
    using m1 [of f] by (auto simp: pg_count_def Let_def)
  have exists: "\<exists>field. field \<notin> set (pg_allowed cfg)
        \<and> pg_exists kx cfg f w = (Inl (FieldNotAllowed field (cfg_table cfg)), w)"
    using m1 [of f] by (auto simp: pg_exists_def Let_def)
  have select: "\<exists>field. field \<notin> set (pg_allowed cfg)
        \<and> pg_select kx cfg f field_names w = (Inl (FieldNotAllowed field (cfg_table cfg)), w)"
    using m1 [of f] by (auto simp: pg_select_def Let_def)
  have distinct: "\<exists>field. field \<notin> set (pg_allowed cfg)
        \<and> pg_distinct kx cfg field f w = (Inl (FieldNotAllowed field (cfg_table cfg)), w)"
    using m1 [of f] by (auto simp: pg_distinct_def Let_def)
  have updateMany: "\<exists>field. field \<notin> set (pg_allowed cfg)
        \<and> pg_updateMany kx cfg f u w = (Inl (FieldNotAllowed field (cfg_table cfg)), w)"
    using m1 [of f] by (auto simp: pg_updateMany_def Let_def)
  have deleteMany: "\<exists>field. field \<notin> set (pg_allowed cfg)
        \<and> pg_deleteMany kx cfg f w = (Inl (FieldNotAllowed field (cfg_table cfg)), w)"
    using m1 [of f] by (auto simp: pg_deleteMany_def Let_def)
  have upsert: "\<exists>field. field \<notin> set (pg_allowed cfg)
        \<and> pg_upsert kx cfg f u w = (Inl (FieldNotAllowed field (cfg_table cfg)), w)"
    using m1 [of f] by (auto simp: pg_upsert_def Let_def)
  have softDelete: "\<exists>field. field \<notin> set (pg_allowed cfg)
        \<and> pg_softDelete kx cfg ident w = (Inl (FieldNotAllowed field (cfg_table cfg)), w)"
    using m2 by (auto simp: pg_softDelete_def Let_def)
  have softDeleteMany: "\<exists>field. field \<notin> set (pg_allowed cfg)
        \<and> pg_softDeleteMany kx cfg f w = (Inl (FieldNotAllowed field (cfg_table cfg)), w)"
    using m1 [of f] by (auto simp: pg_softDeleteMany_def Let_def)
  have updateById: "(\<exists>field. field \<notin> set (pg_allowed cfg)
        \<and> fst (pg_updateById kx cfg ident u w) = Inl (FieldNotAllowed field (cfg_table cfg)))
   \<and> store (snd (pg_updateById kx cfg ident u w)) = store w
   \<and> driver_events (events (snd (pg_updateById kx cfg ident u w))) = driver_events (events w)"
    using m2 hooks_keep_driver_events(1,2) [of cfg u w]
    by (auto simp: pg_updateById_def Let_def split: prod.splits)
  have deleteById: "(\<exists>field. field \<notin> set (pg_allowed cfg)
        \<and> fst (pg_deleteById kx cfg ident w) = Inl (FieldNotAllowed field (cfg_table cfg)))
   \<and> store (snd (pg_deleteById kx cfg ident w)) = store w
   \<and> driver_events (events (snd (pg_deleteById kx cfg ident w))) = driver_events (events w)"
    using m2 hooks_keep_driver_events(3,4) [of cfg ident w]
    by (auto simp: pg_deleteById_def Let_def split: prod.splits)
  show ?thesis
    using findById findOne findAll findPage count exists select distinct updateMany deleteMany upsert softDelete softDeleteMany updateById deleteById by blast
qed

text \<open>
  C6. The repository returned by \<open>createRepository\<close> has the six soft-delete members
  (\<open>softDelete\<close>, \<open>softDeleteMany\<close>, \<open>restore\<close>, \<open>restoreMany\<close>,
  \<open>findAllWithDeleted\<close>, \<open>findDeleted\<close>) if and only if the configuration sets
  \<open>softDelete\<close> to true; otherwise each of the six is undefined.  Both backends.
\<close>

theorem soft_delete_capabilities:
  "(cfg_softDelete cfg = Some True \<longrightarrow>
        r_softDelete (pg_createRepository kx cfg) = Some (pg_softDelete kx cfg)
        \<and> r_softDeleteMany (pg_createRepository kx cfg) = Some (pg_softDeleteMany kx cfg)
        \<and> r_restore (pg_createRepository kx cfg) = Some (pg_restore kx cfg)
        \<and> r_restoreMany (pg_createRepository kx cfg) = Some (pg_restoreMany kx cfg)
        \<and> r_findAllWithDeleted (pg_createRepository kx cfg) = Some (pg_findAllWithDeleted kx cfg)
        \<and> r_findDeleted (pg_createRepository kx cfg) = Some (pg_findDeleted kx cfg))
   \<and> (cfg_softDelete cfg \<noteq> Some True \<longrightarrow>
        r_softDelete (pg_createRepository kx cfg) = None
        \<and> r_softDeleteMany (pg_createRepository kx cfg) = None
        \<and> r_restore (pg_createRepository kx cfg) = None
        \<and> r_restoreMany (pg_createRepository kx cfg) = None
        \<and> r_findAllWithDeleted (pg_createRepository kx cfg) = None
        \<and> r_findDeleted (pg_createRepository kx cfg) = None)
   \<and> (opts_softDelete opts = Some True \<longrightarrow>
        r_softDelete (mg_createRepository model session opts) = Some (mg_softDelete model session opts)
        \<and> r_softDeleteMany (mg_createRepository model session opts) = Some (mg_softDeleteMany model session opts)
        \<and> r_restore (mg_createRepository model session opts) = Some (mg_restore model session opts)
        \<and> r_restoreMany (mg_createRepository model session opts) = Some (mg_restoreMany model session opts)
        \<and> r_findAllWithDeleted (mg_createRepository model session opts) = Some (mg_findAllWithDeleted model session opts)
        \<and> r_findDeleted (mg_createRepository model session opts) = Some (mg_findDeleted model session opts))
   \<and> (opts_softDelete opts \<noteq> Some True \<longrightarrow>
        r_softDelete (mg_createRepository model session opts) = None
        \<and> r_softDeleteMany (mg_createRepository model session opts) = None
        \<and> r_restore (mg_createRepository model session opts) = None
        \<and> r_restoreMany (mg_createRepository model session opts) = None
        \<and> r_findAllWithDeleted (mg_createRepository model session opts) = None
        \<and> r_findDeleted (mg_createRepository model session opts) = None)"
  by (cases "cfg_softDelete cfg"; cases "opts_softDelete opts")
     (simp_all add: pg_createRepository_def mg_createRepository_def pg_softDeleteEnabled_def
        mg_softDeleteEnabled_def)

theorem soft_delete_capabilities_witness:
  "cfg_softDelete users_cfg = Some True
   \<and> r_softDelete (pg_createRepository idle_kx users_cfg) = Some (pg_softDelete idle_kx users_cfg)
   \<and> cfg_softDelete (users_cfg\<lparr>cfg_softDelete := None\<rparr>) \<noteq> Some True
   \<and> r_restore (pg_createRepository idle_kx (users_cfg\<lparr>cfg_softDelete := None\<rparr>)) = None
   \<and> opts_softDelete users_opts = Some True
   \<and> r_findDeleted (mg_createRepository idle_model False users_opts)
       = Some (mg_findDeleted idle_model False users_opts)
   \<and> opts_softDelete (users_opts\<lparr>opts_softDelete := Some False\<rparr>) \<noteq> Some True
   \<and> r_softDelete (mg_createRepository idle_model False
         (users_opts\<lparr>opts_softDelete := Some False\<rparr>)) = None"
proof -
  have a: "cfg_softDelete users_cfg = Some True" by (simp add: users_cfg_def)
  have b: "cfg_softDelete (users_cfg\<lparr>cfg_softDelete := None\<rparr>) \<noteq> Some True" by simp
  have c: "opts_softDelete users_opts = Some True" by (simp add: users_opts_def)
  have d: "opts_softDelete (users_opts\<lparr>opts_softDelete := Some False\<rparr>) \<noteq> Some True" by simp
  show ?thesis
    using a b c d
      soft_delete_capabilities [of users_cfg idle_kx users_opts idle_model False]
      soft_delete_capabilities [of "users_cfg\<lparr>cfg_softDelete := None\<rparr>" idle_kx
        "users_opts\<lparr>opts_softDelete := Some False\<rparr>" idle_model False]
    by simp
qed

text \<open>
  C10. \<open>insertMany\<close> of the empty list returns the empty list and leaves the world as
  it was: no call to the driver, no row written, no timestamp computed.  Both backends.
\<close>

theorem insertMany_empty:
  "pg_insertMany kx cfg [] w = (Inr [], w)
   \<and> r_insertMany (pg_createRepository kx cfg) [] w = (Inr [], w)
   \<and> mg_insertMany model session opts [] w = (Inr [], w)
   \<and> r_insertMany (mg_createRepository model session opts) [] w = (Inr [], w)"
  by (simp add: pg_insertMany_def mg_insertMany_def pg_createRepository_def
      mg_createRepository_def)

theorem insertMany_empty_witness:
  "pg_insertMany idle_kx users_cfg [] empty_world = (Inr [], empty_world)
   \<and> events (snd (mg_insertMany idle_model True users_opts [] empty_world)) = []
   \<and> events (snd (pg_insertMany idle_kx users_cfg [[(''name'', VStr ''Ann'')]] empty_world))
       = [Driver ''users'' (Insert [[(''name'', VStr ''Ann''), (''created_at'', VDate 42)]])]"
  using insertMany_empty [of idle_kx users_cfg empty_world idle_model True users_opts]
  by (simp add: empty_world_def pg_insertMany_def kx_run_def idle_kx_def users_cfg_def
      pg_addCreatedAt_def pg_timestampsEnabled_def pg_createdAtField_def)

theorem injected_key_whitelisted_witness:
  "pg_softDeleteEnabled users_cfg
   \<and> pg_allowed users_cfg \<noteq> []
   \<and> pg_softDeleteField users_cfg \<notin> set (pg_allowed users_cfg)
   \<and> pg_findAll idle_kx users_cfg [] empty_world
       = (Inl (FieldNotAllowed ''deleted_at'' ''users''), empty_world)
   \<and> (\<exists>field. field \<notin> set (pg_allowed users_cfg)
         \<and> pg_count idle_kx users_cfg [] empty_world
             = (Inl (FieldNotAllowed field (cfg_table users_cfg)), empty_world))"
proof -
  have h1: "pg_softDeleteEnabled users_cfg"
    by (simp add: pg_softDeleteEnabled_def users_cfg_def)
  have h2: "pg_allowed users_cfg \<noteq> []"
    by (simp add: pg_allowed_def users_cfg_def)
  have h3: "pg_softDeleteField users_cfg \<notin> set (pg_allowed users_cfg)"
    by (simp add: pg_allowed_def pg_softDeleteField_def users_cfg_def)
  note t = injected_key_whitelisted [where cfg = users_cfg and kx = idle_kx
      and w = empty_world and f = "[]", OF h1 h2 h3]
  have c: "\<exists>field. field \<notin> set (pg_allowed users_cfg)
         \<and> pg_count idle_kx users_cfg [] empty_world
             = (Inl (FieldNotAllowed field (cfg_table users_cfg)), empty_world)"
    using t by blast
  have d: "pg_findAll idle_kx users_cfg [] empty_world
       = (Inl (FieldNotAllowed ''deleted_at'' ''users''), empty_world)"
    by (simp add: pg_findAll_def pg_baseFilter_def pg_notDeletedFilter_def
        pg_softDeleteEnabled_def pg_softDeleteField_def assertFieldAllowed_def
        pg_allowed_def users_cfg_def)
  show ?thesis
    by (intro conjI h1 h2 h3 c d)
qed

lemma map_of_spread_single:
  "map_of (spread a [(k, v)]) = (map_of a)(k \<mapsto> v)"
  by (simp add: map_of_set_key)

text \<open>
  Hook, then overlay, on the relational backend: a \<open>create\<close> with timestamps enabled
  runs the before-create hook first (when one is configured) and the timestamp overlay
  second.  The payload of the one insert that reaches the driver is the hook's output
  (the caller's data when no hook is configured or the hook returns nothing) with the
  created-at field set to the current instant; every other field is as the hook left it.
\<close>

theorem create_hook_then_timestamp:
  assumes ts: "pg_timestampsEnabled cfg"
  shows "\<exists>hooked w1 payload after_events.
      runBeforeCreate cfg data w = (hooked, w1)
      \<and> payload = spread hooked [(pg_createdAtField cfg, VDate (clock w))]
      \<and> fst (pg_create kx cfg data w)
          = Inr (first_row (fst (kx (Insert [payload]) (store w))))
      \<and> events (snd (pg_create kx cfg data w))
          = events w1 @ [Driver (cfg_table cfg) (Insert [payload])] @ after_events
      \<and> events w1
          = events w @
            (case cfg_hooks cfg of
               None \<Rightarrow> []
             | Some hooks \<Rightarrow>
                 (case beforeCreate hooks of
                    None \<Rightarrow> []
                  | Some hook \<Rightarrow>
                      [Hook (BeforeCreate
                         \<lparr>hc_data = data, hc_operation = ''create'', hc_isBulk = False\<rparr>)]))
      \<and> hooked
          = (case cfg_hooks cfg of
               None \<Rightarrow> data
             | Some hooks \<Rightarrow>
                 (case beforeCreate hooks of
                    None \<Rightarrow> data
                  | Some hook \<Rightarrow>
                      (case hook \<lparr>hc_data = data, hc_operation = ''create'', hc_isBulk = False\<rparr> of
                         None \<Rightarrow> data
                       | Some result \<Rightarrow> result)))
      \<and> driver_events after_events = []
      \<and> map_of payload (pg_createdAtField cfg) = Some (VDate (clock w))
      \<and> (\<forall>k. k \<noteq> pg_createdAtField cfg \<longrightarrow> map_of payload k = map_of hooked k)"
proof -
  obtain hooked w1 where h: "runBeforeCreate cfg data w = (hooked, w1)"
    by (cases "runBeforeCreate cfg data w")
  have w1: "store w1 = store w" "clock w1 = clock w"
    using h by (auto simp: runBeforeCreate_def hook_run_def Let_def split: option.splits)
  have ev1: "events w1
          = events w @
            (case cfg_hooks cfg of
               None \<Rightarrow> []
             | Some hooks \<Rightarrow>
                 (case beforeCreate hooks of
                    None \<Rightarrow> []
                  | Some hook \<Rightarrow>
                      [Hook (BeforeCreate
                         \<lparr>hc_data = data, hc_operation = ''create'', hc_isBulk = False\<rparr>)]))"
    using h by (auto simp: runBeforeCreate_def hook_run_def Let_def split: option.splits)
  have hk: "hooked
          = (case cfg_hooks cfg of
               None \<Rightarrow> data
             | Some hooks \<Rightarrow>
                 (case beforeCreate hooks of
                    None \<Rightarrow> data
                  | Some hook \<Rightarrow>
                      (case hook \<lparr>hc_data = data, hc_operation = ''create'', hc_isBulk = False\<rparr> of
                         None \<Rightarrow> data
                       | Some result \<Rightarrow> result)))"
    using h by (auto simp: runBeforeCreate_def hook_run_def Let_def split: option.splits)
  define payload where "payload = spread hooked [(pg_createdAtField cfg, VDate (clock w))]"
  define entity where "entity = first_row (fst (kx (Insert [payload]) (store w)))"
  define after_events where
    "after_events = (case cfg_hooks cfg of
        None \<Rightarrow> []
      | Some hooks \<Rightarrow> if afterCreate hooks then [Hook (AfterCreate entity)] else [])"
  have r: "fst (pg_create kx cfg data w) = Inr entity"
    using ts w1
    by (simp add: pg_create_def h Let_def pg_addCreatedAt_def kx_run_def payload_def entity_def
        split: prod.splits)
  have ev: "events (snd (pg_create kx cfg data w))
          = events w1 @ [Driver (cfg_table cfg) (Insert [payload])] @ after_events"
    using ts w1
    by (auto simp: pg_create_def h Let_def pg_addCreatedAt_def kx_run_def payload_def entity_def
        after_events_def runAfterCreate_def hook_run_def split: prod.splits option.splits)
  have de: "driver_events after_events = []"
    by (simp add: after_events_def split: option.splits)
  have m1: "map_of payload (pg_createdAtField cfg) = Some (VDate (clock w))"
    by (simp add: payload_def map_of_set_key)
  have m2: "\<forall>k. k \<noteq> pg_createdAtField cfg \<longrightarrow> map_of payload k = map_of hooked k"
    by (simp add: payload_def map_of_set_key)
  show ?thesis
    using h r ev ev1 hk de m1 m2 unfolding entity_def
    by (intro exI [of _ hooked] exI [of _ w1] exI [of _ payload] exI [of _ after_events])
       (simp add: payload_def)
qed

theorem create_hook_then_timestamp_witness:
  "pg_timestampsEnabled hooked_cfg
   \<and> events (snd (pg_create idle_kx hooked_cfg [(''name'', VStr ''Ann'')] empty_world))
       = [Hook (BeforeCreate \<lparr>hc_data = [(''name'', VStr ''Ann'')], hc_operation = ''create'',
                               hc_isBulk = False\<rparr>),
          Driver ''users'' (Insert [[(''name'', VStr ''ANN''), (''created_at'', VDate 42)]]),
          Hook (AfterCreate None)]"
proof -
  have h: "pg_timestampsEnabled hooked_cfg"
    by (simp add: pg_timestampsEnabled_def hooked_cfg_def users_cfg_def)
  have rb: "runBeforeCreate hooked_cfg [(''name'', VStr ''Ann'')] empty_world
      = ([(''name'', VStr ''ANN''), (''created_at'', VStr ''never'')],
         empty_world\<lparr>events := [Hook (BeforeCreate \<lparr>hc_data = [(''name'', VStr ''Ann'')],
           hc_operation = ''create'', hc_isBulk = False\<rparr>)]\<rparr>)"
    by (simp add: runBeforeCreate_def hooked_cfg_def users_cfg_def stamp_hook_def hook_run_def
        empty_world_def)
  obtain hooked w1 payload after_events where
    t: "runBeforeCreate hooked_cfg [(''name'', VStr ''Ann'')] empty_world = (hooked, w1)"
       "payload = spread hooked [(pg_createdAtField hooked_cfg, VDate (clock empty_world))]"
       "events (snd (pg_create idle_kx hooked_cfg [(''name'', VStr ''Ann'')] empty_world))
          = events w1 @ [Driver (cfg_table hooked_cfg) (Insert [payload])] @ after_events"
    using create_hook_then_timestamp [OF h, of "[(''name'', VStr ''Ann'')]" empty_world idle_kx]
    by blast
  have p: "payload = [(''name'', VStr ''ANN''), (''created_at'', VDate 42)]"
    using t(1,2) rb
    by (simp add: pg_createdAtField_def hooked_cfg_def users_cfg_def empty_world_def)
  have e: "events (snd (pg_create idle_kx hooked_cfg [(''name'', VStr ''Ann'')] empty_world))
       = [Hook (BeforeCreate \<lparr>hc_data = [(''name'', VStr ''Ann'')], hc_operation = ''create'',
                               hc_isBulk = False\<rparr>),
          Driver ''users'' (Insert [[(''name'', VStr ''ANN''), (''created_at'', VDate 42)]]),
          Hook (AfterCreate None)]"
    by (simp add: pg_create_def rb Let_def pg_addCreatedAt_def h kx_run_def idle_kx_def
        first_row_def)
       (simp add: pg_createdAtField_def hooked_cfg_def users_cfg_def empty_world_def
        runAfterCreate_def hook_run_def)
  show ?thesis
    using h e t p by blast
qed

text \<open>
  C1 (amended). On the relational backend every read operation that takes a caller
  filter compiles the shallow merge of the default filter, the not-deleted filter and
  the caller's filter, in this order: a key of the caller's filter has the caller's
  value, any other key has the value of the default and not-deleted filters.  On the
  document backend there is no default filter and the merge is the caller's filter
  first and the not-deleted filter last: the soft-delete field, when soft delete is
  enabled, has the injected \<open>{$eq: null}\<close> whatever the caller gave, and every other
  key has the caller's value.
\<close>

theorem filter_merge_precedence:
  "(distinct (map fst f) \<longrightarrow> (\<forall>k \<in> fst ` set f. map_of (spread (spread (pg_baseFilter cfg) (pg_notDeletedFilter cfg)) f) k = map_of f k))
   \<and> (\<forall>k. k \<notin> fst ` set f \<longrightarrow>
        map_of (spread (spread (pg_baseFilter cfg) (pg_notDeletedFilter cfg)) f) k = map_of (spread (pg_baseFilter cfg) (pg_notDeletedFilter cfg)) k)
   \<and> (\<forall>e. applyFilter cfg (spread (spread (pg_baseFilter cfg) (pg_notDeletedFilter cfg)) f) = Inl e \<longrightarrow> pg_findAll kx cfg f w = (Inl e, w))
   \<and> (\<forall>cs. applyFilter cfg (spread (spread (pg_baseFilter cfg) (pg_notDeletedFilter cfg)) f) = Inr cs \<longrightarrow>
        events (snd (pg_findAll kx cfg f w)) = events w @ [Driver (cfg_table cfg) (Select [''*''] cs [] None)])
   \<and> (\<forall>e. applyFilter cfg (spread (spread (pg_baseFilter cfg) (pg_notDeletedFilter cfg)) f) = Inl e \<longrightarrow> pg_findOne kx cfg f w = (Inl e, w))
   \<and> (\<forall>cs. applyFilter cfg (spread (spread (pg_baseFilter cfg) (pg_notDeletedFilter cfg)) f) = Inr cs \<longrightarrow>
        events (snd (pg_findOne kx cfg f w)) = events w @ [Driver (cfg_table cfg) (SelectFirst [''*''] cs)])
   \<and> (\<forall>e. applyFilter cfg (spread (spread (pg_baseFilter cfg) (pg_notDeletedFilter cfg)) f) = Inl e \<longrightarrow> pg_count kx cfg f w = (Inl e, w))
   \<and> (\<forall>cs. applyFilter cfg (spread (spread (pg_baseFilter cfg) (pg_notDeletedFilter cfg)) f) = Inr cs \<longrightarrow>
        events (snd (pg_count kx cfg f w)) = events w @ [Driver (cfg_table cfg) (CountAll cs)])
   \<and> (\<forall>e. applyFilter cfg (spread (spread (pg_baseFilter cfg) (pg_notDeletedFilter cfg)) f) = Inl e \<longrightarrow> pg_exists kx cfg f w = (Inl e, w))
   \<and> (\<forall>cs. applyFilter cfg (spread (spread (pg_baseFilter cfg) (pg_notDeletedFilter cfg)) f) = Inr cs \<longrightarrow>
        events (snd (pg_exists kx cfg f w)) = events w @ [Driver (cfg_table cfg) (SelectFirst [pg_pk cfg] cs)])
   \<and> (\<forall>e. applyFilter cfg (spread (spread (pg_baseFilter cfg) (pg_notDeletedFilter cfg)) f) = Inl e \<longrightarrow> pg_select kx cfg f field_names w = (Inl e, w))
   \<and> (\<forall>cs. applyFilter cfg (spread (spread (pg_baseFilter cfg) (pg_notDeletedFilter cfg)) f) = Inr cs \<longrightarrow>
        events (snd (pg_select kx cfg f field_names w)) = events w @ [Driver (cfg_table cfg) (Select field_names cs [] None)])
   \<and> (\<forall>e. applyFilter cfg (spread (spread (pg_baseFilter cfg) (pg_notDeletedFilter cfg)) f) = Inl e \<longrightarrow> pg_distinct kx cfg field f w = (Inl e, w))
   \<and> (\<forall>cs. applyFilter cfg (spread (spread (pg_baseFilter cfg) (pg_notDeletedFilter cfg)) f) = Inr cs \<longrightarrow>
        events (snd (pg_distinct kx cfg field f w)) = events w @ [Driver (cfg_table cfg) (SelectDistinct field cs)])
   \<and> (\<forall>e. applyFilter cfg (spread (spread (pg_baseFilter cfg) (pg_notDeletedFilter cfg)) (case po_filter options of None \<Rightarrow> [] | Some g \<Rightarrow> g)) = Inl e \<longrightarrow> pg_findPage kx cfg options w = (Inl e, w))
   \<and> (\<forall>cs order. applyFilter cfg (spread (spread (pg_baseFilter cfg) (pg_notDeletedFilter cfg)) (case po_filter options of None \<Rightarrow> [] | Some g \<Rightarrow> g)) = Inr cs \<and> applySort cfg (po_sort options) = Inr order \<longrightarrow>
        events (snd (pg_findPage kx cfg options w))
          = events w @
            [Driver (cfg_table cfg)
               (Select [''*''] cs order
                  (Some (case po_limit options of None \<Rightarrow> 10 | Some l \<Rightarrow> l,
                         max 0 (((case po_page options of None \<Rightarrow> 1 | Some p \<Rightarrow> p) - 1)
                                  * (case po_limit options of None \<Rightarrow> 10 | Some l \<Rightarrow> l))))),
             Driver (cfg_table cfg) (CountAll cs)])
   \<and> events (snd (mg_findAll model session opts f w))
        = events w @ [Model session (ModelFind (spread f (mg_notDeletedFilter opts)) None None None)]
   \<and> events (snd (mg_findOne model session opts f w))
        = events w @ [Model session (ModelFindOne (spread f (mg_notDeletedFilter opts)) None)]
   \<and> events (snd (mg_count model session opts f w))
        = events w @ [Model session (ModelCountDocuments (spread f (mg_notDeletedFilter opts)))]
   \<and> events (snd (mg_exists model session opts f w))
        = events w @ [Model session (if session then ModelFindOne (spread f (mg_notDeletedFilter opts)) (Some ''_id'') else ModelExists (spread f (mg_notDeletedFilter opts)))]
   \<and> events (snd (mg_select model session opts f field_names w))
        = events w @ [Model session (ModelFind (spread f (mg_notDeletedFilter opts)) None None
               (Some (foldl (\<lambda>acc field. spread acc [(field, VNum 1)]) [] field_names)))]
   \<and> events (snd (mg_distinct model session opts field f w))
        = events w @ [Model session (ModelDistinct field (spread f (mg_notDeletedFilter opts)))]
   \<and> events (snd (mg_findPage model session opts options w))
        = events w @ [Model session (ModelFind (spread (case po_filter options of None \<Rightarrow> [] | Some g \<Rightarrow> g) (mg_notDeletedFilter opts))
               (Some (max 0 (((case po_page options of None \<Rightarrow> 1 | Some p \<Rightarrow> p) - 1)
                        * (case po_limit options of None \<Rightarrow> 10 | Some l \<Rightarrow> l)),
                      case po_limit options of None \<Rightarrow> 10 | Some l \<Rightarrow> l))
               (sort_given (po_sort options)) None),
             Model session (ModelCountDocuments (spread (case po_filter options of None \<Rightarrow> [] | Some g \<Rightarrow> g) (mg_notDeletedFilter opts)))]
   \<and> (mg_softDeleteEnabled opts \<longrightarrow>
        map_of (spread f (mg_notDeletedFilter opts)) (mg_softDeleteField opts) = Some (VObj [(''$eq'', VNull)]))
   \<and> (\<forall>k. k \<noteq> mg_softDeleteField opts \<or> \<not> mg_softDeleteEnabled opts \<longrightarrow>
        map_of (spread f (mg_notDeletedFilter opts)) k = map_of f k)"
proof -
  have c0: "(distinct (map fst f) \<longrightarrow> (\<forall>k \<in> fst ` set f. map_of (spread (spread (pg_baseFilter cfg) (pg_notDeletedFilter cfg)) f) k = map_of f k))"
    by (simp add: map_of_spread_in)
  have c1: "(\<forall>k. k \<notin> fst ` set f \<longrightarrow>
        map_of (spread (spread (pg_baseFilter cfg) (pg_notDeletedFilter cfg)) f) k = map_of (spread (pg_baseFilter cfg) (pg_notDeletedFilter cfg)) k)"
    by (simp add: map_of_spread_notin)
  have c2: "(\<forall>e. applyFilter cfg (spread (spread (pg_baseFilter cfg) (pg_notDeletedFilter cfg)) f) = Inl e \<longrightarrow> pg_findAll kx cfg f w = (Inl e, w))"
    by (simp add: pg_findAll_def Let_def)
  have c3: "(\<forall>cs. applyFilter cfg (spread (spread (pg_baseFilter cfg) (pg_notDeletedFilter cfg)) f) = Inr cs \<longrightarrow>
        events (snd (pg_findAll kx cfg f w)) = events w @ [Driver (cfg_table cfg) (Select [''*''] cs [] None)])"
    by (simp add: pg_findAll_def Let_def kx_run_def split: prod.splits)
  have c4: "(\<forall>e. applyFilter cfg (spread (spread (pg_baseFilter cfg) (pg_notDeletedFilter cfg)) f) = Inl e \<longrightarrow> pg_findOne kx cfg f w = (Inl e, w))"
    by (simp add: pg_findOne_def Let_def)
  have c5: "(\<forall>cs. applyFilter cfg (spread (spread (pg_baseFilter cfg) (pg_notDeletedFilter cfg)) f) = Inr cs \<longrightarrow>
        events (snd (pg_findOne kx cfg f w)) = events w @ [Driver (cfg_table cfg) (SelectFirst [''*''] cs)])"
    by (simp add: pg_findOne_def Let_def kx_run_def split: prod.splits)
  have c6: "(\<forall>e. applyFilter cfg (spread (spread (pg_baseFilter cfg) (pg_notDeletedFilter cfg)) f) = Inl e \<longrightarrow> pg_count kx cfg f w = (Inl e, w))"
    by (simp add: pg_count_def Let_def)
  have c7: "(\<forall>cs. applyFilter cfg (spread (spread (pg_baseFilter cfg) (pg_notDeletedFilter cfg)) f) = Inr cs \<longrightarrow>
        events (snd (pg_count kx cfg f w)) = events w @ [Driver (cfg_table cfg) (CountAll cs)])"
    by (simp add: pg_count_def Let_def kx_run_def split: prod.splits)
  have c8: "(\<forall>e. applyFilter cfg (spread (spread (pg_baseFilter cfg) (pg_notDeletedFilter cfg)) f) = Inl e \<longrightarrow> pg_exists kx cfg f w = (Inl e, w))"
    by (simp add: pg_exists_def Let_def)
  have c9: "(\<forall>cs. applyFilter cfg (spread (spread (pg_baseFilter cfg) (pg_notDeletedFilter cfg)) f) = Inr cs \<longrightarrow>
        events (snd (pg_exists kx cfg f w)) = events w @ [Driver (cfg_table cfg) (SelectFirst [pg_pk cfg] cs)])"
    by (simp add: pg_exists_def Let_def kx_run_def split: prod.splits)
  have c10: "(\<forall>e. applyFilter cfg (spread (spread (pg_baseFilter cfg) (pg_notDeletedFilter cfg)) f) = Inl e \<longrightarrow> pg_select kx cfg f field_names w = (Inl e, w))"
    by (simp add: pg_select_def Let_def)
  have c11: "(\<forall>cs. applyFilter cfg (spread (spread (pg_baseFilter cfg) (pg_notDeletedFilter cfg)) f) = Inr cs \<longrightarrow>
        events (snd (pg_select kx cfg f field_names w)) = events w @ [Driver (cfg_table cfg) (Select field_names cs [] None)])"
    by (simp add: pg_select_def Let_def kx_run_def split: prod.splits)
  have c12: "(\<forall>e. applyFilter cfg (spread (spread (pg_baseFilter cfg) (pg_notDeletedFilter cfg)) f) = Inl e \<longrightarrow> pg_distinct kx cfg field f w = (Inl e, w))"
    by (simp add: pg_distinct_def Let_def)
  have c13: "(\<forall>cs. applyFilter cfg (spread (spread (pg_baseFilter cfg) (pg_notDeletedFilter cfg)) f) = Inr cs \<longrightarrow>
        events (snd (pg_distinct kx cfg field f w)) = events w @ [Driver (cfg_table cfg) (SelectDistinct field cs)])"
    by (simp add: pg_distinct_def Let_def kx_run_def split: prod.splits)
  have c14: "(\<forall>e. applyFilter cfg (spread (spread (pg_baseFilter cfg) (pg_notDeletedFilter cfg)) (case po_filter options of None \<Rightarrow> [] | Some g \<Rightarrow> g)) = Inl e \<longrightarrow> pg_findPage kx cfg options w = (Inl e, w))"
    by (simp add: pg_findPage_def Let_def)
  have c15: "(\<forall>cs order. applyFilter cfg (spread (spread (pg_baseFilter cfg) (pg_notDeletedFilter cfg)) (case po_filter options of None \<Rightarrow> [] | Some g \<Rightarrow> g)) = Inr cs \<and> applySort cfg (po_sort options) = Inr order \<longrightarrow>
        events (snd (pg_findPage kx cfg options w))
          = events w @
            [Driver (cfg_table cfg)
               (Select [''*''] cs order
                  (Some (case po_limit options of None \<Rightarrow> 10 | Some l \<Rightarrow> l,
                         max 0 (((case po_page options of None \<Rightarrow> 1 | Some p \<Rightarrow> p) - 1)
                                  * (case po_limit options of None \<Rightarrow> 10 | Some l \<Rightarrow> l))))),
             Driver (cfg_table cfg) (CountAll cs)])"
    by (simp add: pg_findPage_def Let_def kx_run_def split: prod.splits)
  have c16: "events (snd (mg_findAll model session opts f w))
        = events w @ [Model session (ModelFind (spread f (mg_notDeletedFilter opts)) None None None)]"
    by (simp add: mg_findAll_def Let_def model_run_def split: prod.splits)
  have c17: "events (snd (mg_findOne model session opts f w))
        = events w @ [Model session (ModelFindOne (spread f (mg_notDeletedFilter opts)) None)]"
    by (simp add: mg_findOne_def Let_def model_run_def split: prod.splits)
  have c18: "events (snd (mg_count model session opts f w))
        = events w @ [Model session (ModelCountDocuments (spread f (mg_notDeletedFilter opts)))]"
    by (simp add: mg_count_def Let_def model_run_def split: prod.splits)
  have c19: "events (snd (mg_exists model session opts f w))
        = events w @ [Model session (if session then ModelFindOne (spread f (mg_notDeletedFilter opts)) (Some ''_id'') else ModelExists (spread f (mg_notDeletedFilter opts)))]"
    by (simp add: mg_exists_def Let_def model_run_def split: prod.splits)
  have c20: "events (snd (mg_select model session opts f field_names w))
        = events w @ [Model session (ModelFind (spread f (mg_notDeletedFilter opts)) None None
               (Some (foldl (\<lambda>acc field. spread acc [(field, VNum 1)]) [] field_names)))]"
    by (simp add: mg_select_def Let_def model_run_def split: prod.splits)
  have c21: "events (snd (mg_distinct model session opts field f w))
        = events w @ [Model session (ModelDistinct field (spread f (mg_notDeletedFilter opts)))]"
    by (simp add: mg_distinct_def Let_def model_run_def split: prod.splits)
  have c22: "events (snd (mg_findPage model session opts options w))
        = events w @ [Model session (ModelFind (spread (case po_filter options of None \<Rightarrow> [] | Some g \<Rightarrow> g) (mg_notDeletedFilter opts))
               (Some (max 0 (((case po_page options of None \<Rightarrow> 1 | Some p \<Rightarrow> p) - 1)
                        * (case po_limit options of None \<Rightarrow> 10 | Some l \<Rightarrow> l)),
                      case po_limit options of None \<Rightarrow> 10 | Some l \<Rightarrow> l))
               (sort_given (po_sort options)) None),
             Model session (ModelCountDocuments (spread (case po_filter options of None \<Rightarrow> [] | Some g \<Rightarrow> g) (mg_notDeletedFilter opts)))]"
    by (simp add: mg_findPage_def Let_def model_run_def split: prod.splits)
  have c23: "(mg_softDeleteEnabled opts \<longrightarrow>
        map_of (spread f (mg_notDeletedFilter opts)) (mg_softDeleteField opts) = Some (VObj [(''$eq'', VNull)]))"
    by (simp add: mg_notDeletedFilter_def map_of_set_key)
  have c24: "(\<forall>k. k \<noteq> mg_softDeleteField opts \<or> \<not> mg_softDeleteEnabled opts \<longrightarrow>
        map_of (spread f (mg_notDeletedFilter opts)) k = map_of f k)"
    by (auto simp: mg_notDeletedFilter_def map_of_set_key)
  show ?thesis
    by (intro conjI c0 c1 c2 c3 c4 c5 c6 c7 c8 c9 c10 c11 c12 c13 c14 c15 c16 c17 c18 c19 c20 c21 c22 c23 c24)
qed

theorem filter_merge_precedence_witness:
  "distinct (map fst [(''name'', VStr ''Ann'')])
   \<and> applyFilter (users_cfg\<lparr>cfg_columns := None, cfg_defaultFilter := Some [(''name'', VStr ''Bob'')]\<rparr>)
        [(''name'', VStr ''Ann''), (''deleted_at'', VObj [(''isNull'', VBool True)])]
       = Inr [Where ''name'' (VStr ''Ann''), WhereNull ''deleted_at'']
   \<and> events (snd (pg_findAll idle_kx
        (users_cfg\<lparr>cfg_columns := None, cfg_defaultFilter := Some [(''name'', VStr ''Bob'')]\<rparr>)
        [(''name'', VStr ''Ann'')] empty_world))
       = [Driver ''users'' (Select [''*''] [Where ''name'' (VStr ''Ann''), WhereNull ''deleted_at''] []
            None)]"
proof -
  let ?cfg = "users_cfg\<lparr>cfg_columns := None, cfg_defaultFilter := Some [(''name'', VStr ''Bob'')]\<rparr>"
  have m: "spread (spread (pg_baseFilter ?cfg) (pg_notDeletedFilter ?cfg)) [(''name'', VStr ''Ann'')]
      = [(''name'', VStr ''Ann''), (''deleted_at'', VObj [(''isNull'', VBool True)])]"
    by (simp add: pg_baseFilter_def pg_notDeletedFilter_def pg_softDeleteEnabled_def
        pg_softDeleteField_def users_cfg_def)
  have a: "applyFilter ?cfg [(''name'', VStr ''Ann''), (''deleted_at'', VObj [(''isNull'', VBool True)])]
       = Inr [Where ''name'' (VStr ''Ann''), WhereNull ''deleted_at'']"
    by (simp add: assertFieldAllowed_def pg_allowed_def entry_clauses_def get_prop_def)
  have t: "events (snd (pg_findAll idle_kx ?cfg [(''name'', VStr ''Ann'')] empty_world))
       = events empty_world @ [Driver (cfg_table ?cfg)
            (Select [''*''] [Where ''name'' (VStr ''Ann''), WhereNull ''deleted_at''] [] None)]"
    using filter_merge_precedence [where cfg = ?cfg and f = "[(''name'', VStr ''Ann'')]"
        and kx = idle_kx and w = empty_world, THEN conjunct2, THEN conjunct2, THEN conjunct2,
        THEN conjunct1, rule_format, unfolded m, OF a]
    by simp
  show ?thesis
    using a t by (simp add: empty_world_def users_cfg_def)
qed

text \<open>
  C1 as stated fails on the document backend: a caller filter on the soft-delete field
  is overridden by the injected not-deleted predicate.
\<close>

theorem filter_merge_precedence_counterexample:
  "mg_softDeleteEnabled users_opts
   \<and> map_of only_deleted ''deletedAt'' = Some (VObj [(''$ne'', VNull)])
   \<and> events (snd (mg_findAll idle_model False users_opts only_deleted empty_world))
       = [Model False (ModelFind [(''deletedAt'', VObj [(''$eq'', VNull)])] None None None)]"
  by (simp add: mg_findAll_def mg_notDeletedFilter_def mg_softDeleteEnabled_def
      mg_softDeleteField_def users_opts_def only_deleted_def model_run_def idle_model_def
      empty_world_def)

lemma column_set_key: "column (set_key k v r) k' = (if k' = k then v else column r k')"
  by (simp add: column_def map_of_set_key)

lemma set_key_notin: "k \<notin> fst ` set a \<Longrightarrow> set_key k v a = a @ [(k, v)]"
  by (induction a) auto

lemma set_key_mem: "(k, v) \<in> set (set_key k v a)"
  by (induction a) auto

lemma applyFilter_append:
  "applyFilter cfg (a @ b) =
     (case applyFilter cfg a of
        Inl e \<Rightarrow> Inl e
      | Inr ca \<Rightarrow> (case applyFilter cfg b of Inl e \<Rightarrow> Inl e | Inr cb \<Rightarrow> Inr (ca @ cb)))"
  by (induction a) (auto split: sum.splits)

lemma entry_clauses_column: "c \<in> set (entry_clauses k v) \<Longrightarrow> clause_column c = k"
  by (auto simp: entry_clauses_def split: option.splits if_splits)

lemma applyFilter_columns:
  "applyFilter cfg f = Inr cs \<Longrightarrow> c \<in> set cs \<Longrightarrow> clause_column c \<in> fst ` set f"
proof (induction f arbitrary: cs)
  case Nil
  then show ?case by simp
next
  case (Cons p f)
  obtain k v where p: "p = (k, v)" by (cases p)
  from Cons.prems(1) obtain cs' where cs': "applyFilter cfg f = Inr cs'"
    and cs: "cs = entry_clauses k v @ cs'"
    by (auto simp: p split: sum.splits)
  show ?case
  proof (cases "c \<in> set (entry_clauses k v)")
    case True
    then show ?thesis using entry_clauses_column p by auto
  next
    case False
    then have "c \<in> set cs'" using Cons.prems(2) cs by auto
    then show ?thesis using Cons.IH [OF cs'] by auto
  qed
qed

lemma applyFilter_entry:
  "applyFilter cfg f = Inr cs \<Longrightarrow> (k, v) \<in> set f \<Longrightarrow> set (entry_clauses k v) \<subseteq> set cs"
proof (induction f arbitrary: cs)
  case Nil
  then show ?case by simp
next
  case (Cons p f)
  obtain k' v' where p: "p = (k', v')" by (cases p)
  from Cons.prems(1) obtain cs' where cs': "applyFilter cfg f = Inr cs'"
    and cs: "cs = entry_clauses k' v' @ cs'"
    by (auto simp: p split: sum.splits)
  show ?case
  proof (cases "(k, v) = p")
    case True
    then show ?thesis using cs p by auto
  next
    case False
    then have "(k, v) \<in> set f" using Cons.prems(2) by auto
    then show ?thesis using Cons.IH [OF cs'] cs by auto
  qed
qed

lemma entry_clauses_isNull: "entry_clauses k (VObj [(''isNull'', VBool True)]) = [WhereNull k]"
  by (simp add: entry_clauses_def get_prop_def)

lemma entry_clauses_isNotNull:
  "entry_clauses k (VObj [(''isNotNull'', VBool True)]) = [WhereNotNull k]"
  by (simp add: entry_clauses_def get_prop_def)

lemma clause_holds_frame:
  "clause_column c \<noteq> k \<Longrightarrow> clause_holds sem (set_key k v r) c = clause_holds sem r c"
  by (cases c) (simp_all add: column_set_key)

lemma matches_frame:
  "\<forall>c \<in> set cs. clause_column c \<noteq> k \<Longrightarrow> matches sem cs (set_key k v r) = matches sem cs r"
  by (induction cs) (simp_all add: matches_def clause_holds_frame)

lemma matches_Cons: "matches sem (c # cs) r = (clause_holds sem r c \<and> matches sem cs r)"
  by (simp add: matches_def)

lemma matches_append: "matches sem (a @ b) r = (matches sem a r \<and> matches sem b r)"
  by (simp add: matches_def)

lemma matches_single: "matches sem [c] r = clause_holds sem r c"
  by (simp add: matches_def)

lemma notDeleted_clause:
  assumes "pg_softDeleteEnabled cfg"
    and "applyFilter cfg (spread (pg_baseFilter cfg) (pg_notDeletedFilter cfg)) = Inr cs"
  shows "WhereNull (pg_softDeleteField cfg) \<in> set cs"
proof -
  have "(pg_softDeleteField cfg, VObj [(''isNull'', VBool True)])
      \<in> set (spread (pg_baseFilter cfg) (pg_notDeletedFilter cfg))"
    using assms(1) by (simp add: pg_notDeletedFilter_def set_key_mem)
  from applyFilter_entry [OF assms(2) this] show ?thesis
    by (simp add: entry_clauses_isNull)
qed

lemma map_no_match: "\<forall>r \<in> set st. \<not> P r \<Longrightarrow> map (\<lambda>r. if P r then f r else r) st = st"
  by (induction st) auto

lemma filter_no_match: "\<forall>r \<in> set st. \<not> P r \<Longrightarrow> filter P st = []"
  by (induction st) auto

lemma filter_not_no_match: "\<forall>r \<in> set st. \<not> P r \<Longrightarrow> filter (\<lambda>r. \<not> P r) st = st"
  by (induction st) auto

lemma hooks_keep_store:
  "store (runBeforeDelete cfg i w) = store w" "clock (runBeforeDelete cfg i w) = clock w"
  "store (runAfterDelete cfg b w) = store w"
  by (auto simp: runBeforeDelete_def runAfterDelete_def hook_run_def split: option.splits)

lemma pg_deleteById_no_match:
  assumes wl: "applyFilter cfg (spread (pg_baseFilter cfg) (pg_notDeletedFilter cfg)) = Inr cs"
    and nm: "(\<not> pg_softDeleteEnabled cfg
               \<and> (\<forall>row \<in> set (store w). column row (pg_pk cfg) \<noteq> id_val ident))
             \<or> (pg_softDeleteEnabled cfg
               \<and> (\<forall>row \<in> set (store w). column row (pg_pk cfg) = id_val ident
                      \<longrightarrow> column row (pg_softDeleteField cfg) \<noteq> VNull))"
  shows "fst (pg_deleteById (sql_driver sem) cfg ident w) = Inr False
    \<and> store (snd (pg_deleteById (sql_driver sem) cfg ident w)) = store w"
proof -
  let ?cs = "Where (pg_pk cfg) (id_val ident) # cs"
  have none: "\<forall>row \<in> set (store w). \<not> matches sem ?cs row"
  proof
    fix row assume r': "row \<in> set (store w)"
    show "\<not> matches sem ?cs row"
    proof (cases "pg_softDeleteEnabled cfg")
      case False
      then show ?thesis using nm r' by (auto simp: matches_Cons)
    next
      case True
      have "WhereNull (pg_softDeleteField cfg) \<in> set cs"
        by (rule notDeleted_clause [OF True wl])
      then have "matches sem cs row \<Longrightarrow> column row (pg_softDeleteField cfg) = VNull"
        by (auto simp: matches_def list_all_iff)
      then show ?thesis using nm r' True by (auto simp: matches_Cons)
    qed
  qed
  show ?thesis
    using wl
    by (cases "pg_softDeleteEnabled cfg")
       (simp_all add: pg_deleteById_def Let_def kx_run_def hooks_keep_store
          filter_no_match [OF none] map_no_match [OF none] filter_not_no_match [OF none])
qed

lemma id_val_not_null: "id_val ident \<noteq> VNull"
  by (cases ident) simp_all

lemma project_all: "map (project [''*'']) rows = rows"
  by (induction rows) (simp_all add: project_def)

lemma first_row_take:
  "first_row (Rows (take (Suc 0) xs)) = (case xs of [] \<Rightarrow> None | r # _ \<Rightarrow> Some r)"
  by (cases xs) (simp_all add: first_row_def)

lemma pg_findById_sql:
  assumes "applyFilter cfg (spread (pg_baseFilter cfg) (pg_notDeletedFilter cfg)) = Inr cs"
  shows "fst (pg_findById (sql_driver sem) cfg ident w)
    = Inr (case filter (matches sem (Where (pg_pk cfg) (id_val ident) # cs)) (store w) of
             [] \<Rightarrow> None | r # _ \<Rightarrow> Some r)"
  using assms
  by (simp add: pg_findById_def Let_def kx_run_def project_all first_row_take)

lemma pg_softDelete_sql:
  assumes "applyFilter cfg (spread (pg_baseFilter cfg) (pg_notDeletedFilter cfg)) = Inr cs"
  shows "fst (pg_softDelete (sql_driver sem) cfg ident w)
      = Inr (filter (matches sem (Where (pg_pk cfg) (id_val ident) # cs)) (store w) \<noteq> [])"
    and "store (snd (pg_softDelete (sql_driver sem) cfg ident w))
      = map (\<lambda>row. if matches sem (Where (pg_pk cfg) (id_val ident) # cs) row
                    then set_key (pg_softDeleteField cfg) (VDate (clock w)) row else row)
          (store w)"
  using assms by (simp_all add: pg_softDelete_def Let_def kx_run_def)

lemma pg_restore_sql:
  assumes "applyFilter cfg (spread (pg_baseFilter cfg) (pg_deletedFilter cfg)) = Inr cs"
  shows "fst (pg_restore (sql_driver sem) cfg ident w)
      = Inr (case filter (matches sem (Where (pg_pk cfg) (id_val ident) # cs)) (store w) of
               [] \<Rightarrow> None
             | r # _ \<Rightarrow> Some (set_key (pg_softDeleteField cfg) VNull r))"
    and "store (snd (pg_restore (sql_driver sem) cfg ident w))
      = map (\<lambda>row. if matches sem (Where (pg_pk cfg) (id_val ident) # cs) row
                    then set_key (pg_softDeleteField cfg) VNull row else row)
          (store w)"
  using assms
  by (simp_all add: pg_restore_def Let_def kx_run_def first_row_def split: list.splits)

lemma pg_findAllWithDeleted_sql:
  assumes "applyFilter cfg (pg_baseFilter cfg) = Inr cb"
  shows "fst (pg_findAllWithDeleted (sql_driver sem) cfg [] w)
      = Inr (filter (matches sem cb) (store w))"
  using assms
  by (simp add: pg_findAllWithDeleted_def Let_def kx_run_def project_all paginate_def)

lemma filter_nonempty: "filter P xs \<noteq> [] \<longleftrightarrow> (\<exists>x \<in> set xs. P x)"
  by (induction xs) auto

lemma pg_soft_delete_round_trip:
  assumes en: "pg_softDeleteEnabled cfg"
    and nk: "pg_softDeleteField cfg \<notin> fst ` set (pg_baseFilter cfg)"
    and w1: "w1 = snd (pg_create (sql_driver sem) cfg data w0)"
    and vis: "fst (pg_findById (sql_driver sem) cfg ident w1) = Inr (Some x)"
    and w2: "w2 = snd (pg_softDelete (sql_driver sem) cfg ident w1)"
    and w3: "w3 = snd (pg_restore (sql_driver sem) cfg ident w2)"
  shows "fst (pg_softDelete (sql_driver sem) cfg ident w1) = Inr True
    \<and> fst (pg_findById (sql_driver sem) cfg ident w2) = Inr None
    \<and> (\<exists>y. fst (pg_restore (sql_driver sem) cfg ident w2) = Inr (Some y))
    \<and> (\<exists>z. fst (pg_findById (sql_driver sem) cfg ident w3) = Inr (Some z))
    \<and> (\<forall>w \<in> {w1, w2, w3}. \<exists>rows.
          fst (pg_findAllWithDeleted (sql_driver sem) cfg [] w) = Inr rows
          \<and> (\<exists>row \<in> set rows. column row (pg_pk cfg) = id_val ident))"
proof -
  define sdf where "sdf = pg_softDeleteField cfg"
  define pk where "pk = pg_pk cfg"
  define base where "base = pg_baseFilter cfg"
  have nd: "spread base (pg_notDeletedFilter cfg) = base @ [(sdf, VObj [(''isNull'', VBool True)])]"
    using en nk by (simp add: pg_notDeletedFilter_def set_key_notin sdf_def base_def)
  have dl: "spread base (pg_deletedFilter cfg) = base @ [(sdf, VObj [(''isNotNull'', VBool True)])]"
    using nk by (simp add: pg_deletedFilter_def set_key_notin sdf_def base_def)
  obtain cs where cs: "applyFilter cfg (spread base (pg_notDeletedFilter cfg)) = Inr cs"
    using vis by (cases "applyFilter cfg (spread base (pg_notDeletedFilter cfg))")
      (simp_all add: pg_findById_def Let_def base_def)
  from cs obtain cb where cb: "applyFilter cfg base = Inr cb"
    and ok: "assertFieldAllowed cfg sdf = Inr ()"
    and cs_eq: "cs = cb @ [WhereNull sdf]"
    unfolding nd applyFilter_append
    by (auto simp: entry_clauses_isNull split: sum.splits)
  have cs': "applyFilter cfg (spread base (pg_deletedFilter cfg)) = Inr (cb @ [WhereNotNull sdf])"
    unfolding dl applyFilter_append using cb ok by (simp add: entry_clauses_isNotNull)
  have frame: "\<forall>c \<in> set cb. clause_column c \<noteq> sdf"
  proof
    fix c assume "c \<in> set cb"
    then have "clause_column c \<in> fst ` set base"
      by (rule applyFilter_columns [OF cb])
    moreover have "sdf \<notin> fst ` set base"
      using nk by (simp add: sdf_def base_def)
    ultimately show "clause_column c \<noteq> sdf"
      by metis
  qed
  define P where "P r \<longleftrightarrow> column r pk = id_val ident \<and> matches sem cb r \<and> column r sdf = VNull" for r
  define Q where "Q r \<longleftrightarrow> column r pk = id_val ident \<and> matches sem cb r \<and> column r sdf \<noteq> VNull" for r
  have P: "matches sem (Where pk (id_val ident) # cs) = P"
    by (rule ext) (auto simp: P_def cs_eq matches_def)
  have Q: "matches sem (Where pk (id_val ident) # cb @ [WhereNotNull sdf]) = Q"
    by (rule ext) (auto simp: Q_def matches_def)
  define S1 where "S1 = store w1"
  define c where "c = clock w1"
  define S2 where "S2 = map (\<lambda>row. if P row then set_key sdf (VDate c) row else row) S1"
  define S3 where "S3 = map (\<lambda>row. if Q row then set_key sdf VNull row else row) S2"
  have st2: "store w2 = S2"
    unfolding w2 S2_def S1_def c_def
    using pg_softDelete_sql(2) [OF cs [unfolded base_def], of sem ident w1] P
    by (simp add: pk_def sdf_def)
  have st3: "store w3 = S3"
    unfolding w3 S3_def
    using pg_restore_sql(2) [OF cs' [unfolded base_def], of sem ident w2] Q st2
    by (simp add: pk_def sdf_def)
  have "filter P S1 \<noteq> []"
    using vis pg_findById_sql [OF cs [unfolded base_def], of sem ident w1] P
    by (auto simp: pk_def S1_def split: list.splits)
  then obtain r where r: "r \<in> set S1" "P r"
    by (auto simp: filter_nonempty)
  have pk_sdf: "pk \<noteq> sdf"
    using r(2) id_val_not_null [of ident] by (auto simp: P_def)
  define r' where "r' = set_key sdf (VDate c) r"
  define r'' where "r'' = set_key sdf VNull r'"
  have r'_in: "r' \<in> set S2"
    unfolding S2_def r'_def using r by force
  have Qr': "Q r'"
    using r(2) pk_sdf frame
    by (simp add: Q_def P_def r'_def column_set_key matches_frame)
  have r''_in: "r'' \<in> set S3"
    unfolding S3_def r''_def using r'_in Qr' by force
  have Pr'': "P r''"
    using Qr' pk_sdf frame
    by (simp add: Q_def P_def r''_def column_set_key matches_frame)
  have noP2: "\<forall>row \<in> set S2. \<not> P row"
    unfolding S2_def by (auto simp: P_def column_set_key)
  have a: "fst (pg_softDelete (sql_driver sem) cfg ident w1) = Inr True"
    using pg_softDelete_sql(1) [OF cs [unfolded base_def], of sem ident w1] P r
    by (auto simp: pk_def S1_def filter_nonempty)
  have b: "fst (pg_findById (sql_driver sem) cfg ident w2) = Inr None"
    using pg_findById_sql [OF cs [unfolded base_def], of sem ident w2] P st2
      filter_no_match [OF noP2]
    by (simp add: pk_def)
  have "filter Q S2 \<noteq> []"
    using r'_in Qr' by (auto simp: filter_nonempty)
  then have d: "\<exists>y. fst (pg_restore (sql_driver sem) cfg ident w2) = Inr (Some y)"
    using pg_restore_sql(1) [OF cs' [unfolded base_def], of sem ident w2] Q st2
    by (auto simp: pk_def sdf_def split: list.splits)
  have "filter P S3 \<noteq> []"
    using r''_in Pr'' by (auto simp: filter_nonempty)
  then have e: "\<exists>z. fst (pg_findById (sql_driver sem) cfg ident w3) = Inr (Some z)"
    using pg_findById_sql [OF cs [unfolded base_def], of sem ident w3] P st3
    by (auto simp: pk_def split: list.splits)
  have fa: "fst (pg_findAllWithDeleted (sql_driver sem) cfg [] w)
      = Inr (filter (matches sem cb) (store w))" for w
    by (rule pg_findAllWithDeleted_sql [OF cb [unfolded base_def]])
  have f1: "\<exists>row \<in> set (filter (matches sem cb) (store w1)). column row (pg_pk cfg) = id_val ident"
    using r by (auto simp: P_def S1_def pk_def)
  have f2: "\<exists>row \<in> set (filter (matches sem cb) (store w2)). column row (pg_pk cfg) = id_val ident"
    using r'_in Qr' st2 by (auto simp: Q_def pk_def)
  have f3: "\<exists>row \<in> set (filter (matches sem cb) (store w3)). column row (pg_pk cfg) = id_val ident"
    using r''_in Pr'' st3 by (auto simp: P_def pk_def)
  have f: "\<forall>w \<in> {w1, w2, w3}. \<exists>rows.
          fst (pg_findAllWithDeleted (sql_driver sem) cfg [] w) = Inr rows
          \<and> (\<exists>row \<in> set rows. column row (pg_pk cfg) = id_val ident)"
    using f1 f2 f3 by (simp add: fa)
  show ?thesis
    by (intro conjI a b d e f)
qed

lemmas cfg_simps =
  users_cfg_def open_cfg_def hard_cfg_def self_filtered_cfg_def pg_pk_def pg_allowed_def
  pg_baseFilter_def pg_softDeleteEnabled_def pg_softDeleteField_def pg_timestampsEnabled_def
  pg_notDeletedFilter_def pg_deletedFilter_def assertFieldAllowed_def entry_clauses_def
  get_prop_def

lemmas run_simps =
  kx_run_def plain_sql_def matches_def column_def project_def paginate_def first_row_def
  hook_run_def empty_world_def ann_def deleted_ann_world_def Let_def

lemma store_ann_created: "store ann_created = [ann]" "clock ann_created = 42"
  by (simp_all add: ann_created_def pg_create_def runBeforeCreate_def runAfterCreate_def
      pg_addCreatedAt_def cfg_simps run_simps)

lemma store_sf_created: "store sf_created = [ann]" "clock sf_created = 42"
  by (simp_all add: sf_created_def pg_create_def runBeforeCreate_def runAfterCreate_def
      pg_addCreatedAt_def cfg_simps run_simps)

lemma store_sf_deleted:
  "store sf_deleted = [[(''id'', VNum 1), (''name'', VStr ''Ann''), (''deleted_at'', VDate 42)]]"
  by (simp add: sf_deleted_def pg_softDelete_def store_sf_created cfg_simps run_simps)

lemma update_first_no_match: "\<forall>x \<in> set xs. \<not> P x \<Longrightarrow> update_first P f xs = xs"
  by (induction xs) auto

lemma remove_first_no_match: "\<forall>x \<in> set xs. \<not> P x \<Longrightarrow> remove_first P xs = xs"
  by (induction xs) auto

lemma update_first_unique:
  "distinct (map g xs) \<Longrightarrow> (\<And>x. P x \<Longrightarrow> g x = a)
    \<Longrightarrow> update_first P f xs = map (\<lambda>x. if P x then f x else x) xs"
proof (induction xs)
  case Nil
  then show ?case by simp
next
  case (Cons x xs)
  show ?case
  proof (cases "P x")
    case True
    have "\<forall>y \<in> set xs. \<not> P y"
    proof
      fix y assume y: "y \<in> set xs"
      show "\<not> P y"
      proof
        assume "P y"
        then have "g y = g x" using Cons.prems(2) True by simp
        moreover have "g x \<notin> g ` set xs" using Cons.prems(1) by simp
        ultimately show False using y by (metis imageI)
      qed
    qed
    then show ?thesis using True by (simp add: map_no_match)
  next
    case False
    then show ?thesis using Cons by simp
  qed
qed

lemma id_val_scalar:
  "scalar (id_val ident)" "id_val ident \<noteq> VObj b"
  by (cases ident; simp)+

lemma map_of_unset: "map_of (unset_keys [(k, v)] doc) k' = (if k' = k then None else map_of doc k')"
  by (induction doc) (auto simp: unset_keys_def)

lemma mg_findById_filter:
  "mg_softDeleteEnabled opts \<Longrightarrow> mg_softDeleteField opts \<noteq> ''_id'' \<Longrightarrow>
   doc_matches sem (spread [(''_id'', id_val ident)] (mg_notDeletedFilter opts)) doc
     = (map_of doc ''_id'' = Some (id_val ident) \<and> nullish (map_of doc (mg_softDeleteField opts)))"
  by (auto simp: mg_notDeletedFilter_def doc_matches_def cond_holds_def id_val_scalar)

lemma mg_findById_filter_self:
  "mg_softDeleteEnabled opts \<Longrightarrow> mg_softDeleteField opts = ''_id'' \<Longrightarrow>
   doc_matches sem (spread [(''_id'', id_val ident)] (mg_notDeletedFilter opts)) doc
     = nullish (map_of doc ''_id'')"
  by (auto simp: mg_notDeletedFilter_def doc_matches_def cond_holds_def)

lemma mg_restore_filter:
  "sdf \<noteq> ''_id'' \<Longrightarrow>
   doc_matches sem (spread [(''_id'', id_val ident)] [(sdf, VObj [(''$ne'', VNull)])]) doc
     = (map_of doc ''_id'' = Some (id_val ident) \<and> \<not> nullish (map_of doc sdf))"
  by (auto simp: doc_matches_def cond_holds_def id_val_scalar)

lemma valid_collection_ids:
  "valid_collection st \<Longrightarrow> doc \<in> set st \<Longrightarrow> \<not> nullish (map_of doc ''_id'')"
  by (auto simp: valid_collection_def list_all_iff)

lemma mg_deleteById_no_match:
  assumes vc: "valid_collection (store w)"
    and nm: "(\<not> mg_softDeleteEnabled opts
               \<and> (\<forall>doc \<in> set (store w). map_of doc ''_id'' \<noteq> Some (id_val ident)))
             \<or> (mg_softDeleteEnabled opts
               \<and> (\<forall>doc \<in> set (store w). map_of doc ''_id'' = Some (id_val ident)
                      \<longrightarrow> \<not> nullish (map_of doc (mg_softDeleteField opts))))"
  shows "fst (mg_deleteById (mongo_driver sem) session opts ident w) = Inr False
    \<and> store (snd (mg_deleteById (mongo_driver sem) session opts ident w)) = store w"
proof (cases "mg_softDeleteEnabled opts")
  case False
  then have none: "\<forall>doc \<in> set (store w). \<not> (map_of doc ''_id'' = Some (id_val ident))"
    using nm by auto
  show ?thesis
    using False
    by (simp add: mg_deleteById_def model_run_def first_row_def
        filter_no_match [OF none] remove_first_no_match [OF none])
next
  case True
  let ?F = "spread [(''_id'', id_val ident)] (mg_notDeletedFilter opts)"
  have none: "\<forall>doc \<in> set (store w). \<not> doc_matches sem ?F doc"
  proof
    fix doc assume d: "doc \<in> set (store w)"
    show "\<not> doc_matches sem ?F doc"
    proof (cases "mg_softDeleteField opts = ''_id''")
      case self: True
      show ?thesis
        using valid_collection_ids [OF vc d]
        by (simp add: mg_findById_filter_self [OF True self])
    next
      case other: False
      show ?thesis
        using nm True d by (auto simp: mg_findById_filter [OF True other])
    qed
  qed
  show ?thesis
    using True
    by (simp add: mg_deleteById_def Let_def model_run_def
        filter_no_match [OF none] update_first_no_match [OF none])
qed

lemma projected_none: "map (projected None) docs = docs"
  by (induction docs) (simp_all add: projected_def)

lemma map_of_set_key_other: "k' \<noteq> k \<Longrightarrow> map_of (set_key k v doc) k' = map_of doc k'"
  by (simp add: map_of_set_key)

lemma filter_empty_no_match: "filter P xs = [] \<Longrightarrow> \<forall>x \<in> set xs. \<not> P x"
  by (induction xs) (auto split: if_splits)

lemma mg_softDelete_run:
  "fst (mg_softDelete (mongo_driver sem) session opts ident w)
     = Inr (filter (\<lambda>doc. apply_update [(mg_softDeleteField opts, VDate (clock w))] doc \<noteq> doc)
              (take 1 (filter (doc_matches sem
                 (spread [(''_id'', id_val ident)] (mg_notDeletedFilter opts))) (store w))) \<noteq> [])"
  "store (snd (mg_softDelete (mongo_driver sem) session opts ident w))
     = update_first (doc_matches sem (spread [(''_id'', id_val ident)] (mg_notDeletedFilter opts)))
         (apply_update [(mg_softDeleteField opts, VDate (clock w))]) (store w)"
  by (simp_all add: mg_softDelete_def Let_def model_run_def
      del: spread.simps set_key.simps apply_update.simps)

lemma mg_restore_run:
  "fst (mg_restore (mongo_driver sem) session opts ident w)
     = Inr (case filter (doc_matches sem (spread [(''_id'', id_val ident)]
                  [(mg_softDeleteField opts, VObj [(''$ne'', VNull)])])) (store w) of
              [] \<Rightarrow> None
            | doc # _ \<Rightarrow>
                Some (apply_update [(''$unset'', VObj [(mg_softDeleteField opts, VNum 1)])] doc))"
  "store (snd (mg_restore (mongo_driver sem) session opts ident w))
     = update_first (doc_matches sem (spread [(''_id'', id_val ident)]
                  [(mg_softDeleteField opts, VObj [(''$ne'', VNull)])]))
         (apply_update [(''$unset'', VObj [(mg_softDeleteField opts, VNum 1)])]) (store w)"
  by (auto simp add: mg_restore_def Let_def model_run_def first_row_def
      update_first_no_match [OF filter_empty_no_match]
      simp del: spread.simps set_key.simps apply_update.simps split: list.splits)

lemma mg_soft_delete_round_trip:
  assumes en: "mg_softDeleteEnabled opts"
    and vc: "valid_collection (store w1)"
    and vis: "fst (mg_findById (mongo_driver sem) session opts ident w1) = Inr (Some x)"
    and w2: "w2 = snd (mg_softDelete (mongo_driver sem) session opts ident w1)"
    and w3: "w3 = snd (mg_restore (mongo_driver sem) session opts ident w2)"
  shows "fst (mg_softDelete (mongo_driver sem) session opts ident w1) = Inr True
    \<and> fst (mg_findById (mongo_driver sem) session opts ident w2) = Inr None
    \<and> (\<exists>y. fst (mg_restore (mongo_driver sem) session opts ident w2) = Inr (Some y))
    \<and> (\<exists>z. fst (mg_findById (mongo_driver sem) session opts ident w3) = Inr (Some z))
    \<and> (\<forall>w \<in> {w1, w2, w3}. \<exists>docs.
          fst (mg_findAllWithDeleted (mongo_driver sem) session opts [] w) = Inr docs
          \<and> (\<exists>doc \<in> set docs. map_of doc ''_id'' = Some (id_val ident)))
    \<and> (\<forall>doc \<in> set (store w2). map_of doc ''_id'' = Some (id_val ident)
          \<longrightarrow> \<not> nullish (map_of doc (mg_softDeleteField opts)))"
proof -
  define sdf where "sdf = mg_softDeleteField opts"
  define F where "F = spread [(''_id'', id_val ident)] (mg_notDeletedFilter opts)"
  define FR where "FR = spread [(''_id'', id_val ident)] [(sdf, VObj [(''$ne'', VNull)])]"
  define g where "g doc = map_of doc ''_id''" for doc :: obj
  define S1 where "S1 = store w1"
  define c where "c = clock w1"
  have find: "fst (mg_findById (mongo_driver sem) session opts ident w)
      = Inr (case filter (doc_matches sem F) (store w) of [] \<Rightarrow> None | d # _ \<Rightarrow> Some d)" for w
    by (simp add: mg_findById_def Let_def model_run_def F_def projected_none first_row_def
        split: list.splits)
  have vis': "filter (doc_matches sem F) S1 \<noteq> []"
    using vis find [of w1] by (auto simp: S1_def)
  have other: "sdf \<noteq> ''_id''"
  proof
    assume self: "sdf = ''_id''"
    have "\<forall>doc \<in> set S1. \<not> doc_matches sem F doc"
      using valid_collection_ids [OF vc]
      by (simp add: F_def S1_def mg_findById_filter_self [OF en self [unfolded sdf_def]])
    then show False using vis' by (simp add: filter_no_match)
  qed
  define P where "P doc \<longleftrightarrow> g doc = Some (id_val ident) \<and> nullish (map_of doc sdf)" for doc
  define Q where "Q doc \<longleftrightarrow> g doc = Some (id_val ident) \<and> \<not> nullish (map_of doc sdf)" for doc
  have P: "doc_matches sem F = P"
  proof (rule ext)
    fix doc show "doc_matches sem F doc = P doc"
      unfolding F_def P_def g_def sdf_def
      by (rule mg_findById_filter [OF en other [unfolded sdf_def]])
  qed
  have Q: "doc_matches sem FR = Q"
  proof (rule ext)
    fix doc show "doc_matches sem FR doc = Q doc"
      unfolding FR_def Q_def g_def
      by (rule mg_restore_filter [OF other])
  qed
  define upd1 where "upd1 = set_key sdf (VDate c)"
  define upd2 where "upd2 = unset_keys [(sdf, VNum 1)]"
  have u1: "apply_update [(sdf, VDate c)] = upd1"
    by (rule ext) (simp add: upd1_def)
  have u2: "apply_update [(''$unset'', VObj [(sdf, VNum 1)])] = upd2"
    by (rule ext) (simp add: upd2_def)
  have g1: "g (upd1 doc) = g doc" for doc
    using other by (simp add: g_def upd1_def map_of_set_key)
  have g2: "g (upd2 doc) = g doc" for doc
    using other by (simp add: g_def upd2_def map_of_unset)
  have s1: "map_of (upd1 doc) sdf = Some (VDate c)" for doc
    by (simp add: upd1_def map_of_set_key)
  have s2: "map_of (upd2 doc) sdf = None" for doc
    by (simp add: upd2_def map_of_unset)
  define S2 where "S2 = map (\<lambda>doc. if P doc then upd1 doc else doc) S1"
  define S3 where "S3 = map (\<lambda>doc. if Q doc then upd2 doc else doc) S2"
  have geq: "g = (\<lambda>doc. map_of doc ''_id'')"
    by (rule ext) (simp add: g_def)
  have d1: "distinct (map g S1)"
    using vc by (simp add: valid_collection_def S1_def geq)
  have "map g S2 = map g S1"
    by (simp add: S2_def g1 comp_def)
  then have d2: "distinct (map g S2)"
    using d1 by simp
  note sd = mg_softDelete_run [of sem session opts ident w1, folded F_def sdf_def c_def S1_def,
      unfolded u1 P]
  have st2: "store w2 = S2"
    unfolding w2 S2_def sd(2)
    by (rule update_first_unique [OF d1, of P "Some (id_val ident)" upd1]) (simp add: P_def)
  obtain d where d: "d \<in> set S1" "P d"
    using vis' P by (auto simp: filter_nonempty)
  define d' where "d' = upd1 d"
  define d'' where "d'' = upd2 d'"
  have d'_in: "d' \<in> set S2"
    unfolding S2_def d'_def using d by force
  have Qd': "Q d'"
    using d(2) by (simp add: Q_def P_def d'_def g1 s1 nullish_def)
  have noP2: "\<forall>doc \<in> set S2. \<not> P doc"
    unfolding S2_def by (auto simp: P_def s1 nullish_def)
  note rs = mg_restore_run [of sem session opts ident w2, folded sdf_def, folded FR_def,
      unfolded u2 Q st2]
  have st3: "store w3 = S3"
    unfolding w3 S3_def rs(2)
    by (rule update_first_unique [OF d2, of Q "Some (id_val ident)" upd2]) (simp add: Q_def)
  have d''_in: "d'' \<in> set S3"
    unfolding S3_def d''_def using d'_in Qd' by force
  have Pd'': "P d''"
    using Qd' by (simp add: Q_def P_def d''_def g2 s2 nullish_def)
  have changed: "upd1 doc \<noteq> doc" if "P doc" for doc
  proof
    assume "upd1 doc = doc"
    then have "map_of doc sdf = Some (VDate c)" using s1 [of doc] by simp
    then show False using that by (simp add: P_def nullish_def)
  qed
  have a: "fst (mg_softDelete (mongo_driver sem) session opts ident w1) = Inr True"
  proof -
    obtain d0 rest where f: "filter P S1 = d0 # rest"
      using vis' P by (cases "filter P S1") auto
    then have "d0 \<in> set (filter P S1)" by simp
    then have "P d0" by simp
    then show ?thesis
      using f changed [of d0] unfolding sd(1) by simp
  qed
  have b: "fst (mg_findById (mongo_driver sem) session opts ident w2) = Inr None"
    using find [of w2] P st2 filter_no_match [OF noP2] by simp
  have "filter Q S2 \<noteq> []"
    using d'_in Qd' by (auto simp: filter_nonempty)
  then have e: "\<exists>y. fst (mg_restore (mongo_driver sem) session opts ident w2) = Inr (Some y)"
    unfolding rs(1) by (auto split: list.splits)
  have "filter P S3 \<noteq> []"
    using d''_in Pd'' by (auto simp: filter_nonempty)
  then have h: "\<exists>z. fst (mg_findById (mongo_driver sem) session opts ident w3) = Inr (Some z)"
    using find [of w3] P st3 by (auto split: list.splits)
  have fa: "fst (mg_findAllWithDeleted (mongo_driver sem) session opts [] w) = Inr (store w)" for w
    by (simp add: mg_findAllWithDeleted_def model_run_def doc_matches_def skip_limit_def
        projected_none)
  have f1: "\<exists>doc \<in> set (store w1). map_of doc ''_id'' = Some (id_val ident)"
    using d by (auto simp: P_def S1_def g_def)
  have f2: "\<exists>doc \<in> set (store w2). map_of doc ''_id'' = Some (id_val ident)"
    using d'_in Qd' st2 by (auto simp: Q_def g_def)
  have f3: "\<exists>doc \<in> set (store w3). map_of doc ''_id'' = Some (id_val ident)"
    using d''_in Pd'' st3 by (auto simp: P_def g_def)
  have f: "\<forall>w \<in> {w1, w2, w3}. \<exists>docs.
          fst (mg_findAllWithDeleted (mongo_driver sem) session opts [] w) = Inr docs
          \<and> (\<exists>doc \<in> set docs. map_of doc ''_id'' = Some (id_val ident))"
    using f1 f2 f3 by (simp add: fa)
  have k: "\<forall>doc \<in> set (store w2). map_of doc ''_id'' = Some (id_val ident)
          \<longrightarrow> \<not> nullish (map_of doc (mg_softDeleteField opts))"
    using noP2 by (simp add: st2 P_def g_def sdf_def)
  show ?thesis
    by (intro conjI a b e h f k)
qed

text \<open>
  C8 (amended). \<open>deleteById\<close> returns false, raises nothing and leaves the stored
  records as they were when nothing matches: with soft delete disabled when no record
  has the id, and with soft delete enabled when every record with the id is already
  soft-deleted, because the injected not-deleted predicate excludes it from the update.
  On the relational backend this holds when the merged default and not-deleted filter
  passes the column whitelist; on the document backend for a collection whose documents
  have distinct, non-null \<open>_id\<close>s.
\<close>

theorem deleteById_no_match:
  "(applyFilter cfg (spread (pg_baseFilter cfg) (pg_notDeletedFilter cfg)) = Inr cs
      \<and> ((\<not> pg_softDeleteEnabled cfg
             \<and> (\<forall>row \<in> set (store w). column row (pg_pk cfg) \<noteq> id_val ident))
          \<or> (pg_softDeleteEnabled cfg
             \<and> (\<forall>row \<in> set (store w). column row (pg_pk cfg) = id_val ident
                    \<longrightarrow> column row (pg_softDeleteField cfg) \<noteq> VNull)))
      \<longrightarrow> fst (pg_deleteById (sql_driver sem) cfg ident w) = Inr False
        \<and> store (snd (pg_deleteById (sql_driver sem) cfg ident w)) = store w)
   \<and> (valid_collection (store v)
      \<and> ((\<not> mg_softDeleteEnabled opts
             \<and> (\<forall>doc \<in> set (store v). map_of doc ''_id'' \<noteq> Some (id_val ident)))
          \<or> (mg_softDeleteEnabled opts
             \<and> (\<forall>doc \<in> set (store v). map_of doc ''_id'' = Some (id_val ident)
                    \<longrightarrow> \<not> nullish (map_of doc (mg_softDeleteField opts)))))
      \<longrightarrow> fst (mg_deleteById (mongo_driver msem) session opts ident v) = Inr False
        \<and> store (snd (mg_deleteById (mongo_driver msem) session opts ident v)) = store v)"
  using pg_deleteById_no_match [of cfg cs w ident sem]
    mg_deleteById_no_match [of v opts ident msem session]
  by blast

lemma store_doc_created: "store doc_created = [ann_doc]" "clock doc_created = 42"
  by (simp_all add: doc_created_def mg_create_def mg_addCreatedAt_def mg_timestampsEnabled_def
      soft_opts_def users_opts_def model_run_def plain_mongo_def empty_world_def Let_def)

lemma store_doc_deleted:
  "store doc_deleted
     = [[(''_id'', VStr ''a1''), (''name'', VStr ''Ann''), (''deletedAt'', VDate 42)]]"
  by (simp add: doc_deleted_def mg_softDelete_def store_doc_created mg_notDeletedFilter_def
      mg_softDeleteEnabled_def mg_softDeleteField_def soft_opts_def users_opts_def model_run_def
      doc_matches_def cond_holds_def nullish_def ann_doc_def Let_def)

theorem deleteById_no_match_witness:
  "applyFilter open_cfg (spread (pg_baseFilter open_cfg) (pg_notDeletedFilter open_cfg))
     = Inr [WhereNull ''deleted_at'']
   \<and> pg_softDeleteEnabled open_cfg
   \<and> fst (pg_deleteById (sql_driver plain_sql) open_cfg (IdNumber 1) deleted_ann_world) = Inr False
   \<and> applyFilter hard_cfg (spread (pg_baseFilter hard_cfg) (pg_notDeletedFilter hard_cfg)) = Inr []
   \<and> \<not> pg_softDeleteEnabled hard_cfg
   \<and> fst (pg_deleteById (sql_driver plain_sql) hard_cfg (IdNumber 2) deleted_ann_world) = Inr False
   \<and> valid_collection (store doc_deleted)
   \<and> mg_softDeleteEnabled soft_opts
   \<and> fst (mg_deleteById (mongo_driver plain_mongo) False soft_opts (IdString ''a1'') doc_deleted)
       = Inr False
   \<and> \<not> mg_softDeleteEnabled hard_opts
   \<and> fst (mg_deleteById (mongo_driver plain_mongo) False hard_opts (IdString ''zz'') doc_deleted)
       = Inr False"
proof -
  have a1: "applyFilter open_cfg (spread (pg_baseFilter open_cfg) (pg_notDeletedFilter open_cfg))
     = Inr [WhereNull ''deleted_at'']"
    by (simp add: cfg_simps)
  have a2: "pg_softDeleteEnabled open_cfg"
    by (simp add: cfg_simps)
  have a3: "\<forall>row \<in> set (store deleted_ann_world). column row (pg_pk open_cfg) = id_val (IdNumber 1)
          \<longrightarrow> column row (pg_softDeleteField open_cfg) \<noteq> VNull"
    by (simp add: cfg_simps run_simps)
  have b1: "applyFilter hard_cfg (spread (pg_baseFilter hard_cfg) (pg_notDeletedFilter hard_cfg))
     = Inr []"
    by (simp add: cfg_simps)
  have b2: "\<not> pg_softDeleteEnabled hard_cfg"
    by (simp add: cfg_simps)
  have b3: "\<forall>row \<in> set (store deleted_ann_world). column row (pg_pk hard_cfg) \<noteq> id_val (IdNumber 2)"
    by (simp add: cfg_simps run_simps)
  have vc: "valid_collection (store doc_deleted)"
    by (simp add: store_doc_deleted valid_collection_def nullish_def)
  have c2: "mg_softDeleteEnabled soft_opts"
    by (simp add: mg_softDeleteEnabled_def soft_opts_def users_opts_def)
  have c3: "\<forall>doc \<in> set (store doc_deleted). map_of doc ''_id'' = Some (id_val (IdString ''a1''))
          \<longrightarrow> \<not> nullish (map_of doc (mg_softDeleteField soft_opts))"
    by (simp add: store_doc_deleted nullish_def mg_softDeleteField_def soft_opts_def users_opts_def)
  have d2: "\<not> mg_softDeleteEnabled hard_opts"
    by (simp add: mg_softDeleteEnabled_def hard_opts_def users_opts_def)
  have d3: "\<forall>doc \<in> set (store doc_deleted). map_of doc ''_id'' \<noteq> Some (id_val (IdString ''zz''))"
    by (simp add: store_doc_deleted)
  have a: "fst (pg_deleteById (sql_driver plain_sql) open_cfg (IdNumber 1) deleted_ann_world)
      = Inr False"
    using deleteById_no_match [of open_cfg "[WhereNull ''deleted_at'']" deleted_ann_world
        "IdNumber 1" plain_sql, THEN conjunct1] a1 a2 a3
    by blast
  have b: "fst (pg_deleteById (sql_driver plain_sql) hard_cfg (IdNumber 2) deleted_ann_world)
      = Inr False"
    using deleteById_no_match [of hard_cfg "[]" deleted_ann_world "IdNumber 2" plain_sql,
        THEN conjunct1] b1 b2 b3
    by blast
  have c: "fst (mg_deleteById (mongo_driver plain_mongo) False soft_opts (IdString ''a1'') doc_deleted)
       = Inr False"
    using deleteById_no_match [where v = doc_deleted and opts = soft_opts
        and ident = "IdString ''a1''" and msem = plain_mongo and session = False,
        THEN conjunct2] vc c2 c3
    by blast
  have d: "fst (mg_deleteById (mongo_driver plain_mongo) False hard_opts (IdString ''zz'') doc_deleted)
       = Inr False"
    using deleteById_no_match [where v = doc_deleted and opts = hard_opts
        and ident = "IdString ''zz''" and msem = plain_mongo and session = False,
        THEN conjunct2] vc d2 d3
    by blast
  show ?thesis
    by (intro conjI a1 a2 a b1 b2 b vc c2 c d2 d)
qed

text \<open>
  C8 as stated fails on the relational backend: with a whitelist that does not list the
  soft-delete field, \<open>deleteById\<close> of an already soft-deleted id raises the
  field-not-allowed error instead of returning false.
\<close>

theorem deleteById_no_match_counterexample:
  "pg_softDeleteEnabled users_cfg
   \<and> store deleted_ann_world
       = [[(''id'', VNum 1), (''name'', VStr ''Ann''), (''deleted_at'', VDate 7)]]
   \<and> pg_deleteById (sql_driver plain_sql) users_cfg (IdNumber 1) deleted_ann_world
       = (Inl (FieldNotAllowed ''deleted_at'' ''users''), deleted_ann_world)"
  by (simp add: pg_deleteById_def runBeforeDelete_def cfg_simps deleted_ann_world_def)

text \<open>
  C7. On the document backend \<open>createRepository\<close> never reads the \<open>hooks\<close> option that
  \<open>MongoRepositoryOptions\<close> declares.  With a before-create hook configured (one that
  would rewrite the name) and timestamps enabled, \<open>create({name: 'Ann'})\<close> hands the driver
  the caller's data with the created-at field overlaid, and that call is the only event:
  no hook runs, and the hook's output does not reach the driver.
\<close>

theorem document_create_runs_no_hook:
  "opts_hooks hooked_opts
     = Some \<lparr>beforeCreate = Some stamp_hook, afterCreate = True, beforeUpdate = None,
             afterUpdate = False, beforeDelete = False, afterDelete = False\<rparr>
   \<and> stamp_hook \<lparr>hc_data = [(''name'', VStr ''Ann'')], hc_operation = ''create'', hc_isBulk = False\<rparr>
       = Some [(''name'', VStr ''ANN''), (''created_at'', VStr ''never'')]
   \<and> mg_timestampsEnabled hooked_opts
   \<and> events (snd (mg_create idle_model False hooked_opts [(''name'', VStr ''Ann'')] empty_world))
       = [Model False (ModelCreate [(''name'', VStr ''Ann''), (''createdAt'', VDate 42)])]"
  by (simp add: hooked_opts_def users_opts_def stamp_hook_def mg_timestampsEnabled_def
      mg_create_def mg_addCreatedAt_def mg_createdAtField_def model_run_def idle_model_def
      empty_world_def Let_def)

lemma applyFilter_set_key:
  assumes "distinct (map fst a)" and "applyFilter cfg (set_key k v a) = Inr cs"
  shows "\<exists>cr. (\<forall>c \<in> set cr. clause_column c \<noteq> k)
      \<and> set cs = set (entry_clauses k v) \<union> set cr
      \<and> (\<forall>v'. \<exists>cs'. applyFilter cfg (set_key k v' a) = Inr cs'
             \<and> set cs' = set (entry_clauses k v') \<union> set cr)"
  using assms
proof (induction a arbitrary: cs)
  case Nil
  then have "assertFieldAllowed cfg k = Inr ()" and "cs = entry_clauses k v"
    by (auto split: sum.splits)
  then show ?case
    by (intro exI [of _ "[]"]) simp
next
  case (Cons p a)
  obtain k0 v0 where p: "p = (k0, v0)" by (cases p)
  show ?case
  proof (cases "k0 = k")
    case True
    from Cons.prems(2) obtain ca where ok: "assertFieldAllowed cfg k = Inr ()"
      and ca: "applyFilter cfg a = Inr ca" and cs: "cs = entry_clauses k v @ ca"
      by (auto simp: p True split: sum.splits)
    have "k \<notin> fst ` set a"
      using Cons.prems(1) by (simp add: p True)
    then have fr: "\<forall>c \<in> set ca. clause_column c \<noteq> k"
      using applyFilter_columns [OF ca] by metis
    show ?thesis
      using fr cs ok ca by (intro exI [of _ ca]) (simp add: p True)
  next
    case False
    from Cons.prems(2) obtain cs0 where ok: "assertFieldAllowed cfg k0 = Inr ()"
      and cs0: "applyFilter cfg (set_key k v a) = Inr cs0" and cs: "cs = entry_clauses k0 v0 @ cs0"
      by (auto simp: p False split: sum.splits)
    have da: "distinct (map fst a)"
      using Cons.prems(1) by simp
    from Cons.IH [OF da cs0] obtain cr0 where fr0: "\<forall>c \<in> set cr0. clause_column c \<noteq> k"
      and s0: "set cs0 = set (entry_clauses k v) \<union> set cr0"
      and o0: "\<forall>v'. \<exists>cs'. applyFilter cfg (set_key k v' a) = Inr cs'
             \<and> set cs' = set (entry_clauses k v') \<union> set cr0"
      by blast
    have fr: "\<forall>c \<in> set (entry_clauses k0 v0 @ cr0). clause_column c \<noteq> k"
      using fr0 False entry_clauses_column by auto
    have s: "set cs = set (entry_clauses k v) \<union> set (entry_clauses k0 v0 @ cr0)"
      using s0 cs by auto
    have o: "\<exists>cs'. applyFilter cfg (set_key k v' (p # a)) = Inr cs'
             \<and> set cs' = set (entry_clauses k v') \<union> set (entry_clauses k0 v0 @ cr0)" for v'
    proof -
      from o0 obtain c' where c': "applyFilter cfg (set_key k v' a) = Inr c'"
        and sc': "set c' = set (entry_clauses k v') \<union> set cr0"
        by blast
      show ?thesis
        using c' sc' ok by (intro exI [of _ "entry_clauses k0 v0 @ c'"]) (auto simp: p False)
    qed
    show ?thesis
      using fr s o by (intro exI [of _ "entry_clauses k0 v0 @ cr0"]) blast
  qed
qed

lemma matches_set: "matches sem cs r \<longleftrightarrow> (\<forall>c \<in> set cs. clause_holds sem r c)"
  by (simp add: matches_def list_all_iff)

lemma distinct_map_eq:
  "distinct (map g xs) \<Longrightarrow> x \<in> set xs \<Longrightarrow> y \<in> set xs \<Longrightarrow> g x = g y \<Longrightarrow> x = y"
  by (auto simp: distinct_map inj_on_def)

lemma pg_findById_round_trip:
  assumes en: "pg_softDeleteEnabled cfg"
    and db: "distinct (map fst (pg_baseFilter cfg))"
    and vis: "fst (pg_findById (sql_driver sem) cfg ident w1) = Inr (Some x)"
    and w2: "w2 = snd (pg_softDelete (sql_driver sem) cfg ident w1)"
    and w3: "w3 = snd (pg_restore (sql_driver sem) cfg ident w2)"
  shows "fst (pg_softDelete (sql_driver sem) cfg ident w1) = Inr True
    \<and> fst (pg_findById (sql_driver sem) cfg ident w2) = Inr None
    \<and> (\<exists>y. fst (pg_restore (sql_driver sem) cfg ident w2) = Inr (Some y))
    \<and> (\<exists>z. fst (pg_findById (sql_driver sem) cfg ident w3) = Inr (Some z))
    \<and> (distinct (map (\<lambda>row. column row (pg_pk cfg)) (store w1)) \<longrightarrow>
         (\<forall>row \<in> set (store w2). column row (pg_pk cfg) = id_val ident
             \<longrightarrow> column row (pg_softDeleteField cfg) \<noteq> VNull))"
proof -
  define sdf where "sdf = pg_softDeleteField cfg"
  define pk where "pk = pg_pk cfg"
  define base where "base = pg_baseFilter cfg"
  have nd: "spread base (pg_notDeletedFilter cfg) = set_key sdf (VObj [(''isNull'', VBool True)]) base"
    using en by (simp add: pg_notDeletedFilter_def sdf_def)
  have dl: "spread base (pg_deletedFilter cfg) = set_key sdf (VObj [(''isNotNull'', VBool True)]) base"
    by (simp add: pg_deletedFilter_def sdf_def)
  obtain cs where cs: "applyFilter cfg (spread base (pg_notDeletedFilter cfg)) = Inr cs"
    using vis by (cases "applyFilter cfg (spread base (pg_notDeletedFilter cfg))")
      (simp_all add: pg_findById_def Let_def base_def)
  from applyFilter_set_key [OF db [folded base_def] cs [unfolded nd]]
  obtain cr where frame: "\<forall>c \<in> set cr. clause_column c \<noteq> sdf"
    and scs: "set cs = {WhereNull sdf} \<union> set cr"
    and oth: "\<forall>v'. \<exists>cs'. applyFilter cfg (set_key sdf v' base) = Inr cs'
             \<and> set cs' = set (entry_clauses sdf v') \<union> set cr"
    by (auto simp: entry_clauses_isNull)
  from oth obtain cd where cd: "applyFilter cfg (spread base (pg_deletedFilter cfg)) = Inr cd"
    and scd: "set cd = {WhereNotNull sdf} \<union> set cr"
    unfolding dl by (metis entry_clauses_isNotNull list.set(1) list.simps(15))
  define P where "P r \<longleftrightarrow> column r pk = id_val ident \<and> matches sem cr r \<and> column r sdf = VNull" for r
  define Q where "Q r \<longleftrightarrow> column r pk = id_val ident \<and> matches sem cr r \<and> column r sdf \<noteq> VNull" for r
  have P: "matches sem (Where pk (id_val ident) # cs) = P"
    by (rule ext) (auto simp: P_def matches_set scs)
  have Q: "matches sem (Where pk (id_val ident) # cd) = Q"
    by (rule ext) (auto simp: Q_def matches_set scd)
  define S1 where "S1 = store w1"
  define c where "c = clock w1"
  define S2 where "S2 = map (\<lambda>row. if P row then set_key sdf (VDate c) row else row) S1"
  define S3 where "S3 = map (\<lambda>row. if Q row then set_key sdf VNull row else row) S2"
  have st2: "store w2 = S2"
    unfolding w2 S2_def S1_def c_def
    using pg_softDelete_sql(2) [OF cs [unfolded base_def], of sem ident w1] P
    by (simp add: pk_def sdf_def)
  have st3: "store w3 = S3"
    unfolding w3 S3_def
    using pg_restore_sql(2) [OF cd [unfolded base_def], of sem ident w2] Q st2
    by (simp add: pk_def sdf_def)
  have "filter P S1 \<noteq> []"
    using vis pg_findById_sql [OF cs [unfolded base_def], of sem ident w1] P
    by (auto simp: pk_def S1_def split: list.splits)
  then obtain r where r: "r \<in> set S1" "P r"
    by (auto simp: filter_nonempty)
  have pk_sdf: "pk \<noteq> sdf"
    using r(2) id_val_not_null [of ident] by (auto simp: P_def)
  define r' where "r' = set_key sdf (VDate c) r"
  define r'' where "r'' = set_key sdf VNull r'"
  have r'_in: "r' \<in> set S2"
    unfolding S2_def r'_def using r by force
  have Qr': "Q r'"
    using r(2) pk_sdf frame
    by (simp add: Q_def P_def r'_def column_set_key matches_frame)
  have r''_in: "r'' \<in> set S3"
    unfolding S3_def r''_def using r'_in Qr' by force
  have Pr'': "P r''"
    using Qr' pk_sdf frame
    by (simp add: Q_def P_def r''_def column_set_key matches_frame)
  have noP2: "\<forall>row \<in> set S2. \<not> P row"
    unfolding S2_def by (auto simp: P_def column_set_key)
  have a: "fst (pg_softDelete (sql_driver sem) cfg ident w1) = Inr True"
    using pg_softDelete_sql(1) [OF cs [unfolded base_def], of sem ident w1] P r
    by (auto simp: pk_def S1_def filter_nonempty)
  have b: "fst (pg_findById (sql_driver sem) cfg ident w2) = Inr None"
    using pg_findById_sql [OF cs [unfolded base_def], of sem ident w2] P st2
      filter_no_match [OF noP2]
    by (simp add: pk_def)
  have "filter Q S2 \<noteq> []"
    using r'_in Qr' by (auto simp: filter_nonempty)
  then have d: "\<exists>y. fst (pg_restore (sql_driver sem) cfg ident w2) = Inr (Some y)"
    using pg_restore_sql(1) [OF cd [unfolded base_def], of sem ident w2] Q st2
    by (auto simp: pk_def sdf_def split: list.splits)
  have "filter P S3 \<noteq> []"
    using r''_in Pr'' by (auto simp: filter_nonempty)
  then have e: "\<exists>z. fst (pg_findById (sql_driver sem) cfg ident w3) = Inr (Some z)"
    using pg_findById_sql [OF cs [unfolded base_def], of sem ident w3] P st3
    by (auto simp: pk_def split: list.splits)
  have u: "distinct (map (\<lambda>row. column row (pg_pk cfg)) (store w1)) \<longrightarrow>
         (\<forall>row \<in> set (store w2). column row (pg_pk cfg) = id_val ident
             \<longrightarrow> column row (pg_softDeleteField cfg) \<noteq> VNull)"
  proof (intro impI ballI)
    fix row2
    assume di: "distinct (map (\<lambda>row. column row (pg_pk cfg)) (store w1))"
      and in2: "row2 \<in> set (store w2)" and id2: "column row2 (pg_pk cfg) = id_val ident"
    from in2 obtain row where row: "row \<in> set S1"
      and row2: "row2 = (if P row then set_key sdf (VDate c) row else row)"
      unfolding st2 S2_def by auto
    have "column row pk = id_val ident"
      using id2 row2 pk_sdf by (auto simp: pk_def column_set_key split: if_splits)
    then have "column row pk = column r pk"
      using r(2) by (simp add: P_def)
    then have "row = r"
      using distinct_map_eq [OF di [folded pk_def S1_def] row r(1)] by simp
    then have "row2 = set_key sdf (VDate c) r"
      using row2 r(2) by simp
    then show "column row2 (pg_softDeleteField cfg) \<noteq> VNull"
      by (simp add: sdf_def [symmetric] column_set_key)
  qed
  show ?thesis
    by (intro conjI a b d e u)
qed

lemma set_key_other: "(k, v) \<in> set a \<Longrightarrow> k' \<noteq> k \<Longrightarrow> (k, v) \<in> set (set_key k' v' a)"
  by (induction a) auto

lemma spread_keeps: "(k, v) \<in> set a \<Longrightarrow> k \<notin> fst ` set b \<Longrightarrow> (k, v) \<in> set (spread a b)"
proof (induction b arbitrary: a)
  case Nil
  then show ?case by simp
next
  case (Cons p b)
  obtain k' v' where p: "p = (k', v')" by (cases p)
  have "(k, v) \<in> set (set_key k' v' a)"
    using Cons.prems p by (intro set_key_other) auto
  then show ?case
    using Cons.IH [of "set_key k' v' a"] Cons.prems(2) by (simp add: p)
qed

lemma merged_null_clause:
  assumes "pg_softDeleteEnabled cfg"
    and "pg_softDeleteField cfg \<notin> fst ` set f"
    and "applyFilter cfg (spread (spread (pg_baseFilter cfg) (pg_notDeletedFilter cfg)) f) = Inr cs"
  shows "WhereNull (pg_softDeleteField cfg) \<in> set cs"
proof -
  have "(pg_softDeleteField cfg, VObj [(''isNull'', VBool True)])
      \<in> set (spread (pg_baseFilter cfg) (pg_notDeletedFilter cfg))"
    using assms(1) by (simp add: pg_notDeletedFilter_def set_key_mem)
  then have "(pg_softDeleteField cfg, VObj [(''isNull'', VBool True)])
      \<in> set (spread (spread (pg_baseFilter cfg) (pg_notDeletedFilter cfg)) f)"
    using assms(2) by (rule spread_keeps)
  from applyFilter_entry [OF assms(3) this] show ?thesis
    by (simp add: entry_clauses_isNull)
qed

lemma filter_hidden:
  assumes "WhereNull k \<in> set cs"
    and "\<forall>row \<in> set st. \<not> keep row \<longrightarrow> column row k \<noteq> VNull"
  shows "filter (\<lambda>row. keep row \<and> matches sem cs row) st = filter (matches sem cs) st"
proof -
  have "matches sem cs row \<Longrightarrow> column row k = VNull" for row
    using assms(1) by (auto simp: matches_set)
  then have "\<forall>row \<in> set st. matches sem cs row \<longrightarrow> keep row"
    using assms(2) by blast
  then show ?thesis
    by (induction st) auto
qed

lemma pg_reads_hidden:
  assumes en: "pg_softDeleteEnabled cfg"
    and nf: "pg_softDeleteField cfg \<notin> fst ` set f"
    and hid: "\<forall>row \<in> set (store w). \<not> keep row \<longrightarrow> column row (pg_softDeleteField cfg) \<noteq> VNull"
  shows "fst (pg_findOne (sql_driver sem) cfg f w)
          = fst (pg_findOne (sql_driver sem) cfg f (w\<lparr>store := filter keep (store w)\<rparr>))"
    and "fst (pg_findAll (sql_driver sem) cfg f w)
          = fst (pg_findAll (sql_driver sem) cfg f (w\<lparr>store := filter keep (store w)\<rparr>))"
    and "fst (pg_count (sql_driver sem) cfg f w)
          = fst (pg_count (sql_driver sem) cfg f (w\<lparr>store := filter keep (store w)\<rparr>))"
    and "fst (pg_exists (sql_driver sem) cfg f w)
          = fst (pg_exists (sql_driver sem) cfg f (w\<lparr>store := filter keep (store w)\<rparr>))"
    and "fst (pg_select (sql_driver sem) cfg f cols w)
          = fst (pg_select (sql_driver sem) cfg f cols (w\<lparr>store := filter keep (store w)\<rparr>))"
    and "fst (pg_distinct (sql_driver sem) cfg field f w)
          = fst (pg_distinct (sql_driver sem) cfg field f (w\<lparr>store := filter keep (store w)\<rparr>))"
proof -
  show "fst (pg_findOne (sql_driver sem) cfg f w)
          = fst (pg_findOne (sql_driver sem) cfg f (w\<lparr>store := filter keep (store w)\<rparr>))"
  proof (cases "applyFilter cfg (spread (spread (pg_baseFilter cfg) (pg_notDeletedFilter cfg)) f)")
    case (Inl e)
    then show ?thesis by (simp add: pg_findOne_def Let_def)
  next
    case (Inr cs)
    note h = filter_hidden [OF merged_null_clause [OF en nf Inr] hid, of sem]
    show ?thesis by (simp add: pg_findOne_def Let_def Inr kx_run_def h)
  qed
  show "fst (pg_findAll (sql_driver sem) cfg f w)
          = fst (pg_findAll (sql_driver sem) cfg f (w\<lparr>store := filter keep (store w)\<rparr>))"
  proof (cases "applyFilter cfg (spread (spread (pg_baseFilter cfg) (pg_notDeletedFilter cfg)) f)")
    case (Inl e)
    then show ?thesis by (simp add: pg_findAll_def Let_def)
  next
    case (Inr cs)
    note h = filter_hidden [OF merged_null_clause [OF en nf Inr] hid, of sem]
    show ?thesis by (simp add: pg_findAll_def Let_def Inr kx_run_def h)
  qed
  show "fst (pg_count (sql_driver sem) cfg f w)
          = fst (pg_count (sql_driver sem) cfg f (w\<lparr>store := filter keep (store w)\<rparr>))"
  proof (cases "applyFilter cfg (spread (spread (pg_baseFilter cfg) (pg_notDeletedFilter cfg)) f)")
    case (Inl e)
    then show ?thesis by (simp add: pg_count_def Let_def)
  next
    case (Inr cs)
    note h = filter_hidden [OF merged_null_clause [OF en nf Inr] hid, of sem]
    show ?thesis by (simp add: pg_count_def Let_def Inr kx_run_def h)
  qed
  show "fst (pg_exists (sql_driver sem) cfg f w)
          = fst (pg_exists (sql_driver sem) cfg f (w\<lparr>store := filter keep (store w)\<rparr>))"
  proof (cases "applyFilter cfg (spread (spread (pg_baseFilter cfg) (pg_notDeletedFilter cfg)) f)")
    case (Inl e)
    then show ?thesis by (simp add: pg_exists_def Let_def)
  next
    case (Inr cs)
    note h = filter_hidden [OF merged_null_clause [OF en nf Inr] hid, of sem]
    show ?thesis by (simp add: pg_exists_def Let_def Inr kx_run_def h)
  qed
  show "fst (pg_select (sql_driver sem) cfg f cols w)
          = fst (pg_select (sql_driver sem) cfg f cols (w\<lparr>store := filter keep (store w)\<rparr>))"
  proof (cases "applyFilter cfg (spread (spread (pg_baseFilter cfg) (pg_notDeletedFilter cfg)) f)")
    case (Inl e)
    then show ?thesis by (simp add: pg_select_def Let_def)
  next
    case (Inr cs)
    note h = filter_hidden [OF merged_null_clause [OF en nf Inr] hid, of sem]
    show ?thesis by (simp add: pg_select_def Let_def Inr kx_run_def h)
  qed
  show "fst (pg_distinct (sql_driver sem) cfg field f w)
          = fst (pg_distinct (sql_driver sem) cfg field f (w\<lparr>store := filter keep (store w)\<rparr>))"
  proof (cases "applyFilter cfg (spread (spread (pg_baseFilter cfg) (pg_notDeletedFilter cfg)) f)")
    case (Inl e)
    then show ?thesis by (simp add: pg_distinct_def Let_def)
  next
    case (Inr cs)
    note h = filter_hidden [OF merged_null_clause [OF en nf Inr] hid, of sem]
    show ?thesis by (simp add: pg_distinct_def Let_def Inr kx_run_def h)
  qed
qed

lemma pg_findPage_hidden:
  assumes en: "pg_softDeleteEnabled cfg"
    and nf: "pg_softDeleteField cfg \<notin> fst ` set (case po_filter options of None \<Rightarrow> [] | Some f \<Rightarrow> f)"
    and hid: "\<forall>row \<in> set (store w). \<not> keep row \<longrightarrow> column row (pg_softDeleteField cfg) \<noteq> VNull"
  shows "fst (pg_findPage (sql_driver sem) cfg options w)
          = fst (pg_findPage (sql_driver sem) cfg options (w\<lparr>store := filter keep (store w)\<rparr>))"
proof (cases "applyFilter cfg (spread (spread (pg_baseFilter cfg) (pg_notDeletedFilter cfg))
      (case po_filter options of None \<Rightarrow> [] | Some f \<Rightarrow> f))")
  case (Inl e)
  then show ?thesis by (simp add: pg_findPage_def Let_def)
next
  case (Inr cs)
  note h = filter_hidden [OF merged_null_clause [OF en nf Inr] hid, of sem]
  show ?thesis
    by (cases "applySort cfg (po_sort options)")
       (simp_all add: pg_findPage_def Let_def Inr kx_run_def h)
qed

lemma pg_findAll_rows:
  assumes "fst (pg_findAll (sql_driver sem) cfg f w) = Inr rows"
  shows "set rows \<subseteq> set (store w)"
  using assms
  by (auto simp: pg_findAll_def Let_def kx_run_def project_all paginate_def split: sum.splits)

lemma pg_findOne_row:
  assumes "fst (pg_findOne (sql_driver sem) cfg f w) = Inr (Some row)"
  shows "row \<in> set (store w)"
proof -
  from assms obtain cs where "first_row (Rows (take (Suc 0) (filter (matches sem cs) (store w)))) = Some row"
    by (auto simp: pg_findOne_def Let_def kx_run_def project_all split: sum.splits)
  then show ?thesis
    by (auto simp: first_row_take split: list.splits dest: filter_eq_ConsD)
qed

lemma merged_matches_live:
  assumes "mg_softDeleteEnabled opts"
    and "doc_matches sem (spread f (mg_notDeletedFilter opts)) doc"
  shows "nullish (map_of doc (mg_softDeleteField opts))"
proof -
  have "(mg_softDeleteField opts, VObj [(''$eq'', VNull)]) \<in> set (spread f (mg_notDeletedFilter opts))"
    using assms(1) by (simp add: mg_notDeletedFilter_def set_key_mem)
  then have "cond_holds sem doc (mg_softDeleteField opts, VObj [(''$eq'', VNull)])"
    using assms(2) by (auto simp: doc_matches_def list_all_iff)
  then show ?thesis
    by (simp add: cond_holds_def)
qed

lemma doc_filter_hidden:
  assumes "mg_softDeleteEnabled opts"
    and "\<forall>doc \<in> set st. \<not> keep doc \<longrightarrow> \<not> nullish (map_of doc (mg_softDeleteField opts))"
  shows "filter (\<lambda>doc. keep doc \<and> doc_matches sem (spread f (mg_notDeletedFilter opts)) doc) st
    = filter (doc_matches sem (spread f (mg_notDeletedFilter opts))) st"
proof -
  have "\<forall>doc \<in> set st. doc_matches sem (spread f (mg_notDeletedFilter opts)) doc \<longrightarrow> keep doc"
    using assms(2) merged_matches_live [OF assms(1)] by blast
  then show ?thesis
    by (induction st) auto
qed

lemma mg_reads_hidden:
  assumes en: "mg_softDeleteEnabled opts"
    and hid: "\<forall>doc \<in> set (store w). \<not> keep doc \<longrightarrow> \<not> nullish (map_of doc (mg_softDeleteField opts))"
  shows "fst (mg_findOne (mongo_driver sem) session opts f w)
          = fst (mg_findOne (mongo_driver sem) session opts f (w\<lparr>store := filter keep (store w)\<rparr>))"
    and "fst (mg_findAll (mongo_driver sem) session opts f w)
          = fst (mg_findAll (mongo_driver sem) session opts f (w\<lparr>store := filter keep (store w)\<rparr>))"
    and "fst (mg_findPage (mongo_driver sem) session opts options w)
          = fst (mg_findPage (mongo_driver sem) session opts options
                  (w\<lparr>store := filter keep (store w)\<rparr>))"
    and "fst (mg_count (mongo_driver sem) session opts f w)
          = fst (mg_count (mongo_driver sem) session opts f (w\<lparr>store := filter keep (store w)\<rparr>))"
    and "fst (mg_exists (mongo_driver sem) session opts f w)
          = fst (mg_exists (mongo_driver sem) session opts f (w\<lparr>store := filter keep (store w)\<rparr>))"
    and "fst (mg_select (mongo_driver sem) session opts f cols w)
          = fst (mg_select (mongo_driver sem) session opts f cols
                  (w\<lparr>store := filter keep (store w)\<rparr>))"
    and "fst (mg_distinct (mongo_driver sem) session opts field f w)
          = fst (mg_distinct (mongo_driver sem) session opts field f
                  (w\<lparr>store := filter keep (store w)\<rparr>))"
proof -
  note h = doc_filter_hidden [OF en hid, of sem]
  show "fst (mg_findOne (mongo_driver sem) session opts f w)
          = fst (mg_findOne (mongo_driver sem) session opts f (w\<lparr>store := filter keep (store w)\<rparr>))"
    by (simp add: mg_findOne_def Let_def model_run_def h del: spread.simps)
  show "fst (mg_findAll (mongo_driver sem) session opts f w)
          = fst (mg_findAll (mongo_driver sem) session opts f (w\<lparr>store := filter keep (store w)\<rparr>))"
    by (simp add: mg_findAll_def Let_def model_run_def h del: spread.simps)
  show "fst (mg_findPage (mongo_driver sem) session opts options w)
          = fst (mg_findPage (mongo_driver sem) session opts options
                  (w\<lparr>store := filter keep (store w)\<rparr>))"
    by (cases "sort_given (po_sort options)")
       (simp_all add: mg_findPage_def Let_def model_run_def h del: spread.simps)
  show "fst (mg_count (mongo_driver sem) session opts f w)
          = fst (mg_count (mongo_driver sem) session opts f (w\<lparr>store := filter keep (store w)\<rparr>))"
    by (simp add: mg_count_def Let_def model_run_def h del: spread.simps)
  show "fst (mg_exists (mongo_driver sem) session opts f w)
          = fst (mg_exists (mongo_driver sem) session opts f (w\<lparr>store := filter keep (store w)\<rparr>))"
    by (simp add: mg_exists_def Let_def model_run_def h del: spread.simps)
  show "fst (mg_select (mongo_driver sem) session opts f cols w)
          = fst (mg_select (mongo_driver sem) session opts f cols
                  (w\<lparr>store := filter keep (store w)\<rparr>))"
    by (simp add: mg_select_def Let_def model_run_def h del: spread.simps)
  show "fst (mg_distinct (mongo_driver sem) session opts field f w)
          = fst (mg_distinct (mongo_driver sem) session opts field f
                  (w\<lparr>store := filter keep (store w)\<rparr>))"
    by (simp add: mg_distinct_def Let_def model_run_def h del: spread.simps)
qed

lemma mg_findAll_docs:
  assumes "fst (mg_findAll (mongo_driver sem) session opts f w) = Inr docs"
  shows "set docs \<subseteq> set (store w)"
  using assms
  by (auto simp: mg_findAll_def Let_def model_run_def projected_none skip_limit_def
      simp del: spread.simps)

lemma mg_findOne_doc:
  assumes "fst (mg_findOne (mongo_driver sem) session opts f w) = Inr (Some doc)"
  shows "doc \<in> set (store w)"
proof -
  from assms have "first_row (Rows (take (Suc 0)
      (filter (doc_matches sem (spread f (mg_notDeletedFilter opts))) (store w)))) = Some doc"
    by (simp add: mg_findOne_def Let_def model_run_def projected_none del: spread.simps)
  then show ?thesis
    by (auto simp: first_row_take split: list.splits dest: filter_eq_ConsD)
qed

lemma pg_invisible:
  assumes en: "pg_softDeleteEnabled cfg"
    and nf: "pg_softDeleteField cfg \<notin> fst ` set f"
    and hid: "\<forall>row \<in> set (store w). column row (pg_pk cfg) = id_val ident
                \<longrightarrow> column row (pg_softDeleteField cfg) \<noteq> VNull"
  shows "fst (pg_findOne (sql_driver sem) cfg f w)
        = fst (pg_findOne (sql_driver sem) cfg f (pg_without cfg ident w))
    \<and> fst (pg_findAll (sql_driver sem) cfg f w)
        = fst (pg_findAll (sql_driver sem) cfg f (pg_without cfg ident w))
    \<and> (\<forall>options. (case po_filter options of None \<Rightarrow> [] | Some g \<Rightarrow> g) = f \<longrightarrow>
          fst (pg_findPage (sql_driver sem) cfg options w)
            = fst (pg_findPage (sql_driver sem) cfg options (pg_without cfg ident w)))
    \<and> fst (pg_count (sql_driver sem) cfg f w)
        = fst (pg_count (sql_driver sem) cfg f (pg_without cfg ident w))
    \<and> fst (pg_exists (sql_driver sem) cfg f w)
        = fst (pg_exists (sql_driver sem) cfg f (pg_without cfg ident w))
    \<and> (\<forall>cols. fst (pg_select (sql_driver sem) cfg f cols w)
        = fst (pg_select (sql_driver sem) cfg f cols (pg_without cfg ident w)))
    \<and> (\<forall>field. fst (pg_distinct (sql_driver sem) cfg field f w)
        = fst (pg_distinct (sql_driver sem) cfg field f (pg_without cfg ident w)))
    \<and> (\<forall>rows. fst (pg_findAll (sql_driver sem) cfg f w) = Inr rows \<longrightarrow>
          (\<forall>row \<in> set rows. column row (pg_pk cfg) \<noteq> id_val ident))
    \<and> (\<forall>row. fst (pg_findOne (sql_driver sem) cfg f w) = Inr (Some row) \<longrightarrow>
          column row (pg_pk cfg) \<noteq> id_val ident)"
proof -
  define keep where "keep = (\<lambda>row. column row (pg_pk cfg) \<noteq> id_val ident)"
  have wo: "pg_without cfg ident w = w\<lparr>store := filter keep (store w)\<rparr>"
    by (simp add: pg_without_def keep_def)
  have hid': "\<forall>row \<in> set (store w). \<not> keep row \<longrightarrow> column row (pg_softDeleteField cfg) \<noteq> VNull"
    using hid by (simp add: keep_def)
  note r = pg_reads_hidden [OF en nf hid', of sem, folded wo]
  have page: "fst (pg_findPage (sql_driver sem) cfg options w)
        = fst (pg_findPage (sql_driver sem) cfg options (pg_without cfg ident w))"
    if "(case po_filter options of None \<Rightarrow> [] | Some g \<Rightarrow> g) = f" for options
    using pg_findPage_hidden [OF en _ hid', of options sem, folded wo] nf that by simp
  have all: "\<forall>row \<in> set rows. column row (pg_pk cfg) \<noteq> id_val ident"
    if "fst (pg_findAll (sql_driver sem) cfg f w) = Inr rows" for rows
  proof -
    have "set rows \<subseteq> set (store (pg_without cfg ident w))"
      using that r(2) pg_findAll_rows [of sem cfg f "pg_without cfg ident w" rows] by simp
    then show ?thesis
      by (auto simp: pg_without_def)
  qed
  have one: "column row (pg_pk cfg) \<noteq> id_val ident"
    if "fst (pg_findOne (sql_driver sem) cfg f w) = Inr (Some row)" for row
  proof -
    have "row \<in> set (store (pg_without cfg ident w))"
      using that r(1) pg_findOne_row [of sem cfg f "pg_without cfg ident w" row] by simp
    then show ?thesis
      by (simp add: pg_without_def)
  qed
  have c3: "\<forall>options. (case po_filter options of None \<Rightarrow> [] | Some g \<Rightarrow> g) = f \<longrightarrow>
      fst (pg_findPage (sql_driver sem) cfg options w)
        = fst (pg_findPage (sql_driver sem) cfg options (pg_without cfg ident w))"
    using page by blast
  have c6: "\<forall>cols. fst (pg_select (sql_driver sem) cfg f cols w)
      = fst (pg_select (sql_driver sem) cfg f cols (pg_without cfg ident w))"
    using r(5) by blast
  have c7: "\<forall>field. fst (pg_distinct (sql_driver sem) cfg field f w)
      = fst (pg_distinct (sql_driver sem) cfg field f (pg_without cfg ident w))"
    using r(6) by blast
  have c8: "\<forall>rows. fst (pg_findAll (sql_driver sem) cfg f w) = Inr rows \<longrightarrow>
      (\<forall>row \<in> set rows. column row (pg_pk cfg) \<noteq> id_val ident)"
    using all by blast
  have c9: "\<forall>row. fst (pg_findOne (sql_driver sem) cfg f w) = Inr (Some row) \<longrightarrow>
      column row (pg_pk cfg) \<noteq> id_val ident"
    using one by blast
  show ?thesis
    by (intro conjI r(1) r(2) c3 r(3) r(4) c6 c7 c8 c9)
qed

lemma mg_invisible:
  assumes en: "mg_softDeleteEnabled opts"
    and hid: "\<forall>doc \<in> set (store w). map_of doc ''_id'' = Some (id_val ident)
                \<longrightarrow> \<not> nullish (map_of doc (mg_softDeleteField opts))"
  shows "fst (mg_findOne (mongo_driver msem) session opts f w)
        = fst (mg_findOne (mongo_driver msem) session opts f (mg_without ident w))
    \<and> fst (mg_findAll (mongo_driver msem) session opts f w)
        = fst (mg_findAll (mongo_driver msem) session opts f (mg_without ident w))
    \<and> (\<forall>options. fst (mg_findPage (mongo_driver msem) session opts options w)
        = fst (mg_findPage (mongo_driver msem) session opts options (mg_without ident w)))
    \<and> fst (mg_count (mongo_driver msem) session opts f w)
        = fst (mg_count (mongo_driver msem) session opts f (mg_without ident w))
    \<and> fst (mg_exists (mongo_driver msem) session opts f w)
        = fst (mg_exists (mongo_driver msem) session opts f (mg_without ident w))
    \<and> (\<forall>cols. fst (mg_select (mongo_driver msem) session opts f cols w)
        = fst (mg_select (mongo_driver msem) session opts f cols (mg_without ident w)))
    \<and> (\<forall>field. fst (mg_distinct (mongo_driver msem) session opts field f w)
        = fst (mg_distinct (mongo_driver msem) session opts field f (mg_without ident w)))
    \<and> (\<forall>docs. fst (mg_findAll (mongo_driver msem) session opts f w) = Inr docs \<longrightarrow>
          (\<forall>d \<in> set docs. map_of d ''_id'' \<noteq> Some (id_val ident)))
    \<and> (\<forall>d. fst (mg_findOne (mongo_driver msem) session opts f w) = Inr (Some d) \<longrightarrow>
          map_of d ''_id'' \<noteq> Some (id_val ident))"
proof -
  define keep where "keep = (\<lambda>d :: obj. map_of d ''_id'' \<noteq> Some (id_val ident))"
  have wo: "mg_without ident w = w\<lparr>store := filter keep (store w)\<rparr>"
    by (simp add: mg_without_def keep_def)
  have hid': "\<forall>doc \<in> set (store w). \<not> keep doc \<longrightarrow> \<not> nullish (map_of doc (mg_softDeleteField opts))"
    using hid by (simp add: keep_def)
  note r = mg_reads_hidden [OF en hid', of msem session, folded wo]
  have all: "\<forall>d \<in> set docs. map_of d ''_id'' \<noteq> Some (id_val ident)"
    if "fst (mg_findAll (mongo_driver msem) session opts f w) = Inr docs" for docs
  proof -
    have "set docs \<subseteq> set (store (mg_without ident w))"
      using that r(2) [of f] mg_findAll_docs [of msem session opts f "mg_without ident w" docs]
      by simp
    then show ?thesis
      by (auto simp: mg_without_def)
  qed
  have one: "map_of d ''_id'' \<noteq> Some (id_val ident)"
    if "fst (mg_findOne (mongo_driver msem) session opts f w) = Inr (Some d)" for d
  proof -
    have "d \<in> set (store (mg_without ident w))"
      using that r(1) [of f] mg_findOne_doc [of msem session opts f "mg_without ident w" d]
      by simp
    then show ?thesis
      by (simp add: mg_without_def)
  qed
  have c3: "\<forall>options. fst (mg_findPage (mongo_driver msem) session opts options w)
      = fst (mg_findPage (mongo_driver msem) session opts options (mg_without ident w))"
    using r(3) by blast
  have c6: "\<forall>cols. fst (mg_select (mongo_driver msem) session opts f cols w)
      = fst (mg_select (mongo_driver msem) session opts f cols (mg_without ident w))"
    using r(6) by blast
  have c7: "\<forall>field. fst (mg_distinct (mongo_driver msem) session opts field f w)
      = fst (mg_distinct (mongo_driver msem) session opts field f (mg_without ident w))"
    using r(7) by blast
  have c8: "\<forall>docs. fst (mg_findAll (mongo_driver msem) session opts f w) = Inr docs \<longrightarrow>
      (\<forall>d \<in> set docs. map_of d ''_id'' \<noteq> Some (id_val ident))"
    using all by blast
  have c9: "\<forall>d. fst (mg_findOne (mongo_driver msem) session opts f w) = Inr (Some d) \<longrightarrow>
      map_of d ''_id'' \<noteq> Some (id_val ident)"
    using one by blast
  show ?thesis
    by (intro conjI r(1) r(2) c3 r(4) r(5) c6 c7 c8 c9)
qed

text \<open>
  C5 (amended). For a soft-delete-enabled entity, if \<open>findById(id)\<close> finds a record right
  after a \<open>create\<close>, then \<open>softDelete(id)\<close> succeeds and \<open>findById(id)\<close> finds nothing;
  every other default read (\<open>findOne\<close>, \<open>findAll\<close>, \<open>findPage\<close>, \<open>count\<close>,
  \<open>exists\<close>, \<open>select\<close>, \<open>distinct\<close>) then answers what it answers without the
  records of that id, and \<open>findAll\<close> and \<open>findOne\<close> return no record of that id; then
  \<open>restore(id)\<close> returns a record and \<open>findById(id)\<close> finds one again; and
  \<open>findAllWithDeleted()\<close> returns a record with that id after the create, after the soft
  delete and after the restore.  On the relational backend the other reads are taken
  with a caller filter that has no entry for the soft-delete field (a caller's entry
  overrides the injected predicate) on a table whose primary-key values are distinct, and
  \<open>findAllWithDeleted\<close> with a default filter that has no entry for the soft-delete
  field (it still merges the default filter); the default filter is an object (distinct
  keys).  On the document backend the collection's documents have distinct, non-null
  \<open>_id\<close>s, and the caller's filter is arbitrary.
\<close>

theorem soft_delete_round_trip:
  "(pg_softDeleteEnabled cfg
      \<and> distinct (map fst (pg_baseFilter cfg))
      \<and> w1 = snd (pg_create (sql_driver sem) cfg data w0)
      \<and> fst (pg_findById (sql_driver sem) cfg ident w1) = Inr (Some x)
      \<and> w2 = snd (pg_softDelete (sql_driver sem) cfg ident w1)
      \<and> w3 = snd (pg_restore (sql_driver sem) cfg ident w2)
      \<longrightarrow> fst (pg_softDelete (sql_driver sem) cfg ident w1) = Inr True
        \<and> fst (pg_findById (sql_driver sem) cfg ident w2) = Inr None
        \<and> (distinct (map (\<lambda>row. column row (pg_pk cfg)) (store w1)) \<longrightarrow>
          (\<forall>f. pg_softDeleteField cfg \<notin> fst ` set f \<longrightarrow>
             fst (pg_findOne (sql_driver sem) cfg f w2)
                 = fst (pg_findOne (sql_driver sem) cfg f (pg_without cfg ident w2))
             \<and> fst (pg_findAll (sql_driver sem) cfg f w2)
                 = fst (pg_findAll (sql_driver sem) cfg f (pg_without cfg ident w2))
             \<and> (\<forall>options. (case po_filter options of None \<Rightarrow> [] | Some g \<Rightarrow> g) = f \<longrightarrow>
                   fst (pg_findPage (sql_driver sem) cfg options w2)
                     = fst (pg_findPage (sql_driver sem) cfg options (pg_without cfg ident w2)))
             \<and> fst (pg_count (sql_driver sem) cfg f w2)
                 = fst (pg_count (sql_driver sem) cfg f (pg_without cfg ident w2))
             \<and> fst (pg_exists (sql_driver sem) cfg f w2)
                 = fst (pg_exists (sql_driver sem) cfg f (pg_without cfg ident w2))
             \<and> (\<forall>cols. fst (pg_select (sql_driver sem) cfg f cols w2)
                 = fst (pg_select (sql_driver sem) cfg f cols (pg_without cfg ident w2)))
             \<and> (\<forall>field. fst (pg_distinct (sql_driver sem) cfg field f w2)
                 = fst (pg_distinct (sql_driver sem) cfg field f (pg_without cfg ident w2)))
             \<and> (\<forall>rows. fst (pg_findAll (sql_driver sem) cfg f w2) = Inr rows \<longrightarrow>
                   (\<forall>row \<in> set rows. column row (pg_pk cfg) \<noteq> id_val ident))
             \<and> (\<forall>row. fst (pg_findOne (sql_driver sem) cfg f w2) = Inr (Some row) \<longrightarrow>
                   column row (pg_pk cfg) \<noteq> id_val ident)))
        \<and> (\<exists>y. fst (pg_restore (sql_driver sem) cfg ident w2) = Inr (Some y))
        \<and> (\<exists>z. fst (pg_findById (sql_driver sem) cfg ident w3) = Inr (Some z))
        \<and> (pg_softDeleteField cfg \<notin> fst ` set (pg_baseFilter cfg) \<longrightarrow>
          (\<forall>w \<in> {w1, w2, w3}. \<exists>rows.
             fst (pg_findAllWithDeleted (sql_driver sem) cfg [] w) = Inr rows
             \<and> (\<exists>row \<in> set rows. column row (pg_pk cfg) = id_val ident))))
   \<and> (mg_softDeleteEnabled opts
      \<and> v1 = snd (mg_create (mongo_driver msem) session opts doc v0)
      \<and> valid_collection (store v1)
      \<and> fst (mg_findById (mongo_driver msem) session opts ident' v1) = Inr (Some x')
      \<and> v2 = snd (mg_softDelete (mongo_driver msem) session opts ident' v1)
      \<and> v3 = snd (mg_restore (mongo_driver msem) session opts ident' v2)
      \<longrightarrow> fst (mg_softDelete (mongo_driver msem) session opts ident' v1) = Inr True
        \<and> fst (mg_findById (mongo_driver msem) session opts ident' v2) = Inr None
        \<and> (\<forall>f. fst (mg_findOne (mongo_driver msem) session opts f v2)
                 = fst (mg_findOne (mongo_driver msem) session opts f (mg_without ident' v2))
             \<and> fst (mg_findAll (mongo_driver msem) session opts f v2)
                 = fst (mg_findAll (mongo_driver msem) session opts f (mg_without ident' v2))
             \<and> (\<forall>options. fst (mg_findPage (mongo_driver msem) session opts options v2)
                 = fst (mg_findPage (mongo_driver msem) session opts options (mg_without ident' v2)))
             \<and> fst (mg_count (mongo_driver msem) session opts f v2)
                 = fst (mg_count (mongo_driver msem) session opts f (mg_without ident' v2))
             \<and> fst (mg_exists (mongo_driver msem) session opts f v2)
                 = fst (mg_exists (mongo_driver msem) session opts f (mg_without ident' v2))
             \<and> (\<forall>cols. fst (mg_select (mongo_driver msem) session opts f cols v2)
                 = fst (mg_select (mongo_driver msem) session opts f cols (mg_without ident' v2)))
             \<and> (\<forall>field. fst (mg_distinct (mongo_driver msem) session opts field f v2)
                 = fst (mg_distinct (mongo_driver msem) session opts field f (mg_without ident' v2)))
             \<and> (\<forall>docs. fst (mg_findAll (mongo_driver msem) session opts f v2) = Inr docs \<longrightarrow>
                   (\<forall>d \<in> set docs. map_of d ''_id'' \<noteq> Some (id_val ident')))
             \<and> (\<forall>d. fst (mg_findOne (mongo_driver msem) session opts f v2) = Inr (Some d) \<longrightarrow>
                   map_of d ''_id'' \<noteq> Some (id_val ident')))
        \<and> (\<exists>y. fst (mg_restore (mongo_driver msem) session opts ident' v2) = Inr (Some y))
        \<and> (\<exists>z. fst (mg_findById (mongo_driver msem) session opts ident' v3) = Inr (Some z))
        \<and> (\<forall>v \<in> {v1, v2, v3}. \<exists>docs.
          fst (mg_findAllWithDeleted (mongo_driver msem) session opts [] v) = Inr docs
          \<and> (\<exists>d \<in> set docs. map_of d ''_id'' = Some (id_val ident'))))"
proof (intro conjI impI)
  assume h: "pg_softDeleteEnabled cfg
      \<and> distinct (map fst (pg_baseFilter cfg))
      \<and> w1 = snd (pg_create (sql_driver sem) cfg data w0)
      \<and> fst (pg_findById (sql_driver sem) cfg ident w1) = Inr (Some x)
      \<and> w2 = snd (pg_softDelete (sql_driver sem) cfg ident w1)
      \<and> w3 = snd (pg_restore (sql_driver sem) cfg ident w2)"
  then have en: "pg_softDeleteEnabled cfg"
    and db: "distinct (map fst (pg_baseFilter cfg))"
    and w1: "w1 = snd (pg_create (sql_driver sem) cfg data w0)"
    and vis: "fst (pg_findById (sql_driver sem) cfg ident w1) = Inr (Some x)"
    and w2: "w2 = snd (pg_softDelete (sql_driver sem) cfg ident w1)"
    and w3: "w3 = snd (pg_restore (sql_driver sem) cfg ident w2)"
    by blast+
  note t = pg_findById_round_trip [OF en db vis w2 w3]
  show "fst (pg_softDelete (sql_driver sem) cfg ident w1) = Inr True"
    by (rule t [THEN conjunct1])
  show "fst (pg_findById (sql_driver sem) cfg ident w2) = Inr None"
    by (rule t [THEN conjunct2, THEN conjunct1])
  show "\<exists>y. fst (pg_restore (sql_driver sem) cfg ident w2) = Inr (Some y)"
    by (rule t [THEN conjunct2, THEN conjunct2, THEN conjunct1])
  show "\<exists>z. fst (pg_findById (sql_driver sem) cfg ident w3) = Inr (Some z)"
    by (rule t [THEN conjunct2, THEN conjunct2, THEN conjunct2, THEN conjunct1])
  {
    assume di: "distinct (map (\<lambda>row. column row (pg_pk cfg)) (store w1))"
    note hid = t [THEN conjunct2, THEN conjunct2, THEN conjunct2, THEN conjunct2, THEN mp, OF di]
    show "\<forall>f. pg_softDeleteField cfg \<notin> fst ` set f \<longrightarrow>
             fst (pg_findOne (sql_driver sem) cfg f w2)
                 = fst (pg_findOne (sql_driver sem) cfg f (pg_without cfg ident w2))
             \<and> fst (pg_findAll (sql_driver sem) cfg f w2)
                 = fst (pg_findAll (sql_driver sem) cfg f (pg_without cfg ident w2))
             \<and> (\<forall>options. (case po_filter options of None \<Rightarrow> [] | Some g \<Rightarrow> g) = f \<longrightarrow>
                   fst (pg_findPage (sql_driver sem) cfg options w2)
                     = fst (pg_findPage (sql_driver sem) cfg options (pg_without cfg ident w2)))
             \<and> fst (pg_count (sql_driver sem) cfg f w2)
                 = fst (pg_count (sql_driver sem) cfg f (pg_without cfg ident w2))
             \<and> fst (pg_exists (sql_driver sem) cfg f w2)
                 = fst (pg_exists (sql_driver sem) cfg f (pg_without cfg ident w2))
             \<and> (\<forall>cols. fst (pg_select (sql_driver sem) cfg f cols w2)
                 = fst (pg_select (sql_driver sem) cfg f cols (pg_without cfg ident w2)))
             \<and> (\<forall>field. fst (pg_distinct (sql_driver sem) cfg field f w2)
                 = fst (pg_distinct (sql_driver sem) cfg field f (pg_without cfg ident w2)))
             \<and> (\<forall>rows. fst (pg_findAll (sql_driver sem) cfg f w2) = Inr rows \<longrightarrow>
                   (\<forall>row \<in> set rows. column row (pg_pk cfg) \<noteq> id_val ident))
             \<and> (\<forall>row. fst (pg_findOne (sql_driver sem) cfg f w2) = Inr (Some row) \<longrightarrow>
                   column row (pg_pk cfg) \<noteq> id_val ident)"
    proof (intro allI impI)
      fix f :: obj assume nf: "pg_softDeleteField cfg \<notin> fst ` set f"
      show "fst (pg_findOne (sql_driver sem) cfg f w2)
            = fst (pg_findOne (sql_driver sem) cfg f (pg_without cfg ident w2))
        \<and> fst (pg_findAll (sql_driver sem) cfg f w2)
            = fst (pg_findAll (sql_driver sem) cfg f (pg_without cfg ident w2))
        \<and> (\<forall>options. (case po_filter options of None \<Rightarrow> [] | Some g \<Rightarrow> g) = f \<longrightarrow>
              fst (pg_findPage (sql_driver sem) cfg options w2)
                = fst (pg_findPage (sql_driver sem) cfg options (pg_without cfg ident w2)))
        \<and> fst (pg_count (sql_driver sem) cfg f w2)
            = fst (pg_count (sql_driver sem) cfg f (pg_without cfg ident w2))
        \<and> fst (pg_exists (sql_driver sem) cfg f w2)
            = fst (pg_exists (sql_driver sem) cfg f (pg_without cfg ident w2))
        \<and> (\<forall>cols. fst (pg_select (sql_driver sem) cfg f cols w2)
            = fst (pg_select (sql_driver sem) cfg f cols (pg_without cfg ident w2)))
        \<and> (\<forall>field. fst (pg_distinct (sql_driver sem) cfg field f w2)
            = fst (pg_distinct (sql_driver sem) cfg field f (pg_without cfg ident w2)))
        \<and> (\<forall>rows. fst (pg_findAll (sql_driver sem) cfg f w2) = Inr rows \<longrightarrow>
              (\<forall>row \<in> set rows. column row (pg_pk cfg) \<noteq> id_val ident))
        \<and> (\<forall>row. fst (pg_findOne (sql_driver sem) cfg f w2) = Inr (Some row) \<longrightarrow>
              column row (pg_pk cfg) \<noteq> id_val ident)"
        by (rule pg_invisible [OF en nf hid])
    qed
  }
  {
    assume nk: "pg_softDeleteField cfg \<notin> fst ` set (pg_baseFilter cfg)"
    show "\<forall>w \<in> {w1, w2, w3}. \<exists>rows.
             fst (pg_findAllWithDeleted (sql_driver sem) cfg [] w) = Inr rows
             \<and> (\<exists>row \<in> set rows. column row (pg_pk cfg) = id_val ident)"
      by (rule pg_soft_delete_round_trip [OF en nk w1 vis w2 w3, THEN conjunct2, THEN conjunct2,
            THEN conjunct2, THEN conjunct2])
  }
next
  assume h: "mg_softDeleteEnabled opts
      \<and> v1 = snd (mg_create (mongo_driver msem) session opts doc v0)
      \<and> valid_collection (store v1)
      \<and> fst (mg_findById (mongo_driver msem) session opts ident' v1) = Inr (Some x')
      \<and> v2 = snd (mg_softDelete (mongo_driver msem) session opts ident' v1)
      \<and> v3 = snd (mg_restore (mongo_driver msem) session opts ident' v2)"
  then have en: "mg_softDeleteEnabled opts"
    and vc: "valid_collection (store v1)"
    and vis: "fst (mg_findById (mongo_driver msem) session opts ident' v1) = Inr (Some x')"
    and v2: "v2 = snd (mg_softDelete (mongo_driver msem) session opts ident' v1)"
    and v3: "v3 = snd (mg_restore (mongo_driver msem) session opts ident' v2)"
    by blast+
  note t = mg_soft_delete_round_trip [OF en vc vis v2 v3]
  show "fst (mg_softDelete (mongo_driver msem) session opts ident' v1) = Inr True"
    by (rule t [THEN conjunct1])
  show "fst (mg_findById (mongo_driver msem) session opts ident' v2) = Inr None"
    by (rule t [THEN conjunct2, THEN conjunct1])
  show "\<exists>y. fst (mg_restore (mongo_driver msem) session opts ident' v2) = Inr (Some y)"
    by (rule t [THEN conjunct2, THEN conjunct2, THEN conjunct1])
  show "\<exists>z. fst (mg_findById (mongo_driver msem) session opts ident' v3) = Inr (Some z)"
    by (rule t [THEN conjunct2, THEN conjunct2, THEN conjunct2, THEN conjunct1])
  show "\<forall>v \<in> {v1, v2, v3}. \<exists>docs.
          fst (mg_findAllWithDeleted (mongo_driver msem) session opts [] v) = Inr docs
          \<and> (\<exists>d \<in> set docs. map_of d ''_id'' = Some (id_val ident'))"
    by (rule t [THEN conjunct2, THEN conjunct2, THEN conjunct2, THEN conjunct2, THEN conjunct1])
  note hid = t [THEN conjunct2, THEN conjunct2, THEN conjunct2, THEN conjunct2, THEN conjunct2]
  show "\<forall>f. fst (mg_findOne (mongo_driver msem) session opts f v2)
                 = fst (mg_findOne (mongo_driver msem) session opts f (mg_without ident' v2))
             \<and> fst (mg_findAll (mongo_driver msem) session opts f v2)
                 = fst (mg_findAll (mongo_driver msem) session opts f (mg_without ident' v2))
             \<and> (\<forall>options. fst (mg_findPage (mongo_driver msem) session opts options v2)
                 = fst (mg_findPage (mongo_driver msem) session opts options (mg_without ident' v2)))
             \<and> fst (mg_count (mongo_driver msem) session opts f v2)
                 = fst (mg_count (mongo_driver msem) session opts f (mg_without ident' v2))
             \<and> fst (mg_exists (mongo_driver msem) session opts f v2)
                 = fst (mg_exists (mongo_driver msem) session opts f (mg_without ident' v2))
             \<and> (\<forall>cols. fst (mg_select (mongo_driver msem) session opts f cols v2)
                 = fst (mg_select (mongo_driver msem) session opts f cols (mg_without ident' v2)))
             \<and> (\<forall>field. fst (mg_distinct (mongo_driver msem) session opts field f v2)
                 = fst (mg_distinct (mongo_driver msem) session opts field f (mg_without ident' v2)))
             \<and> (\<forall>docs. fst (mg_findAll (mongo_driver msem) session opts f v2) = Inr docs \<longrightarrow>
                   (\<forall>d \<in> set docs. map_of d ''_id'' \<noteq> Some (id_val ident')))
             \<and> (\<forall>d. fst (mg_findOne (mongo_driver msem) session opts f v2) = Inr (Some d) \<longrightarrow>
                   map_of d ''_id'' \<noteq> Some (id_val ident'))"
  proof
    fix f
    show "fst (mg_findOne (mongo_driver msem) session opts f v2)
            = fst (mg_findOne (mongo_driver msem) session opts f (mg_without ident' v2))
        \<and> fst (mg_findAll (mongo_driver msem) session opts f v2)
            = fst (mg_findAll (mongo_driver msem) session opts f (mg_without ident' v2))
        \<and> (\<forall>options. fst (mg_findPage (mongo_driver msem) session opts options v2)
            = fst (mg_findPage (mongo_driver msem) session opts options (mg_without ident' v2)))
        \<and> fst (mg_count (mongo_driver msem) session opts f v2)
            = fst (mg_count (mongo_driver msem) session opts f (mg_without ident' v2))
        \<and> fst (mg_exists (mongo_driver msem) session opts f v2)
            = fst (mg_exists (mongo_driver msem) session opts f (mg_without ident' v2))
        \<and> (\<forall>cols. fst (mg_select (mongo_driver msem) session opts f cols v2)
            = fst (mg_select (mongo_driver msem) session opts f cols (mg_without ident' v2)))
        \<and> (\<forall>field. fst (mg_distinct (mongo_driver msem) session opts field f v2)
            = fst (mg_distinct (mongo_driver msem) session opts field f (mg_without ident' v2)))
        \<and> (\<forall>docs. fst (mg_findAll (mongo_driver msem) session opts f v2) = Inr docs \<longrightarrow>
              (\<forall>d \<in> set docs. map_of d ''_id'' \<noteq> Some (id_val ident')))
        \<and> (\<forall>d. fst (mg_findOne (mongo_driver msem) session opts f v2) = Inr (Some d) \<longrightarrow>
              map_of d ''_id'' \<noteq> Some (id_val ident'))"
      by (rule mg_invisible [OF en hid])
  qed
qed

lemma store_ann_deleted:
  "store ann_deleted = [[(''id'', VNum 1), (''name'', VStr ''Ann''), (''deleted_at'', VDate 42)]]"
  by (simp add: ann_deleted_def pg_softDelete_def store_ann_created cfg_simps run_simps)

theorem soft_delete_round_trip_witness:
  "pg_softDeleteEnabled open_cfg
   \<and> distinct (map fst (pg_baseFilter open_cfg))
   \<and> fst (pg_findById (sql_driver plain_sql) open_cfg (IdNumber 1) ann_created) = Inr (Some ann)
   \<and> fst (pg_softDelete (sql_driver plain_sql) open_cfg (IdNumber 1) ann_created) = Inr True
   \<and> fst (pg_findById (sql_driver plain_sql) open_cfg (IdNumber 1) ann_deleted) = Inr None
   \<and> fst (pg_findAll (sql_driver plain_sql) open_cfg [] ann_deleted)
       = fst (pg_findAll (sql_driver plain_sql) open_cfg []
               (pg_without open_cfg (IdNumber 1) ann_deleted))
   \<and> fst (pg_findAll (sql_driver plain_sql) open_cfg [] ann_deleted) = Inr []
   \<and> fst (pg_count (sql_driver plain_sql) open_cfg [] ann_created) = Inr 1
   \<and> fst (pg_count (sql_driver plain_sql) open_cfg [] ann_deleted) = Inr 0
   \<and> (\<exists>z. fst (pg_findById (sql_driver plain_sql) open_cfg (IdNumber 1) ann_restored)
             = Inr (Some z))
   \<and> mg_softDeleteEnabled soft_opts
   \<and> valid_collection (store doc_created)
   \<and> fst (mg_findById (mongo_driver plain_mongo) False soft_opts (IdString ''a1'') doc_created)
       = Inr (Some ann_doc)
   \<and> fst (mg_softDelete (mongo_driver plain_mongo) False soft_opts (IdString ''a1'') doc_created)
       = Inr True
   \<and> fst (mg_findById (mongo_driver plain_mongo) False soft_opts (IdString ''a1'') doc_deleted)
       = Inr None
   \<and> fst (mg_findAll (mongo_driver plain_mongo) False soft_opts [] doc_deleted)
       = fst (mg_findAll (mongo_driver plain_mongo) False soft_opts []
               (mg_without (IdString ''a1'') doc_deleted))
   \<and> fst (mg_findAll (mongo_driver plain_mongo) False soft_opts [] doc_deleted) = Inr []
   \<and> (\<exists>z. fst (mg_findById (mongo_driver plain_mongo) False soft_opts (IdString ''a1'')
               doc_restored) = Inr (Some z))"
proof -
  have en: "pg_softDeleteEnabled open_cfg"
    by (simp add: cfg_simps)
  have db: "distinct (map fst (pg_baseFilter open_cfg))"
    by (simp add: cfg_simps)
  have vis: "fst (pg_findById (sql_driver plain_sql) open_cfg (IdNumber 1) ann_created)
      = Inr (Some ann)"
    by (simp add: pg_findById_def store_ann_created cfg_simps run_simps)
  have uq: "distinct (map (\<lambda>row. column row (pg_pk open_cfg)) (store ann_created))"
    by (simp add: store_ann_created)
  have nf: "pg_softDeleteField open_cfg \<notin> fst ` set []"
    by simp
  have men: "mg_softDeleteEnabled soft_opts"
    by (simp add: mg_softDeleteEnabled_def soft_opts_def users_opts_def)
  have vc: "valid_collection (store doc_created)"
    by (simp add: store_doc_created valid_collection_def nullish_def ann_doc_def)
  have mvis: "fst (mg_findById (mongo_driver plain_mongo) False soft_opts (IdString ''a1'')
      doc_created) = Inr (Some ann_doc)"
    by (simp add: mg_findById_def store_doc_created mg_notDeletedFilter_def
        mg_softDeleteEnabled_def mg_softDeleteField_def soft_opts_def users_opts_def
        model_run_def doc_matches_def cond_holds_def nullish_def ann_doc_def projected_def
        first_row_def Let_def)
  have e1: "fst (pg_findAll (sql_driver plain_sql) open_cfg [] ann_deleted) = Inr []"
    by (simp add: pg_findAll_def store_ann_deleted cfg_simps run_simps)
  have e2: "fst (pg_count (sql_driver plain_sql) open_cfg [] ann_created) = Inr 1"
    by (simp add: pg_count_def store_ann_created cfg_simps run_simps)
  have e3: "fst (pg_count (sql_driver plain_sql) open_cfg [] ann_deleted) = Inr 0"
    by (simp add: pg_count_def store_ann_deleted cfg_simps run_simps)
  have e4: "fst (mg_findAll (mongo_driver plain_mongo) False soft_opts [] doc_deleted) = Inr []"
    by (simp add: mg_findAll_def store_doc_deleted mg_notDeletedFilter_def
        mg_softDeleteEnabled_def mg_softDeleteField_def soft_opts_def users_opts_def
        model_run_def doc_matches_def cond_holds_def nullish_def skip_limit_def Let_def)
  note t = soft_delete_round_trip [where cfg = open_cfg and sem = plain_sql and data = ann
      and ?w0.0 = empty_world and ?w1.0 = ann_created and ident = "IdNumber 1" and x = ann
      and ?w2.0 = ann_deleted and ?w3.0 = ann_restored
      and opts = soft_opts and msem = plain_mongo and session = False and doc = ann_doc
      and ?v0.0 = empty_world and ?v1.0 = doc_created and ident' = "IdString ''a1''"
      and x' = ann_doc and ?v2.0 = doc_deleted and ?v3.0 = doc_restored]
  have hp: "pg_softDeleteEnabled open_cfg
      \<and> distinct (map fst (pg_baseFilter open_cfg))
      \<and> ann_created = snd (pg_create (sql_driver plain_sql) open_cfg ann empty_world)
      \<and> fst (pg_findById (sql_driver plain_sql) open_cfg (IdNumber 1) ann_created) = Inr (Some ann)
      \<and> ann_deleted = snd (pg_softDelete (sql_driver plain_sql) open_cfg (IdNumber 1) ann_created)
      \<and> ann_restored = snd (pg_restore (sql_driver plain_sql) open_cfg (IdNumber 1) ann_deleted)"
    by (intro conjI en db vis ann_created_def ann_deleted_def ann_restored_def)
  have hm: "mg_softDeleteEnabled soft_opts
      \<and> doc_created = snd (mg_create (mongo_driver plain_mongo) False soft_opts ann_doc empty_world)
      \<and> valid_collection (store doc_created)
      \<and> fst (mg_findById (mongo_driver plain_mongo) False soft_opts (IdString ''a1'') doc_created)
          = Inr (Some ann_doc)
      \<and> doc_deleted
          = snd (mg_softDelete (mongo_driver plain_mongo) False soft_opts (IdString ''a1'') doc_created)
      \<and> doc_restored
          = snd (mg_restore (mongo_driver plain_mongo) False soft_opts (IdString ''a1'') doc_deleted)"
    by (intro conjI men vc mvis doc_created_def doc_deleted_def doc_restored_def)
  note p = t [THEN conjunct1, THEN mp, OF hp]
  note m = t [THEN conjunct2, THEN mp, OF hm]
  note p1 = p [THEN conjunct1]
  note p2 = p [THEN conjunct2, THEN conjunct1]
  note p3 = p [THEN conjunct2, THEN conjunct2, THEN conjunct1, THEN mp, OF uq, THEN spec,
      of "[]", THEN mp, OF nf, THEN conjunct2, THEN conjunct1]
  note p5 = p [THEN conjunct2, THEN conjunct2, THEN conjunct2, THEN conjunct2, THEN conjunct1]
  note m1 = m [THEN conjunct1]
  note m2 = m [THEN conjunct2, THEN conjunct1]
  note m3 = m [THEN conjunct2, THEN conjunct2, THEN conjunct1, THEN spec, of "[]",
      THEN conjunct2, THEN conjunct1]
  note m5 = m [THEN conjunct2, THEN conjunct2, THEN conjunct2, THEN conjunct2, THEN conjunct1]
  show ?thesis
    by (intro conjI en db vis p1 p2 p3 e1 e2 e3 p5 men vc mvis m1 m2 m3 e4 m5)
qed

text \<open>
  C5 as stated fails on the relational backend.  For an entity whose default filter
  constrains the soft-delete field itself, \<open>findAllWithDeleted\<close> still merges the default
  filter, so after \<open>softDelete\<close> it no longer returns the record.  And a read is a default
  read only as far as the caller's filter lets it: \<open>findAll\<close> with a caller filter
  \<open>{deleted_at: {isNotNull: true}}\<close> returns the soft-deleted record.
\<close>

theorem soft_delete_round_trip_counterexample:
  "pg_softDeleteEnabled self_filtered_cfg
   \<and> fst (pg_findById (sql_driver plain_sql) self_filtered_cfg (IdNumber 1) sf_created)
       = Inr (Some ann)
   \<and> fst (pg_softDelete (sql_driver plain_sql) self_filtered_cfg (IdNumber 1) sf_created)
       = Inr True
   \<and> fst (pg_findAllWithDeleted (sql_driver plain_sql) self_filtered_cfg [] sf_deleted) = Inr []
   \<and> pg_softDeleteEnabled open_cfg
   \<and> fst (pg_findById (sql_driver plain_sql) open_cfg (IdNumber 1) ann_created) = Inr (Some ann)
   \<and> fst (pg_softDelete (sql_driver plain_sql) open_cfg (IdNumber 1) ann_created) = Inr True
   \<and> fst (pg_findAll (sql_driver plain_sql) open_cfg
            [(''deleted_at'', VObj [(''isNotNull'', VBool True)])] ann_deleted)
       = Inr [[(''id'', VNum 1), (''name'', VStr ''Ann''), (''deleted_at'', VDate 42)]]"
proof -
  have a: "pg_softDeleteEnabled self_filtered_cfg"
    by (simp add: cfg_simps)
  have b: "fst (pg_findById (sql_driver plain_sql) self_filtered_cfg (IdNumber 1) sf_created)
       = Inr (Some ann)"
    by (simp add: pg_findById_def store_sf_created cfg_simps run_simps)
  have c: "fst (pg_softDelete (sql_driver plain_sql) self_filtered_cfg (IdNumber 1) sf_created)
       = Inr True"
    by (simp add: pg_softDelete_def store_sf_created cfg_simps run_simps)
  have d: "fst (pg_findAllWithDeleted (sql_driver plain_sql) self_filtered_cfg [] sf_deleted)
       = Inr []"
    by (simp add: pg_findAllWithDeleted_def store_sf_deleted cfg_simps run_simps)
  have e: "pg_softDeleteEnabled open_cfg"
    by (simp add: cfg_simps)
  have f: "fst (pg_findById (sql_driver plain_sql) open_cfg (IdNumber 1) ann_created)
      = Inr (Some ann)"
    by (simp add: pg_findById_def store_ann_created cfg_simps run_simps)
  have g: "fst (pg_softDelete (sql_driver plain_sql) open_cfg (IdNumber 1) ann_created) = Inr True"
    by (simp add: pg_softDelete_def store_ann_created cfg_simps run_simps)
  have h: "fst (pg_findAll (sql_driver plain_sql) open_cfg
            [(''deleted_at'', VObj [(''isNotNull'', VBool True)])] ann_deleted)
       = Inr [[(''id'', VNum 1), (''name'', VStr ''Ann''), (''deleted_at'', VDate 42)]]"
    by (simp add: pg_findAll_def store_ann_deleted cfg_simps run_simps)
  show ?thesis
    by (intro conjI a b c d e f g h)
qed

end
